(* ===== verification/Prelude.thy ===== *)
theory Prelude
  imports Main "HOL-Library.Word" "HOL-Library.Monad_Syntax"
begin

text \<open>
  Shared vocabulary of the development: the C integer types of the sources as words
  (\<open>unsigned char\<close>, \<open>unsigned short\<close>, \<open>unsigned\<close>, \<open>unsigned long\<close>), the collections of
  rewrite rules the component proofs draw on, and the generic facts on words, lists and
  the option monad that more than one component needs.
\<close>

unbundle bit_operations_syntax

type_synonym u8 = "8 word"
type_synonym u16 = "16 word"
type_synonym u32 = "32 word"
type_synonym u64 = "64 word"

named_theorems frame_simps \<open>what an operation leaves unchanged\<close>
named_theorems hyp_consts \<open>constants of the headers, unfolded for evaluation\<close>
named_theorems wf_intros \<open>operations preserve well-formedness\<close>


subsection \<open>Option monad\<close>

lemma bind_SomeE [elim!]:
  assumes "Option.bind m f = Some y"
  obtains x where "m = Some x" and "f x = Some y"
  using assms by (cases m) auto


subsection \<open>Words\<close>

lemma and_mask_le: "(w AND m) \<le> (m :: 'a::len word)"
  by (rule word_and_le1)

lemma unat_and_le: "unat (w AND m) \<le> unat (m :: 'a::len word)"
  using word_and_le1 word_le_nat_alt by blast

lemma word_neq_0_bit: "(w :: 'a::len word) \<noteq> 0 \<longleftrightarrow> (\<exists>n < LENGTH('a). bit w n)"
  by (metis bit_0_eq bit_imp_le_length bit_word_eqI bot_apply bot_bool_def)

lemma unat_drop_bit: "unat (drop_bit n (w :: 'a::len word)) = unat w div 2 ^ n"
  by (simp only: unat_drop_bit_eq) (simp only: drop_bit_eq_div)

lemma unat_take_bit: "unat (take_bit n (w :: 'a::len word)) = unat w mod 2 ^ n"
  by (simp only: unsigned_take_bit_eq) (simp only: take_bit_eq_mod)

text \<open>Masking with an all-ones constant is \<open>take_bit\<close>.\<close>

lemma and_mask_take_bit:
  "(w :: 'a::len word) AND 0x1 = take_bit 1 w"
  "w AND 0x3 = take_bit 2 w"
  "w AND 0x7 = take_bit 3 w"
  "w AND 0xf = take_bit 4 w"
  "w AND 0x1f = take_bit 5 w"
  "w AND 0x3f = take_bit 6 w"
  "w AND 0xff = take_bit 8 w"
  "w AND 0x1ff = take_bit 9 w"
  "w AND 0x3ff = take_bit 10 w"
  "w AND 0xfff = take_bit 12 w"
  "w AND 0xffff = take_bit 16 w"
  "w AND 0xffffff = take_bit 24 w"
  "w AND 0x1ffffff = take_bit 25 w"
  by (simp_all add: take_bit_eq_mask mask_eq_exp_minus_1)


lemma div_eq_range: "0 < (k::nat) \<Longrightarrow> n div k = q \<longleftrightarrow> q * k \<le> n \<and> n < Suc q * k"
proof -
  assume k: "0 < k"
  have "q \<le> n div k \<longleftrightarrow> q * k \<le> n" using k by (rule less_eq_div_iff_mult_less_eq)
  moreover have "n div k < Suc q \<longleftrightarrow> n < Suc q * k" using k by (rule div_less_iff_less_mult)
  ultimately show ?thesis by linarith
qed


subsection \<open>Lists updated by index\<close>

lemma nth_list_update_if:
  "i < length xs \<Longrightarrow> xs[j := v] ! i = (if i = j then v else xs ! i)"
  by (simp add: nth_list_update)

end
