(* ===== verification/Machine.thy ===== *)
theory Machine
  imports Prelude
begin

text \<open>
  The machine the hypervisor runs on and the data it keeps.

  Hardware is not part of the sources: what a volatile load or a volatile system register
  read returns is an input, given by the functions \<open>dev_load\<close> and \<open>dev_mrs\<close> of the
  platform from the history of everything done to the hardware so far. That history is
  the event trace \<open>io\<close> of the state: every volatile access, every \<open>msr\<close> and every TLB
  maintenance operation appends to it, in program order. System registers that only hold
  what was written to them are a function from register names to values.

  The global variables of the C files are the fields of the record \<open>hyp\<close>; the C structs
  are records with the sources' fields (padding fields, which no code touches, are left
  out). Addresses fixed by the linker are fields of the platform. \<open>boot_state\<close> is the memory
  \<open>boot.S\<close> leaves to \<open>kmain\<close>, and \<open>board\<close> a concrete platform for evaluating examples.
\<close>


section \<open>Hardware interface\<close>

datatype width = W8 | W16 | W32

datatype sysreg =
    VTTBR_EL2 | HCR_EL2 | CNTV_CVAL_EL0 | CNTV_CTL_EL0
  | SCTLR_EL1 | TTBR0_EL1 | TTBR1_EL1 | TCR_EL1 | MAIR_EL1 | AMAIR_EL1 | VBAR_EL1
  | CONTEXTIDR_EL1 | CPACR_EL1 | ELR_EL1 | SPSR_EL1 | SP_EL1 | SP_EL0 | TPIDR_EL0
  | TPIDRRO_EL0 | TPIDR_EL1 | ESR_EL1 | FAR_EL1 | PAR_EL1
  | VTCR_EL2 | CNTVOFF_EL2 | CNTHP_CVAL_EL2 | CNTHP_CTL_EL2
  | ELR_EL2 | SPSR_EL2 | ESR_EL2 | FAR_EL2 | HPFAR_EL2
  | VBAR_EL2 | MPIDR_EL1 | CNTFRQ_EL0 | CNTPCT_EL0 | CNTVCT_EL0 | CurrentEL
  | ICC_SRE_EL1 | ICC_SRE_EL2 | ICC_PMR_EL1 | ICC_IGRPEN1_EL1 | ICC_IAR1_EL1 | ICC_EOIR1_EL1
  | ICH_HCR_EL2 | ICH_VMCR_EL2 | ICH_LR0_EL2

datatype event =
    Store width u64 u32
  | Load width u64 u32
  | Msr sysreg u64
  | Mrs sysreg u64
  | Tlbi

record platform =
  nvcpu :: u32
  dev_load :: "event list \<Rightarrow> width \<Rightarrow> u64 \<Rightarrow> u32"
  dev_mrs :: "event list \<Rightarrow> sysreg \<Rightarrow> u64"
  ram_byte :: "u64 \<Rightarrow> u8"
  addr_s2_l1 :: u64
  addr_s2_l2_low :: u64
  addr_s2_l3_gic :: u64
  addr_s2_l3_priv :: u64
  addr_vm_priv_page :: u64
  addr_guest_states :: u64
  guest_stack_top_a :: u64
  guest_stack_top_b :: u64
  addr_guest_entry_common :: u64
  addr_guest_v3_start :: u64

text \<open>A C access through a pointer to an unsigned type of the given width.\<close>

definition clip :: "width \<Rightarrow> u32 \<Rightarrow> u32" where
  "clip w v = (case w of W8 \<Rightarrow> v AND 0xFF | W16 \<Rightarrow> v AND 0xFFFF | W32 \<Rightarrow> v)"

definition load_io :: "platform \<Rightarrow> width \<Rightarrow> u64 \<Rightarrow> event list \<Rightarrow> u32 \<times> event list" where
  "load_io p w a tr = (let v = clip w (dev_load p tr w a) in (v, tr @ [Load w a v]))"


section \<open>Data of the C files\<close>

record trap_frame =
  tf_x :: "u64 list"
  tf_elr_el2 :: u64
  tf_spsr_el2 :: u64

record vcpu =
  v_x :: "u64 list"
  v_elr_el2 :: u64
  v_spsr_el2 :: u64
  v_vttbr_el2 :: u64
  v_hcr_el2 :: u64
  v_cntv_cval :: u64
  v_cntv_ctl :: u64
  v_sctlr_el1 :: u64
  v_ttbr0_el1 :: u64
  v_ttbr1_el1 :: u64
  v_tcr_el1 :: u64
  v_mair_el1 :: u64
  v_amair_el1 :: u64
  v_vbar_el1 :: u64
  v_contextidr_el1 :: u64
  v_cpacr_el1 :: u64
  v_elr_el1 :: u64
  v_spsr_el1 :: u64
  v_sp_el1 :: u64
  v_sp_el0 :: u64
  v_tpidr_el0 :: u64
  v_tpidrro_el0 :: u64
  v_tpidr_el1 :: u64
  v_esr_el1 :: u64
  v_far_el1 :: u64
  v_par_el1 :: u64
  v_id :: u32
  v_vmid :: u32

record vgic =
  pending_mask :: u64
  g_ctlr :: u32
  g_pmr :: u32
  g_bpr :: u32
  g_active :: u32
  phys_iar :: u32
  has_phys_iar :: u32

record guest_state =
  gs_id :: u32
  gs_ticks :: u64
  gs_tick_period :: u64

record exit_record =
  e_esr :: u64
  e_elr :: u64
  e_far :: u64
  e_kind :: u64
  e_vcpu :: u32

text \<open>The hypervisor's global state.\<close>

record hyp =
  sys :: "sysreg \<Rightarrow> u64"
  io :: "event list"
  exit_ring :: "exit_record list"
  exit_ring_head :: u32
  exit_ring_count :: u64
  vgics :: "vgic list"
  vcpus :: "vcpu list"
  current :: u32
  guest_states :: "guest_state list"
  s2_l1 :: "u64 list list"
  s2_l2_low :: "u64 list list"
  s2_l3_gic :: "u64 list list"
  s2_l3_priv :: "u64 list list"
  vm_priv_page :: "u8 list list"
  htimer_ticks :: u64
  vtimer_ticks :: u64
  other_ticks :: u64

text \<open>
  Control flow out of a handler that may not come back: a function either returns, parks
  the CPU for good (\<open>for (;;) wfe\<close>), or leaves through \<open>eret\<close>. A polling loop that never
  ends is the value \<open>None\<close> of the surrounding option.
\<close>

datatype 'a outcome = Ret 'a | Halted | Eret


section \<open>Accesses\<close>

definition store :: "width \<Rightarrow> u64 \<Rightarrow> u32 \<Rightarrow> hyp \<Rightarrow> hyp" where
  "store w a v s = s\<lparr>io := io s @ [Store w a (clip w v)]\<rparr>"

definition load :: "platform \<Rightarrow> width \<Rightarrow> u64 \<Rightarrow> hyp \<Rightarrow> u32 \<times> hyp" where
  "load p w a s = (let (v, tr) = load_io p w a (io s) in (v, s\<lparr>io := tr\<rparr>))"

definition msr :: "sysreg \<Rightarrow> u64 \<Rightarrow> hyp \<Rightarrow> hyp" where
  "msr r v s = s\<lparr>sys := (sys s)(r := v), io := io s @ [Msr r v]\<rparr>"

definition mrs :: "sysreg \<Rightarrow> hyp \<Rightarrow> u64" where
  "mrs r s = sys s r"

definition mrs_dev :: "platform \<Rightarrow> sysreg \<Rightarrow> hyp \<Rightarrow> u64 \<times> hyp" where
  "mrs_dev p r s = (let v = dev_mrs p (io s) r in (v, s\<lparr>io := io s @ [Mrs r v]\<rparr>))"

definition tlbi :: "hyp \<Rightarrow> hyp" where
  "tlbi s = s\<lparr>io := io s @ [Tlbi]\<rparr>"


section \<open>Header constants\<close>

definition GICD_BASE_PA :: u64 where [hyp_consts]: "GICD_BASE_PA = 0x08000000"
definition GICC_BASE_PA :: u64 where [hyp_consts]: "GICC_BASE_PA = 0x08010000"
definition IRQ_VTIMER :: u32 where [hyp_consts]: "IRQ_VTIMER = 27"
definition IRQ_HTIMER :: u32 where [hyp_consts]: "IRQ_HTIMER = 26"
definition IRQ_PL011 :: u32 where [hyp_consts]: "IRQ_PL011 = 33"
definition GICD_CTLR :: u64 where [hyp_consts]: "GICD_CTLR = 0x000"
definition GICD_ISENABLER :: u64 where [hyp_consts]: "GICD_ISENABLER = 0x100"
definition GICD_IPRIORITYR :: u64 where [hyp_consts]: "GICD_IPRIORITYR = 0x400"
definition GICD_IGROUPR :: u64 where [hyp_consts]: "GICD_IGROUPR = 0x080"
definition GICC_CTLR :: u64 where [hyp_consts]: "GICC_CTLR = 0x000"
definition GICC_PMR :: u64 where [hyp_consts]: "GICC_PMR = 0x004"
definition GICC_IAR :: u64 where [hyp_consts]: "GICC_IAR = 0x00C"
definition GICC_EOIR :: u64 where [hyp_consts]: "GICC_EOIR = 0x010"
definition INTID_SPURIOUS :: u32 where [hyp_consts]: "INTID_SPURIOUS = 1023"
definition GICC_EMU_BASE :: u64 where [hyp_consts]: "GICC_EMU_BASE = 0x08010000"
definition GICC_EMU_LIMIT :: u64 where [hyp_consts]: "GICC_EMU_LIMIT = 0x08020000"
definition GICD_EMU_BASE :: u64 where [hyp_consts]: "GICD_EMU_BASE = 0x08000000"
definition GICD_EMU_LIMIT :: u64 where [hyp_consts]: "GICD_EMU_LIMIT = 0x08010000"

definition current_vcpu :: "hyp \<Rightarrow> vcpu" where
  "current_vcpu s = vcpus s ! unat (current s)"


section \<open>Initial memory\<close>

definition zero_vcpu :: vcpu where
  "zero_vcpu = \<lparr>v_x = replicate 31 0, v_elr_el2 = 0, v_spsr_el2 = 0, v_vttbr_el2 = 0, v_hcr_el2 = 0,
     v_cntv_cval = 0, v_cntv_ctl = 0, v_sctlr_el1 = 0, v_ttbr0_el1 = 0, v_ttbr1_el1 = 0,
     v_tcr_el1 = 0, v_mair_el1 = 0, v_amair_el1 = 0, v_vbar_el1 = 0, v_contextidr_el1 = 0,
     v_cpacr_el1 = 0, v_elr_el1 = 0, v_spsr_el1 = 0, v_sp_el1 = 0, v_sp_el0 = 0, v_tpidr_el0 = 0,
     v_tpidrro_el0 = 0, v_tpidr_el1 = 0, v_esr_el1 = 0, v_far_el1 = 0, v_par_el1 = 0,
     v_id = 0, v_vmid = 0\<rparr>"

definition zero_vgic :: vgic where
  "zero_vgic = \<lparr>pending_mask = 0, g_ctlr = 0, g_pmr = 0, g_bpr = 0, g_active = 0, phys_iar = 0,
     has_phys_iar = 0\<rparr>"

text \<open>The state \<open>_start\<close> hands to \<open>kmain\<close>: BSS cleared, system registers as reset left them.\<close>

definition boot_state :: "platform \<Rightarrow> (sysreg \<Rightarrow> u64) \<Rightarrow> hyp" where
  "boot_state p regs =
     \<lparr>sys = regs, io = [],
      exit_ring = replicate 32 \<lparr>e_esr = 0, e_elr = 0, e_far = 0, e_kind = 0, e_vcpu = 0\<rparr>,
      exit_ring_head = 0, exit_ring_count = 0,
      vgics = replicate 4 zero_vgic,
      vcpus = replicate (unat (nvcpu p)) zero_vcpu, current = 0,
      guest_states = replicate (unat (nvcpu p)) \<lparr>gs_id = 0, gs_ticks = 0, gs_tick_period = 0\<rparr>,
      s2_l1 = replicate 2 (replicate 512 0), s2_l2_low = replicate 2 (replicate 512 0),
      s2_l3_gic = replicate 2 (replicate 512 0), s2_l3_priv = replicate 2 (replicate 512 0),
      vm_priv_page = replicate 2 (replicate 4096 0),
      htimer_ticks = 0, vtimer_ticks = 0, other_ticks = 0\<rparr>"

text \<open>
  A concrete board, to evaluate the definitions on: \<open>n\<close> vCPUs, the five stage-2 arrays on
  consecutive pages from \<open>0x40100000\<close> up, a 62.5 MHz counter, and devices whose registers read
  as zero except the interrupt acknowledge register, which reads \<open>irq\<close>.
\<close>

definition board :: "u32 \<Rightarrow> u32 \<Rightarrow> platform" where
  "board n irq =
     \<lparr>nvcpu = n,
      dev_load = (\<lambda>tr w a. if a = GICC_BASE_PA + GICC_IAR then irq else 0),
      dev_mrs = (\<lambda>tr r. if r = CNTFRQ_EL0 then 62500000 else 0),
      ram_byte = (\<lambda>a. 0),
      addr_s2_l1 = 0x40100000, addr_s2_l2_low = 0x40102000, addr_s2_l3_gic = 0x40104000,
      addr_s2_l3_priv = 0x40106000, addr_vm_priv_page = 0x40108000,
      addr_guest_states = 0x4010A000, guest_stack_top_a = 0x40110000, guest_stack_top_b = 0x40120000,
      addr_guest_entry_common = 0x40090000, addr_guest_v3_start = 0x40098000\<rparr>"

lemma board_simps [simp]:
  "nvcpu (board n irq) = n"
  "dev_load (board n irq) = (\<lambda>tr w a. if a = GICC_BASE_PA + GICC_IAR then irq else 0)"
  "dev_mrs (board n irq) = (\<lambda>tr r. if r = CNTFRQ_EL0 then 62500000 else 0)"
  "ram_byte (board n irq) = (\<lambda>a. 0)"
  "addr_s2_l1 (board n irq) = 0x40100000" "addr_s2_l2_low (board n irq) = 0x40102000"
  "addr_s2_l3_gic (board n irq) = 0x40104000" "addr_s2_l3_priv (board n irq) = 0x40106000"
  "addr_vm_priv_page (board n irq) = 0x40108000" "addr_guest_states (board n irq) = 0x4010A000"
  "addr_guest_v3_start (board n irq) = 0x40098000"
  by (simp_all add: board_def)

lemma boot_state_simps [simp]:
  "sys (boot_state p regs) = regs" "io (boot_state p regs) = []" "current (boot_state p regs) = 0"
  "vgics (boot_state p regs) = replicate 4 zero_vgic"
  "vcpus (boot_state p regs) = replicate (unat (nvcpu p)) zero_vcpu"
  "exit_ring_count (boot_state p regs) = 0"
  by (simp_all add: boot_state_def)


section \<open>Frames\<close>

lemma load_snd: "load p w a s = (v, s') \<Longrightarrow> s' = s\<lparr>io := io s @ [Load w a v]\<rparr>"
  by (auto simp: load_def load_io_def Let_def)

lemma fst_load_W32 [simp]: "fst (load p W32 a s) = dev_load p (io s) W32 a"
  by (simp add: load_def load_io_def clip_def Let_def)

lemma snd_load [simp]:
  "snd (load p w a s) = s\<lparr>io := io s @ [Load w a (clip w (dev_load p (io s) w a))]\<rparr>"
  by (simp add: load_def load_io_def Let_def)

lemma clip_simps [simp]:
  "clip W8 v = v AND 0xFF" "clip W16 v = v AND 0xFFFF" "clip W32 v = v"
  by (simp_all add: clip_def)

end
