(* ===== verification/Uart.thy ===== *)
theory Uart
  imports Machine
begin

text \<open>
  The polled PL011 driver of \<open>src/src/uart.c\<close>. The driver touches nothing but the device,
  so its functions work on the event trace alone; \<open>uart_putc\<close> polls the flag register until
  the transmit FIFO has room, a loop that ends only if the device lets it, and its result is
  an option. The console text of a trace is the sequence of bytes stored to \<open>UARTDR\<close>.

  The interface locale \<open>pl011_console\<close> states what the rest of the hypervisor relies on:
  the FIFO always drains after finitely many polls. Its lemmas show that every print
  returns and what it prints.
\<close>


section \<open>Driver\<close>

definition UART0_BASE :: u64 where [hyp_consts]: "UART0_BASE = 0x09000000"
definition UARTDR :: u64 where [hyp_consts]: "UARTDR = UART0_BASE + 0x000"
definition UARTFR :: u64 where [hyp_consts]: "UARTFR = UART0_BASE + 0x018"
definition UARTIBRD :: u64 where [hyp_consts]: "UARTIBRD = UART0_BASE + 0x024"
definition UARTFBRD :: u64 where [hyp_consts]: "UARTFBRD = UART0_BASE + 0x028"
definition UARTLCRH :: u64 where [hyp_consts]: "UARTLCRH = UART0_BASE + 0x02C"
definition UARTCR :: u64 where [hyp_consts]: "UARTCR = UART0_BASE + 0x030"
definition UARTIMSC :: u64 where [hyp_consts]: "UARTIMSC = UART0_BASE + 0x038"
definition UARTICR :: u64 where [hyp_consts]: "UARTICR = UART0_BASE + 0x044"

definition FR_TXFF :: u32 where [hyp_consts]: "FR_TXFF = push_bit 5 1"
definition LCRH_FEN :: u32 where [hyp_consts]: "LCRH_FEN = push_bit 4 1"
definition LCRH_WLEN_8 :: u32 where [hyp_consts]: "LCRH_WLEN_8 = push_bit 5 3"
definition CR_UARTEN :: u32 where [hyp_consts]: "CR_UARTEN = push_bit 0 1"
definition CR_TXE :: u32 where [hyp_consts]: "CR_TXE = push_bit 8 1"
definition CR_RXE :: u32 where [hyp_consts]: "CR_RXE = push_bit 9 1"

definition uart_init :: "event list \<Rightarrow> event list" where
  "uart_init tr = tr @
     [Store W32 UARTCR 0,
      Store W32 UARTICR 0x7ff,
      Store W32 UARTIBRD 26,
      Store W32 UARTFBRD 3,
      Store W32 UARTLCRH (LCRH_WLEN_8 OR LCRH_FEN),
      Store W32 UARTIMSC 0,
      Store W32 UARTCR (CR_UARTEN OR CR_TXE OR CR_RXE)]"

text \<open>The loop \<open>while (UARTFR & FR_TXFF) { }\<close>.\<close>

partial_function (option) uart_wait :: "platform \<Rightarrow> event list \<Rightarrow> event list option" where
  "uart_wait p tr =
     (if fst (load_io p W32 UARTFR tr) AND FR_TXFF \<noteq> 0
      then uart_wait p (snd (load_io p W32 UARTFR tr))
      else Some (snd (load_io p W32 UARTFR tr)))"

definition uart_putc :: "platform \<Rightarrow> u8 \<Rightarrow> event list \<Rightarrow> event list option" where
  "uart_putc p c tr = do {
     tr \<leftarrow> uart_wait p tr;
     Some (tr @ [Store W32 UARTDR (ucast c)]) }"

text \<open>A C string constant is its list of bytes; a zero byte ends it.\<close>

fun uart_puts :: "platform \<Rightarrow> u8 list \<Rightarrow> event list \<Rightarrow> event list option" where
  "uart_puts p [] tr = Some tr"
| "uart_puts p (c # cs) tr =
     (if c = 0 then Some tr
      else do {
        tr \<leftarrow> (if c = 10 then uart_putc p 13 tr else Some tr);
        tr \<leftarrow> uart_putc p c tr;
        uart_puts p cs tr })"

text \<open>The same loop on a pointer into memory, as \<open>HVC_PUTS\<close> calls it on a guest address.\<close>

partial_function (option) uart_puts_ptr :: "platform \<Rightarrow> u64 \<Rightarrow> event list \<Rightarrow> event list option" where
  "uart_puts_ptr p a tr =
     (if ram_byte p a = 0 then Some tr
      else do {
        tr \<leftarrow> (if ram_byte p a = 10 then uart_putc p 13 tr else Some tr);
        tr \<leftarrow> uart_putc p (ram_byte p a) tr;
        uart_puts_ptr p (a + 1) tr })"

definition hex_digit :: "u64 \<Rightarrow> u8" where
  "hex_digit n = (if n < 10 then 48 + ucast n else 97 + ucast n - 10)"

fun put_hex_from :: "platform \<Rightarrow> u64 \<Rightarrow> nat \<Rightarrow> event list \<Rightarrow> event list option" where
  "put_hex_from p v 0 tr = Some tr"
| "put_hex_from p v (Suc k) tr = do {
     tr \<leftarrow> uart_putc p (hex_digit (drop_bit (4 * k) v AND 0xf)) tr;
     put_hex_from p v k tr }"

definition uart_put_hex :: "platform \<Rightarrow> u64 \<Rightarrow> event list \<Rightarrow> event list option" where
  "uart_put_hex p v tr = do {
     tr \<leftarrow> uart_puts p (map of_char ''0x'') tr;
     put_hex_from p v 16 tr }"

text \<open>
  A run of consecutive calls of the three print functions, in order, on the hypervisor
  state. The sources write these as separate statements.
\<close>

datatype item = Str string | Chr u8 | Hex u64

fun print_item :: "platform \<Rightarrow> item \<Rightarrow> event list \<Rightarrow> event list option" where
  "print_item p (Str cs) tr = uart_puts p (map of_char cs) tr"
| "print_item p (Chr c) tr = uart_putc p c tr"
| "print_item p (Hex v) tr = uart_put_hex p v tr"

fun print_items :: "platform \<Rightarrow> item list \<Rightarrow> event list \<Rightarrow> event list option" where
  "print_items p [] tr = Some tr"
| "print_items p (i # is) tr = do { tr \<leftarrow> print_item p i tr; print_items p is tr }"

definition kprint :: "platform \<Rightarrow> item list \<Rightarrow> hyp \<Rightarrow> hyp option" where
  "kprint p is s = do { tr \<leftarrow> print_items p is (io s); Some (s\<lparr>io := tr\<rparr>) }"

abbreviation NL :: string where "NL \<equiv> [CHR 0x0A]"


section \<open>What the driver does to the device\<close>

definition uart_ev :: "event \<Rightarrow> bool" where
  "uart_ev e = (case e of Load w a v \<Rightarrow> w = W32 \<and> a = UARTFR
     | Store w a v \<Rightarrow> w = W32 \<and> a = UARTDR | _ \<Rightarrow> False)"

fun console :: "event list \<Rightarrow> u8 list" where
  "console [] = []"
| "console (Store w a v # es) = (if a = UARTDR then [ucast v] else []) @ console es"
| "console (e # es) = console es"

lemma console_append [simp]: "console (xs @ ys) = console xs @ console ys"
  by (induction xs rule: console.induct) auto

text \<open>The text the three functions send: newlines get a carriage return in front.\<close>

fun cr_lf :: "u8 list \<Rightarrow> u8 list" where
  "cr_lf [] = []"
| "cr_lf (c # cs) = (if c = 0 then [] else (if c = 10 then [13, c] else [c]) @ cr_lf cs)"

definition hex_text :: "u64 \<Rightarrow> u8 list" where
  "hex_text v = map of_char ''0x'' @
     map (\<lambda>k. hex_digit (drop_bit (4 * k) v AND 0xf)) (rev [0..<16])"

fun item_text :: "item \<Rightarrow> u8 list" where
  "item_text (Str cs) = cr_lf (map of_char cs)"
| "item_text (Chr c) = [c]"
| "item_text (Hex v) = hex_text v"

text \<open>
  Printing appends only flag reads and data writes: the trace before it and everything
  else in the state stay as they were.
\<close>

definition prints :: "event list \<Rightarrow> u8 list \<Rightarrow> event list \<Rightarrow> bool" where
  "prints tr cs tr' \<longleftrightarrow> (\<exists>es. tr' = tr @ es \<and> list_all uart_ev es \<and> console es = cs)"

lemma prints_refl [simp, intro]: "prints tr [] tr"
  by (simp add: prints_def)

lemma prints_trans [trans]: "prints tr cs tr' \<Longrightarrow> prints tr' ds tr'' \<Longrightarrow> prints tr (cs @ ds) tr''"
  by (fastforce simp: prints_def)

lemma prints_load: "fst (load_io p W32 UARTFR tr) = v \<Longrightarrow> prints tr [] (snd (load_io p W32 UARTFR tr))"
  by (simp add: prints_def load_io_def Let_def uart_ev_def)

lemma prints_store: "prints tr [c] (tr @ [Store W32 UARTDR (ucast c)])"
proof -
  have "ucast (ucast c :: u32) = c"
    by (rule bit_word_eqI) (auto simp: bit_simps)
  then show ?thesis by (simp add: prints_def uart_ev_def)
qed

lemma uart_wait_prints:
  assumes "uart_wait p tr = Some tr'"
  shows "prints tr [] tr'"
proof (rule uart_wait.raw_induct [where P = "\<lambda>p tr tr'. prints tr [] tr'", OF _ assms])
  fix f p tr tr'
  assume IH: "\<And>p tr tr'. f p tr = Some tr' \<Longrightarrow> prints tr [] tr'"
    and eq: "(if fst (load_io p W32 UARTFR tr) AND FR_TXFF \<noteq> 0
      then f p (snd (load_io p W32 UARTFR tr))
      else Some (snd (load_io p W32 UARTFR tr))) = Some tr'"
  have 1: "prints tr [] (snd (load_io p W32 UARTFR tr))" by (rule prints_load) simp
  then show "prints tr [] tr'"
    using IH [of p "snd (load_io p W32 UARTFR tr)" tr'] eq prints_trans [OF 1, of "[]" tr']
    by (auto split: if_splits)
qed

lemma uart_putc_prints: "uart_putc p c tr = Some tr' \<Longrightarrow> prints tr [c] tr'"
  unfolding uart_putc_def
  using prints_trans [OF uart_wait_prints prints_store] by fastforce

lemma uart_puts_prints: "uart_puts p cs tr = Some tr' \<Longrightarrow> prints tr (cr_lf cs) tr'"
proof (induction p cs tr rule: uart_puts.induct)
  case (2 p c cs tr)
  show ?case
  proof (cases "c = 0")
    case False
    with "2.prems" obtain t1 t2 where
      1: "(if c = 10 then uart_putc p 13 tr else Some tr) = Some t1"
      and 2: "uart_putc p c t1 = Some t2" and 3: "uart_puts p cs t2 = Some tr'"
      by auto
    from 1 have "prints tr (if c = 10 then [13] else []) t1"
      by (auto dest: uart_putc_prints split: if_splits)
    also from 2 have "prints t1 [c] t2" by (rule uart_putc_prints)
    also from "2.IH" [OF False 1 2 3] have "prints t2 (cr_lf cs) tr'" .
    finally show ?thesis using False by (simp split: if_splits)
  qed (use 2 in auto)
qed auto

lemma put_hex_from_prints:
  "put_hex_from p v n tr = Some tr' \<Longrightarrow>
   prints tr (map (\<lambda>k. hex_digit (drop_bit (4 * k) v AND 0xf)) (rev [0..<n])) tr'"
proof (induction n arbitrary: tr)
  case (Suc n)
  then obtain t1 where "uart_putc p (hex_digit (drop_bit (4 * n) v AND 0xf)) tr = Some t1"
    and "put_hex_from p v n t1 = Some tr'" by auto
  then show ?case
    using prints_trans [OF uart_putc_prints Suc.IH] by simp
qed auto

lemma uart_put_hex_prints: "uart_put_hex p v tr = Some tr' \<Longrightarrow> prints tr (hex_text v) tr'"
proof -
  assume "uart_put_hex p v tr = Some tr'"
  then obtain t1 where 1: "uart_puts p (map of_char ''0x'') tr = Some t1"
    and 2: "put_hex_from p v 16 t1 = Some tr'"
    by (auto simp: uart_put_hex_def)
  have "cr_lf (map of_char ''0x'') = map of_char ''0x''" by simp
  with prints_trans [OF uart_puts_prints [OF 1] put_hex_from_prints [OF 2]]
  show ?thesis by (simp only: hex_text_def)
qed

lemma print_item_prints: "print_item p i tr = Some tr' \<Longrightarrow> prints tr (item_text i) tr'"
  by (cases i) (auto intro: uart_puts_prints uart_putc_prints uart_put_hex_prints)

lemma print_items_prints:
  "print_items p is tr = Some tr' \<Longrightarrow> prints tr (concat (map item_text is)) tr'"
proof (induction "is" arbitrary: tr)
  case (Cons i "is")
  then obtain t1 where "print_item p i tr = Some t1" and "print_items p is t1 = Some tr'"
    by auto
  then show ?case using prints_trans [OF print_item_prints Cons.IH] by simp
qed auto

lemma kprint_frame:
  assumes "kprint p is s = Some s'"
  obtains es where "s' = s\<lparr>io := io s @ es\<rparr>" and "list_all uart_ev es"
    and "console es = concat (map item_text is)"
  using assms print_items_prints [of p "is" "io s"]
  by (auto simp: kprint_def prints_def)


section \<open>Hexadecimal output is faithful\<close>

definition hex_value :: "u8 \<Rightarrow> u64" where
  "hex_value c = (if c < 58 then ucast c - 48 else ucast c - 87)"

definition read_hex :: "u8 list \<Rightarrow> u64" where
  "read_hex = foldl (\<lambda>a c. a * 16 + hex_value c) 0"

lemma hex_value_digit:
  assumes "n < 16"
  shows "hex_value (hex_digit n) = n"
proof -
  have "unat n \<in> set [0..<16]" using assms by (simp add: word_less_nat_alt)
  also have "set [0..<16] = {0,1,2,3,4,5,6,7,8,9,10,11,12,13,14,15 :: nat}"
    by (simp add: upt_rec numeral_eq_Suc)
  finally have "unat n \<in> {0,1,2,3,4,5,6,7,8,9,10,11,12,13,14,15}" .
  then obtain k where "n = word_of_nat k" "k \<in> {0,1,2,3,4,5,6,7,8,9,10,11,12,13,14,15}"
    by (metis of_nat_unat ucast_id)
  then show ?thesis by (auto simp: hex_value_def hex_digit_def)
qed

lemma nibble_step:
  "(drop_bit (4 * n) v AND 0xf) * 16 ^ n + take_bit (4 * n) v = take_bit (4 * Suc n) (v :: u64)"
proof -
  let ?t = "take_bit (4 * Suc n) v"
  have "?t = push_bit (4 * n) (drop_bit (4 * n) ?t) + take_bit (4 * n) ?t"
    by (rule bits_ident [symmetric])
  also have "drop_bit (4 * n) ?t = drop_bit (4 * n) v AND 0xf"
    by (rule bit_word_eqI) (auto simp: and_mask_take_bit bit_simps)
  also have "take_bit (4 * n) ?t = take_bit (4 * n) v"
    by (simp add: take_bit_take_bit)
  also have "push_bit (4 * n) (drop_bit (4 * n) v AND 0xf) = (drop_bit (4 * n) v AND 0xf) * 16 ^ n"
    by (simp add: push_bit_eq_mult power_mult)
  finally show ?thesis by simp
qed

lemma read_hex_digits:
  "foldl (\<lambda>a c. a * 16 + hex_value c) a (map (\<lambda>k. hex_digit (drop_bit (4 * k) v AND 0xf)) (rev [0..<n]))
   = a * 16 ^ n + take_bit (4 * n) v"
proof (induction n arbitrary: a)
  case (Suc n)
  have "drop_bit (4 * n) v AND 0xf < 16"
    using and_mask_le [of "drop_bit (4 * n) v" "0xf"] by (auto simp: word_le_nat_alt word_less_nat_alt)
  then have "hex_value (hex_digit (drop_bit (4 * n) v AND 0xf)) = drop_bit (4 * n) v AND 0xf"
    by (rule hex_value_digit)
  then have "foldl (\<lambda>a c. a * 16 + hex_value c) a
       (map (\<lambda>k. hex_digit (drop_bit (4 * k) v AND 0xf)) (rev [0..<Suc n]))
     = (a * 16 + (drop_bit (4 * n) v AND 0xf)) * 16 ^ n + take_bit (4 * n) v"
    by (simp add: Suc.IH)
  also have "\<dots> = a * 16 ^ Suc n + ((drop_bit (4 * n) v AND 0xf) * 16 ^ n + take_bit (4 * n) v)"
    by (simp add: algebra_simps)
  finally show ?case by (simp only: nibble_step)
qed simp

lemma read_hex_text: "read_hex (drop 2 (hex_text v)) = v"
proof -
  have "take_bit (4 * 16) v = v" by (simp add: take_bit_word_eq_self)
  then show ?thesis
    by (simp only: read_hex_def hex_text_def read_hex_digits) (simp add: read_hex_digits)
qed


section \<open>The console interface: printing returns\<close>

definition txff :: "platform \<Rightarrow> event list \<Rightarrow> bool" where
  "txff p tr \<longleftrightarrow> dev_load p tr W32 UARTFR AND FR_TXFF \<noteq> 0"

text \<open>The trace after \<open>n\<close> more polls of the flag register.\<close>

primrec polls :: "platform \<Rightarrow> nat \<Rightarrow> event list \<Rightarrow> event list" where
  "polls p 0 tr = tr"
| "polls p (Suc n) tr = polls p n (tr @ [Load W32 UARTFR (dev_load p tr W32 UARTFR)])"

locale pl011_console =
  fixes p :: platform
  assumes drains: "\<exists>n. \<not> txff p (polls p n tr)"
begin

lemma uart_wait_within: "\<not> txff p (polls p n tr) \<Longrightarrow> \<exists>tr'. uart_wait p tr = Some tr'"
proof (induction n arbitrary: tr)
  case 0
  then show ?case
    by (subst uart_wait.simps) (simp add: txff_def load_io_def Let_def)
next
  case (Suc n)
  then show ?case
    by (subst uart_wait.simps) (simp add: load_io_def Let_def)
qed

lemma uart_wait_returns: "\<exists>tr'. uart_wait p tr = Some tr'"
  using drains uart_wait_within by blast

lemma uart_putc_returns: "\<exists>tr'. uart_putc p c tr = Some tr'"
  using uart_wait_returns [of tr] by (auto simp: uart_putc_def)

lemma uart_puts_returns: "\<exists>tr'. uart_puts p cs tr = Some tr'"
proof (induction cs arbitrary: tr)
  case (Cons c cs)
  obtain t1 where 1: "(if c = 10 then uart_putc p 13 tr else Some tr) = Some t1"
    using uart_putc_returns by (cases "c = 10") auto
  obtain t2 where "uart_putc p c t1 = Some t2" using uart_putc_returns by blast
  with 1 Cons.IH [of t2] show ?case by simp
qed simp

lemma put_hex_from_returns: "\<exists>tr'. put_hex_from p v n tr = Some tr'"
proof (induction n arbitrary: tr)
  case (Suc n)
  obtain t1 where "uart_putc p (hex_digit (drop_bit (4 * n) v AND 0xf)) tr = Some t1"
    using uart_putc_returns by blast
  with Suc.IH [of t1] show ?case by simp
qed simp

lemma uart_put_hex_returns: "\<exists>tr'. uart_put_hex p v tr = Some tr'"
proof -
  obtain t1 where "uart_puts p (map of_char ''0x'') tr = Some t1" using uart_puts_returns by blast
  with put_hex_from_returns [of v 16 t1] show ?thesis by (simp add: uart_put_hex_def)
qed

lemma print_item_returns: "\<exists>tr'. print_item p i tr = Some tr'"
  by (cases i) (simp_all add: uart_puts_returns uart_putc_returns uart_put_hex_returns)

lemma print_items_returns: "\<exists>tr'. print_items p is tr = Some tr'"
proof (induction "is" arbitrary: tr)
  case (Cons i "is")
  obtain t1 where "print_item p i tr = Some t1" using print_item_returns by blast
  with Cons.IH [of t1] show ?case by simp
qed simp

lemma kprint_returns:
  obtains es where "kprint p is s = Some (s\<lparr>io := io s @ es\<rparr>)" and "list_all uart_ev es"
    and "console es = concat (map item_text is)"
proof -
  obtain tr' where "print_items p is (io s) = Some tr'" using print_items_returns by blast
  then have "kprint p is s = Some (s\<lparr>io := tr'\<rparr>)" by (simp add: kprint_def)
  then show ?thesis using kprint_frame that by metis
qed

lemma kprint_neq_None: "kprint p is s \<noteq> None"
  by (metis kprint_returns option.distinct(1))

lemmas returns_simps = kprint_neq_None bind_eq_None_conv Let_def split_beta

text \<open>A string in memory is printed when a zero byte ends it.\<close>

lemma uart_puts_ptr_eq:
  assumes "\<And>i. i < length cs \<Longrightarrow> ram_byte p (a + of_nat i) = cs ! i"
    and "0 \<notin> set cs" and "ram_byte p (a + of_nat (length cs)) = 0"
  shows "uart_puts_ptr p a tr = uart_puts p cs tr"
  using assms
proof (induction cs arbitrary: a tr)
  case Nil
  then show ?case by (subst uart_puts_ptr.simps) simp
next
  case (Cons c cs)
  have c: "ram_byte p a = c" "c \<noteq> 0" using Cons.prems(1) [of 0] Cons.prems(2) by auto
  have "ram_byte p (a + 1 + of_nat i) = cs ! i" if "i < length cs" for i
    using Cons.prems(1) [of "Suc i"] that by (simp add: algebra_simps)
  moreover have "ram_byte p (a + 1 + of_nat (length cs)) = 0"
    using Cons.prems(3) by (simp add: algebra_simps)
  ultimately have "uart_puts_ptr p (a + 1) = uart_puts p cs"
    using Cons.prems(2) by (intro ext Cons.IH) auto
  with c show ?case by (subst uart_puts_ptr.simps) simp
qed

end


section \<open>Properties\<close>

interpretation board_console: pl011_console "board n irq" for n irq
  by unfold_locales (simp add: txff_def hyp_consts)

text \<open>
  Printing a number in hexadecimal only polls the flag register and writes the data
  register, sends eighteen characters, and reading the sixteen digits back gives the number.
\<close>

theorem uart_put_hex_roundtrip:
  assumes "uart_put_hex p v tr = Some tr'"
  shows "\<exists>es. tr' = tr @ es \<and> list_all uart_ev es \<and> length (console es) = 18
    \<and> take 2 (console es) = map of_char ''0x'' \<and> read_hex (drop 2 (console es)) = v"
proof -
  obtain es where "tr' = tr @ es" "list_all uart_ev es" "console es = hex_text v"
    using uart_put_hex_prints [OF assms] by (auto simp: prints_def)
  moreover have "length (hex_text v) = 18" "take 2 (hex_text v) = map of_char ''0x''"
    by (simp_all add: hex_text_def)
  ultimately show ?thesis using read_hex_text by auto
qed

theorem uart_put_hex_roundtrip_witness:
  "\<exists>tr' es. uart_put_hex (board 1 0) 0xBEEF [] = Some tr' \<and> tr' = es \<and> read_hex (drop 2 (console es)) = 0xBEEF"
proof -
  obtain tr' where r: "uart_put_hex (board 1 0) 0xBEEF [] = Some tr'"
    using board_console.uart_put_hex_returns by blast
  from uart_put_hex_roundtrip [OF r] show ?thesis using r by auto
qed

text \<open>
  On a UART whose transmit FIFO always drains after finitely many polls, printing a message
  returns; it leaves every variable of the hypervisor alone and sends exactly the text, with a
  carriage return before each newline.
\<close>

theorem kprint_total:
  assumes "pl011_console p"
  shows "\<exists>es. kprint p is s = Some (s\<lparr>io := io s @ es\<rparr>) \<and> list_all uart_ev es
    \<and> console es = concat (map item_text is)"
  using pl011_console.kprint_returns [OF assms] by metis

theorem kprint_total_witness:
  "\<exists>es. kprint (board 1 0) [Str ''n='', Hex 7, Str NL] (boot_state (board 1 0) (\<lambda>_. 0)) =
      Some ((boot_state (board 1 0) (\<lambda>_. 0))\<lparr>io := es\<rparr>)
    \<and> console es = map of_char ''n=0x0000000000000007'' @ [13, 10]"
  using kprint_total [of "board 1 0" "[Str ''n='', Hex 7, Str NL]" "boot_state (board 1 0) (\<lambda>_. 0)"]
    board_console.pl011_console_axioms [of 1 0]
  by (auto simp: hex_text_def hex_digit_def upt_rec)

end
