(* ===== verification/Vgic.thy ===== *)
theory Vgic
  imports Uart
begin

text \<open>
  The software GIC CPU interface of \<open>src/src/vgic.c\<close>: one \<open>vgic\<close> record per vCPU with a
  64-bit pending bitmap, a single active slot and the deferred physical acknowledge of a
  forwarded SPI; the virtual interrupt line is bit 7 of \<open>HCR_EL2\<close>. The array \<open>vgics\<close> is
  addressed through the vCPU number as in the code; the invariant keeps that number in
  range.

  The abstract CPU interface \<open>agic\<close> (a set of pending interrupts, an optional active one, an
  optional deferred acknowledge and a line) is what the emulation promises; each entry
  point refines the abstract operation of the same name. The locale \<open>cpu_interface\<close> is the
  contract a guest's interrupt loop relies on, interpreted on the emulator.
\<close>


section \<open>Registers of one vCPU's interface\<close>

definition NO_INTID :: u32 where [hyp_consts]: "NO_INTID = 0x3FF"

definition reassert_htimer_ppi :: "hyp \<Rightarrow> hyp" where
  "reassert_htimer_ppi s =
     store W32 (GICD_BASE_PA + GICD_ISENABLER) (push_bit (unat IRQ_HTIMER) 1) s"

definition reassert_pl011_rx :: "hyp \<Rightarrow> hyp" where
  "reassert_pl011_rx s =
     (let s = store W32 (0x09000000 + 0x38) 0x50 s;
          s = store W32 (GICD_BASE_PA + 0x104) (push_bit (unat (IRQ_PL011 - 32)) 1) s;
          s = store W8 (GICD_BASE_PA + 0x800 + ucast IRQ_PL011) 0x01 s
      in store W8 (GICD_BASE_PA + 0x400 + ucast IRQ_PL011) 0xA0 s)"

definition vgic_of :: "u32 \<Rightarrow> hyp \<Rightarrow> vgic" where
  "vgic_of vid s = vgics s ! unat vid"

definition upd_vgic :: "u32 \<Rightarrow> (vgic \<Rightarrow> vgic) \<Rightarrow> hyp \<Rightarrow> hyp" where
  "upd_vgic vid f s = s\<lparr>vgics := (vgics s)[unat vid := f (vgic_of vid s)]\<rparr>"

definition set_vi :: "bool \<Rightarrow> hyp \<Rightarrow> hyp" where
  "set_vi on s =
     (let hcr = mrs HCR_EL2 s;
          hcr = (if on then hcr OR push_bit 7 1 else hcr AND NOT (push_bit 7 1))
      in msr HCR_EL2 hcr s)"

text \<open>\<open>__builtin_ctzl\<close>: the number of trailing zero bits, for a nonzero argument.\<close>

fun ctz_from :: "nat \<Rightarrow> nat \<Rightarrow> u64 \<Rightarrow> nat" where
  "ctz_from i 0 w = i"
| "ctz_from i (Suc n) w = (if bit w i then i else ctz_from (Suc i) n w)"

definition ctzl :: "u64 \<Rightarrow> nat" where
  "ctzl w = ctz_from 0 64 w"

definition lowest_pending :: "u64 \<Rightarrow> u32" where
  "lowest_pending m = (if m = 0 then NO_INTID else of_nat (ctzl m))"


section \<open>Entry points\<close>

definition vgic_init :: "u32 \<Rightarrow> hyp \<Rightarrow> hyp" where
  "vgic_init vid s = upd_vgic vid (\<lambda>v. v\<lparr>pending_mask := 0, g_ctlr := 0, g_pmr := 0, g_bpr := 0,
     g_active := NO_INTID, phys_iar := 0, has_phys_iar := 0\<rparr>) s"

definition vgic_inject :: "u32 \<Rightarrow> u32 \<Rightarrow> hyp \<Rightarrow> hyp" where
  "vgic_inject vid intid s =
     (if intid \<ge> 64 then s
      else set_vi True
        (upd_vgic vid (\<lambda>v. v\<lparr>pending_mask := pending_mask v OR push_bit (unat intid) 1\<rparr>) s))"

definition vgic_forward_spi :: "u32 \<Rightarrow> u32 \<Rightarrow> u32 \<Rightarrow> hyp \<Rightarrow> hyp" where
  "vgic_forward_spi vid intid iar s =
     vgic_inject vid intid (upd_vgic vid (\<lambda>v. v\<lparr>phys_iar := iar, has_phys_iar := 1\<rparr>) s)"

definition vgic_has_pending_phys_iar :: "u32 \<Rightarrow> hyp \<Rightarrow> bool" where
  "vgic_has_pending_phys_iar vid s \<longleftrightarrow> has_phys_iar (vgic_of vid s) \<noteq> 0"

definition vgic_ack_all :: "u32 \<Rightarrow> hyp \<Rightarrow> hyp" where
  "vgic_ack_all vid s =
     (let s = upd_vgic vid (\<lambda>v. v\<lparr>pending_mask := 0, g_active := NO_INTID\<rparr>) s;
          s = (if has_phys_iar (vgic_of vid s) \<noteq> 0
               then upd_vgic vid (\<lambda>v. v\<lparr>has_phys_iar := 0\<rparr>)
                      (store W32 (GICC_BASE_PA + 0x10) (phys_iar (vgic_of vid s)) s)
               else s)
      in set_vi False s)"


section \<open>MMIO emulation\<close>

definition read_iar :: "u32 \<Rightarrow> hyp \<Rightarrow> u32 \<times> hyp" where
  "read_iar vid s =
     (let intid = lowest_pending (pending_mask (vgic_of vid s)) in
      if intid = NO_INTID then (1023, s)
      else
        let s = upd_vgic vid (\<lambda>v. v\<lparr>pending_mask := pending_mask v AND NOT (push_bit (unat intid) 1),
                                     g_active := intid\<rparr>) s;
            s = set_vi (pending_mask (vgic_of vid s) \<noteq> 0) s
        in (intid, s))"

definition read_reg :: "u32 \<Rightarrow> u32 \<Rightarrow> hyp \<Rightarrow> u32 \<times> hyp" where
  "read_reg vid off s =
     (if off = 0x00 then (g_ctlr (vgic_of vid s), s)
      else if off = 0x04 then (g_pmr (vgic_of vid s), s)
      else if off = 0x08 then (g_bpr (vgic_of vid s), s)
      else if off = 0x0C then read_iar vid s
      else if off = 0x14 then (0, s)
      else if off = 0x18 then
        (let intid = lowest_pending (pending_mask (vgic_of vid s))
         in (if intid = NO_INTID then 1023 else intid, s))
      else if off = 0xFC then (0x0200143B, s)
      else (0, s))"

definition write_eoir :: "u32 \<Rightarrow> u32 \<Rightarrow> hyp \<Rightarrow> hyp" where
  "write_eoir vid val s =
     (let intid = val AND 0x3FF;
          s = (if intid = g_active (vgic_of vid s)
               then upd_vgic vid (\<lambda>v. v\<lparr>g_active := NO_INTID\<rparr>) s else s)
      in if has_phys_iar (vgic_of vid s) \<noteq> 0 \<and> phys_iar (vgic_of vid s) AND 0x3FF = intid
         then upd_vgic vid (\<lambda>v. v\<lparr>has_phys_iar := 0\<rparr>)
                (store W32 (GICC_BASE_PA + 0x10) (phys_iar (vgic_of vid s)) s)
         else s)"

definition write_reg :: "u32 \<Rightarrow> u32 \<Rightarrow> u32 \<Rightarrow> hyp \<Rightarrow> hyp" where
  "write_reg vid off val s =
     (if off = 0x00 then upd_vgic vid (\<lambda>v. v\<lparr>g_ctlr := val AND 0x1F\<rparr>) s
      else if off = 0x04 then upd_vgic vid (\<lambda>v. v\<lparr>g_pmr := val AND 0xFF\<rparr>) s
      else if off = 0x08 then upd_vgic vid (\<lambda>v. v\<lparr>g_bpr := val AND 0x07\<rparr>) s
      else if off = 0x10 then write_eoir vid val s
      else s)"

text \<open>The distributor half of \<open>vgic_mmio\<close>: the access goes to the real distributor.\<close>

definition gicd_access :: "platform \<Rightarrow> bool \<Rightarrow> u32 \<Rightarrow> u64 \<Rightarrow> u32 \<Rightarrow> hyp \<Rightarrow> u32 \<times> hyp" where
  "gicd_access p wnr sas addr val s =
     (let w = (if sas = 0 then W8 else if sas = 1 then W16 else W32)
      in if wnr then (val, store w addr val s) else load p w addr s)"

definition vgic_mmio ::
  "platform \<Rightarrow> trap_frame \<Rightarrow> u64 \<Rightarrow> u64 \<Rightarrow> hyp \<Rightarrow> (bool \<times> trap_frame \<times> hyp) option" where
  "vgic_mmio p tf ipa iss s =
     (if drop_bit 24 iss AND 1 = 0
      then do {
        s \<leftarrow> kprint p [Str ''  [vgic] abort w/o ISV at IPA='', Hex ipa, Str NL] s;
        Some (False, tf, s) }
      else
        let sas = ucast (drop_bit 22 iss AND 3) :: u32;
            srt = ucast (drop_bit 16 iss AND 0x1F) :: u32;
            wnr = (drop_bit 6 iss AND 1 \<noteq> 0);
            vid = v_id (current_vcpu s);
            val = (if wnr then (if srt = 31 then 0 else ucast (tf_x tf ! unat srt)) else 0) :: u32;
            (val, s) =
              (if ipa \<ge> GICD_EMU_BASE \<and> ipa < GICD_EMU_LIMIT
               then gicd_access p wnr sas (GICD_BASE_PA + (ipa - GICD_EMU_BASE)) val s
               else
                 let off = ucast (ipa - GICC_EMU_BASE) :: u32
                 in if wnr then (val, write_reg vid off val s) else read_reg vid off s);
            tf = (if \<not> wnr \<and> srt \<noteq> 31 then tf\<lparr>tf_x := (tf_x tf)[unat srt := ucast val]\<rparr> else tf);
            s = reassert_htimer_ppi s;
            s = reassert_pl011_rx s
        in Some (True, tf, s))"


section \<open>Counting trailing zeros\<close>

lemma ctz_from_below: "i \<le> j \<Longrightarrow> j < ctz_from i n w \<Longrightarrow> \<not> bit w j"
proof (induction i n w rule: ctz_from.induct)
  case (2 i n w)
  then show ?case by (cases "j = i") (auto simp: not_less_eq_eq split: if_splits)
qed auto

lemma ctz_from_bit: "ctz_from i n w < i + n \<Longrightarrow> bit w (ctz_from i n w)"
  by (induction i n w rule: ctz_from.induct) (auto split: if_splits)

lemma ctzl_least:
  assumes "w \<noteq> 0"
  shows "bit w (ctzl w)" and "ctzl w < 64" and "\<And>j. bit w j \<Longrightarrow> ctzl w \<le> j"
proof -
  from assms obtain k where k: "bit w k" "k < 64" by (auto simp: word_neq_0_bit)
  have below: "ctzl w \<le> j" if "bit w j" for j
    using ctz_from_below [of 0 j 64 w] that by (force simp: ctzl_def)
  from below [OF k(1)] k(2) show lt: "ctzl w < 64" by simp
  then show "bit w (ctzl w)" using ctz_from_bit [of 0 64 w] by (simp add: ctzl_def)
  show "\<And>j. bit w j \<Longrightarrow> ctzl w \<le> j" by (rule below)
qed

lemma unat_lowest_pending:
  "m \<noteq> 0 \<Longrightarrow> unat (lowest_pending m) = ctzl m"
  using ctzl_least(2) [of m]
  by (simp add: lowest_pending_def unat_of_nat take_bit_nat_eq_self)

lemma lowest_pending_eq_NO_INTID [simp]: "lowest_pending m = NO_INTID \<longleftrightarrow> m = 0"
proof (cases "m = 0")
  case False
  have "unat (lowest_pending m) \<noteq> unat NO_INTID"
    using unat_lowest_pending [OF False] ctzl_least(2) [OF False] by (simp add: NO_INTID_def)
  with False show ?thesis by auto
qed (simp add: lowest_pending_def)

lemma lowest_pending_Min:
  assumes "m \<noteq> 0"
  shows "unat (lowest_pending m) = Min {i. bit m i}"
proof -
  have "finite {i. bit m i}"
    by (rule finite_subset [of _ "{..<64}"]) (auto dest: bit_imp_le_length)
  then have "Min {i. bit m i} = ctzl m"
    using ctzl_least [OF assms] by (intro Min_eqI) auto
  then show ?thesis by (simp add: unat_lowest_pending [OF assms])
qed


section \<open>Frames\<close>

lemma vgic_of_upd_vgic [simp]:
  "unat vid < length (vgics s) \<Longrightarrow> vgic_of vid (upd_vgic vid f s) = f (vgic_of vid s)"
  by (simp add: vgic_of_def upd_vgic_def)

lemma vgics_upd_vgic_other:
  "i \<noteq> unat vid \<Longrightarrow> vgics (upd_vgic vid f s) ! i = vgics s ! i"
  by (simp add: upd_vgic_def)

lemma upd_vgic_fields [simp]:
  "length (vgics (upd_vgic vid f s)) = length (vgics s)"
  "sys (upd_vgic vid f s) = sys s" "io (upd_vgic vid f s) = io s"
  "vcpus (upd_vgic vid f s) = vcpus s" "current (upd_vgic vid f s) = current s"
  by (simp_all add: upd_vgic_def)

lemma store_fields [simp]:
  "vgics (store w a v s) = vgics s" "sys (store w a v s) = sys s"
  "vcpus (store w a v s) = vcpus s" "current (store w a v s) = current s"
  "io (store w a v s) = io s @ [Store w a (clip w v)]"
  by (simp_all add: store_def)

lemma set_vi_fields [simp]:
  "vgics (set_vi on s) = vgics s" "vcpus (set_vi on s) = vcpus s" "current (set_vi on s) = current s"
  "r \<noteq> HCR_EL2 \<Longrightarrow> sys (set_vi on s) r = sys s r"
  by (simp_all add: set_vi_def msr_def Let_def)

lemma vgic_of_io [simp]:
  "vgic_of vid (store w a v s) = vgic_of vid s" "vgic_of vid (set_vi on s) = vgic_of vid s"
  "vgic_of vid (s\<lparr>io := t\<rparr>) = vgic_of vid s"
  by (simp_all add: vgic_of_def)

text \<open>The virtual interrupt line.\<close>

definition vi_of :: "u64 \<Rightarrow> bool" where
  "vi_of hcr \<longleftrightarrow> bit hcr 7"

lemma vi_set_vi [simp]: "vi_of (sys (set_vi on s) HCR_EL2) \<longleftrightarrow> on"
  by (cases on) (simp_all add: vi_of_def set_vi_def msr_def mrs_def Let_def bit_simps)

lemma set_vi_other_bits:
  "n \<noteq> 7 \<Longrightarrow> bit (sys (set_vi on s) HCR_EL2) n \<longleftrightarrow> bit (sys s HCR_EL2) n"
proof -
  assume n: "n \<noteq> 7"
  have "bit (128 :: u64) n \<longleftrightarrow> n = 7"
    using bit_push_bit_iff [of 7 "1 :: u64" n] by (auto simp: bit_1_iff)
  with n show ?thesis
    by (auto simp: set_vi_def msr_def mrs_def Let_def bit_simps dest: bit_imp_le_length)
qed


section \<open>Abstract CPU interface\<close>

record agic =
  a_pending :: "nat set"
  a_active :: "nat option"
  a_deferred :: "u32 option"
  a_line :: bool

definition a_inject :: "nat \<Rightarrow> agic \<Rightarrow> agic" where
  "a_inject i a = (if i < 64 then a\<lparr>a_pending := insert i (a_pending a), a_line := True\<rparr> else a)"

definition a_forward :: "nat \<Rightarrow> u32 \<Rightarrow> agic \<Rightarrow> agic" where
  "a_forward i iar a = a_inject i (a\<lparr>a_deferred := Some iar\<rparr>)"

definition a_ack :: "agic \<Rightarrow> nat \<times> agic" where
  "a_ack a = (if a_pending a = {} then (1023, a)
     else let i = Min (a_pending a); rest = a_pending a - {i}
          in (i, a\<lparr>a_pending := rest, a_active := Some i, a_line := (rest \<noteq> {})\<rparr>))"

text \<open>End of interrupt: the new interface state and the physical acknowledges completed.\<close>

definition a_eoi :: "nat \<Rightarrow> agic \<Rightarrow> agic \<times> u32 list" where
  "a_eoi i a =
     (let a' = (if a_active a = Some i then a\<lparr>a_active := None\<rparr> else a)
      in case a_deferred a of
           Some iar \<Rightarrow> (if unat (iar AND 0x3FF) = i then (a'\<lparr>a_deferred := None\<rparr>, [iar]) else (a', []))
         | None \<Rightarrow> (a', []))"

definition a_ack_all :: "agic \<Rightarrow> agic \<times> u32 list" where
  "a_ack_all a = (a\<lparr>a_pending := {}, a_active := None, a_deferred := None, a_line := False\<rparr>,
     case a_deferred a of Some iar \<Rightarrow> [iar] | None \<Rightarrow> [])"

definition pending_set :: "u32 \<Rightarrow> hyp \<Rightarrow> nat set" where
  "pending_set vid s = {i. bit (pending_mask (vgic_of vid s)) i}"

definition abs_vgic :: "u32 \<Rightarrow> hyp \<Rightarrow> agic" where
  "abs_vgic vid s =
     \<lparr>a_pending = pending_set vid s,
      a_active = (if g_active (vgic_of vid s) = NO_INTID then None
                  else Some (unat (g_active (vgic_of vid s)))),
      a_deferred = (if has_phys_iar (vgic_of vid s) \<noteq> 0 then Some (phys_iar (vgic_of vid s)) else None),
      a_line = vi_of (sys s HCR_EL2)\<rparr>"

text \<open>The values written to the physical \<open>GICC_EOIR\<close>, in order.\<close>

fun phys_eois :: "event list \<Rightarrow> u32 list" where
  "phys_eois [] = []"
| "phys_eois (Store w a v # es) = (if a = GICC_BASE_PA + 0x10 then [v] else []) @ phys_eois es"
| "phys_eois (e # es) = phys_eois es"

lemma phys_eois_append [simp]: "phys_eois (xs @ ys) = phys_eois xs @ phys_eois ys"
  by (induction xs rule: phys_eois.induct) auto

text \<open>
  The invariant of one interface: its number is in range, the line is high exactly when
  something is pending, and the active slot holds a representable interrupt or nothing.
\<close>

definition vgic_wf :: "vgic \<Rightarrow> bool" where
  "vgic_wf v \<longleftrightarrow> (g_active v = NO_INTID \<or> g_active v < 64) \<and>
     g_ctlr v \<le> 0x1F \<and> g_pmr v \<le> 0xFF \<and> g_bpr v \<le> 0x07"

definition vgic_inv :: "u32 \<Rightarrow> hyp \<Rightarrow> bool" where
  "vgic_inv vid s \<longleftrightarrow> unat vid < length (vgics s) \<and> vgic_wf (vgic_of vid s) \<and>
     (vi_of (sys s HCR_EL2) \<longleftrightarrow> pending_mask (vgic_of vid s) \<noteq> 0)"

lemma finite_bits [simp]: "finite {i. bit (m :: u64) i}"
  by (rule finite_subset [of _ "{..<64}"]) (auto dest: bit_imp_le_length)

lemma finite_pending_set [simp]: "finite (pending_set vid s)"
  by (simp add: pending_set_def)

lemma no_bit_iff [simp]: "(\<forall>i. \<not> bit (m :: u64) i) \<longleftrightarrow> m = 0"
  using word_neq_0_bit [of m] by auto

lemma pending_set_empty_iff: "pending_set vid s = {} \<longleftrightarrow> pending_mask (vgic_of vid s) = 0"
  by (simp add: pending_set_def)

lemma bits_set: "i < 64 \<Longrightarrow> {j. bit ((m :: u64) OR 2 ^ i) j} = insert i {j. bit m j}"
  by (auto simp: bit_simps)

lemma bits_clear: "{j. bit ((m :: u64) AND NOT (2 ^ i)) j} = {j. bit m j} - {i}"
  by (auto simp: bit_simps dest: bit_imp_le_length)


section \<open>Refinement\<close>

lemma word64_lt_iff: "(i :: u32) < 64 \<longleftrightarrow> unat i < 64"
  by (simp add: word_less_nat_alt)

lemma vgic_inject_abs:
  "unat vid < length (vgics s) \<Longrightarrow>
   abs_vgic vid (vgic_inject vid i s) = a_inject (unat i) (abs_vgic vid s)"
  by (auto simp: vgic_inject_def a_inject_def abs_vgic_def pending_set_def bits_set
      word64_lt_iff word_le_nat_alt)

lemma vgic_forward_spi_abs:
  "unat vid < length (vgics s) \<Longrightarrow>
   abs_vgic vid (vgic_forward_spi vid i iar s) = a_forward (unat i) iar (abs_vgic vid s)"
  by (simp add: vgic_forward_spi_def a_forward_def vgic_inject_abs)
     (simp add: abs_vgic_def pending_set_def)

lemma read_iar_abs:
  assumes "unat vid < length (vgics s)"
  shows "map_prod unat (abs_vgic vid) (read_iar vid s) = a_ack (abs_vgic vid s)"
proof (cases "pending_mask (vgic_of vid s) = 0")
  case True
  then show ?thesis
    by (simp add: read_iar_def a_ack_def abs_vgic_def pending_set_empty_iff)
next
  case False
  let ?m = "pending_mask (vgic_of vid s)" and ?i = "unat (lowest_pending (pending_mask (vgic_of vid s)))"
  have i: "?i = Min {j. bit ?m j}" using False by (rule lowest_pending_Min)
  have "{j. bit (?m AND NOT (2 ^ ?i)) j} = {j. bit ?m j} - {?i}" by (rule bits_clear)
  moreover have "?m AND NOT (2 ^ ?i) \<noteq> 0 \<longleftrightarrow> {j. bit ?m j} - {?i} \<noteq> {}"
    by (simp flip: bits_clear)
  ultimately show ?thesis using assms False
    by (simp add: read_iar_def a_ack_def abs_vgic_def pending_set_def Let_def flip: i)
qed

lemma vgic_ack_all_abs:
  assumes "unat vid < length (vgics s)"
  shows "abs_vgic vid (vgic_ack_all vid s) = fst (a_ack_all (abs_vgic vid s))"
    and "phys_eois (io (vgic_ack_all vid s)) = phys_eois (io s) @ snd (a_ack_all (abs_vgic vid s))"
  using assms
  by (simp_all add: vgic_ack_all_def a_ack_all_def abs_vgic_def pending_set_def Let_def
      set_vi_def msr_def mrs_def vi_of_def bit_simps vgic_of_def upd_vgic_def store_def)

lemma write_eoir_abs:
  assumes "unat vid < length (vgics s)"
  shows "abs_vgic vid (write_eoir vid val s) = fst (a_eoi (unat (val AND 0x3FF)) (abs_vgic vid s))"
    and "phys_eois (io (write_eoir vid val s)) =
           phys_eois (io s) @ snd (a_eoi (unat (val AND 0x3FF)) (abs_vgic vid s))"
  using assms
  by (auto simp: write_eoir_def a_eoi_def abs_vgic_def pending_set_def Let_def word_unat_eq_iff
      split: if_splits)

lemma vgic_init_abs:
  assumes "unat vid < length (vgics s)"
  shows "abs_vgic vid (vgic_init vid s) =
    \<lparr>a_pending = {}, a_active = None, a_deferred = None, a_line = vi_of (sys s HCR_EL2)\<rparr>"
  using assms by (simp add: vgic_init_def abs_vgic_def pending_set_def)


section \<open>The invariant is kept\<close>

lemma lowest_pending_lt: "m \<noteq> 0 \<Longrightarrow> lowest_pending m < 64"
  by (simp add: word64_lt_iff unat_lowest_pending ctzl_least(2))

lemma or_push_bit_nonzero: "i < 64 \<Longrightarrow> (m :: u64) OR 2 ^ i \<noteq> 0"
  using bits_set [of i m] by (metis emptyE insertI1 no_bit_iff mem_Collect_eq)

lemma vgic_inject_inv [wf_intros]: "vgic_inv vid s \<Longrightarrow> vgic_inv vid (vgic_inject vid i s)"
  by (auto simp: vgic_inv_def vgic_inject_def vgic_wf_def or_push_bit_nonzero word64_lt_iff
      word_le_nat_alt)

lemma vgic_forward_spi_inv [wf_intros]:
  "vgic_inv vid s \<Longrightarrow> vgic_inv vid (vgic_forward_spi vid i iar s)"
  unfolding vgic_forward_spi_def
  by (rule vgic_inject_inv) (simp add: vgic_inv_def vgic_wf_def)

lemma read_iar_inv [wf_intros]: "vgic_inv vid s \<Longrightarrow> vgic_inv vid (snd (read_iar vid s))"
  by (auto simp: vgic_inv_def read_iar_def Let_def vgic_wf_def lowest_pending_lt)

lemma vgic_ack_all_inv [wf_intros]: "vgic_inv vid s \<Longrightarrow> vgic_inv vid (vgic_ack_all vid s)"
  by (simp add: vgic_inv_def vgic_ack_all_def Let_def vgic_wf_def)

lemma write_eoir_inv [wf_intros]: "vgic_inv vid s \<Longrightarrow> vgic_inv vid (write_eoir vid val s)"
  by (auto simp: vgic_inv_def write_eoir_def Let_def vgic_wf_def)

lemma read_reg_inv [wf_intros]: "vgic_inv vid s \<Longrightarrow> vgic_inv vid (snd (read_reg vid off s))"
  by (simp add: read_reg_def read_iar_inv Let_def)

lemma write_reg_inv [wf_intros]: "vgic_inv vid s \<Longrightarrow> vgic_inv vid (write_reg vid off val s)"
  by (auto simp: write_reg_def write_eoir_inv) (simp_all add: vgic_inv_def vgic_wf_def word_and_le1)


section \<open>The contract of a CPU interface\<close>

text \<open>Acknowledging repeatedly, as a guest's interrupt loop does.\<close>

primrec drain :: "('s \<Rightarrow> nat \<times> 's) \<Rightarrow> nat \<Rightarrow> 's \<Rightarrow> nat list \<times> 's" where
  "drain ack 0 s = ([], s)"
| "drain ack (Suc n) s = (let (i, s') = ack s; (is, s'') = drain ack n s' in (i # is, s''))"

locale cpu_interface =
  fixes inv :: "'s \<Rightarrow> bool"
    and pending :: "'s \<Rightarrow> nat set"
    and line :: "'s \<Rightarrow> bool"
    and inject :: "nat \<Rightarrow> 's \<Rightarrow> 's"
    and ack :: "'s \<Rightarrow> nat \<times> 's"
  assumes pending_finite: "inv s \<Longrightarrow> finite (pending s)"
    and line_iff: "inv s \<Longrightarrow> line s \<longleftrightarrow> pending s \<noteq> {}"
    and inject_inv: "inv s \<Longrightarrow> inv (inject i s)"
    and inject_pending: "inv s \<Longrightarrow> i < 64 \<Longrightarrow> pending (inject i s) = insert i (pending s)"
    and ack_inv: "inv s \<Longrightarrow> inv (snd (ack s))"
    and ack_spurious: "inv s \<Longrightarrow> pending s = {} \<Longrightarrow> ack s = (1023, s)"
    and ack_lowest: "inv s \<Longrightarrow> pending s \<noteq> {} \<Longrightarrow> fst (ack s) = Min (pending s)"
    and ack_pending: "inv s \<Longrightarrow> pending s \<noteq> {} \<Longrightarrow> pending (snd (ack s)) = pending s - {Min (pending s)}"
begin

lemma drain_all:
  assumes "inv s"
  shows "fst (drain ack (card (pending s)) s) = sorted_list_of_set (pending s)
    \<and> pending (snd (drain ack (card (pending s)) s)) = {}
    \<and> inv (snd (drain ack (card (pending s)) s))"
  using assms
proof (induction "card (pending s)" arbitrary: s)
  case 0
  then have "pending s = {}" using pending_finite by auto
  with 0 show ?case by simp
next
  case (Suc n)
  let ?s' = "snd (ack s)" and ?m = "Min (pending s)"
  have ne: "pending s \<noteq> {}" using Suc.hyps(2) by auto
  have fin: "finite (pending s)" by (rule pending_finite [OF Suc.prems])
  have p': "pending ?s' = pending s - {?m}" by (rule ack_pending [OF Suc.prems ne])
  have n: "n = card (pending ?s')"
    using Suc.hyps(2) fin ne by (simp add: p' card_Diff_singleton)
  have "fst (drain ack n ?s') = sorted_list_of_set (pending ?s') \<and> pending (snd (drain ack n ?s')) = {}
      \<and> inv (snd (drain ack n ?s'))"
    unfolding n by (rule Suc.hyps(1) [OF n ack_inv [OF Suc.prems]])
  moreover have "sorted_list_of_set (pending s) = ?m # sorted_list_of_set (pending s - {?m})"
    by (rule sorted_list_of_set_nonempty [OF fin ne])
  ultimately show ?case
    by (simp flip: Suc.hyps(2) add: ack_lowest [OF Suc.prems ne] p' split_beta)
qed

lemma drain_lowers_line:
  assumes "inv s"
  shows "\<not> line (snd (drain ack (card (pending s)) s))"
  using drain_all [OF assms] line_iff by blast

lemma injected_is_delivered:
  assumes "inv s" and "i < 64"
  shows "line (inject i s)"
    and "i \<in> set (fst (drain ack (card (pending (inject i s))) (inject i s)))"
proof -
  have inv': "inv (inject i s)" using assms(1) by (rule inject_inv)
  have "i \<in> pending (inject i s)" by (simp add: inject_pending [OF assms])
  with drain_all [OF inv'] line_iff [OF inv'] pending_finite [OF inv']
  show "line (inject i s)" and "i \<in> set (fst (drain ack (card (pending (inject i s))) (inject i s)))"
    by auto
qed

end

definition vgic_ack :: "u32 \<Rightarrow> hyp \<Rightarrow> nat \<times> hyp" where
  "vgic_ack vid s = map_prod unat (\<lambda>s. s) (read_reg vid 0x0C s)"

lemma vgic_ack_iar: "vgic_ack vid s = (unat (fst (read_iar vid s)), snd (read_iar vid s))"
  by (simp add: vgic_ack_def read_reg_def map_prod_def split_beta)

lemma vgic_ack_abs:
  assumes "vgic_inv vid s"
  shows "fst (vgic_ack vid s) = fst (a_ack (abs_vgic vid s))"
    and "abs_vgic vid (snd (vgic_ack vid s)) = snd (a_ack (abs_vgic vid s))"
  using read_iar_abs [of vid s] assms
  by (auto simp: vgic_inv_def vgic_ack_iar map_prod_def split_beta prod_eq_iff)

lemma a_pending_abs [simp]: "a_pending (abs_vgic vid s) = pending_set vid s"
  by (simp add: abs_vgic_def)

interpretation guest_gicc: cpu_interface
  "vgic_inv vid" "pending_set vid" "\<lambda>s. vi_of (sys s HCR_EL2)"
  "\<lambda>i. vgic_inject vid (of_nat i)" "vgic_ack vid" for vid
proof unfold_locales
  fix s i
  assume inv: "vgic_inv vid s"
  show "vi_of (sys s HCR_EL2) \<longleftrightarrow> pending_set vid s \<noteq> {}"
    using inv by (simp add: vgic_inv_def pending_set_empty_iff)
  show "vgic_inv vid (snd (vgic_ack vid s))"
    using inv by (simp add: vgic_ack_iar read_iar_inv)
  show "vgic_inv vid (vgic_inject vid (of_nat i) s)"
    using inv by (rule vgic_inject_inv)
  show "pending_set vid (vgic_inject vid (of_nat i) s) = insert i (pending_set vid s)" if "i < 64"
  proof -
    have "unat (of_nat i :: u32) = i" using that by (simp add: unat_of_nat take_bit_nat_eq_self)
    then show ?thesis
      using inv that arg_cong [OF vgic_inject_abs [of vid s "of_nat i"], of a_pending]
      by (simp add: vgic_inv_def a_inject_def)
  qed
  show "vgic_ack vid s = (1023, s)" if "pending_set vid s = {}"
    using that by (simp add: vgic_ack_iar read_iar_def pending_set_empty_iff)
  show "fst (vgic_ack vid s) = Min (pending_set vid s)" if "pending_set vid s \<noteq> {}"
    using that vgic_ack_abs(1) [OF inv] by (simp add: a_ack_def Let_def)
  show "pending_set vid (snd (vgic_ack vid s)) = pending_set vid s - {Min (pending_set vid s)}"
    if "pending_set vid s \<noteq> {}"
    using that arg_cong [OF vgic_ack_abs(2) [OF inv], of a_pending] by (simp add: a_ack_def Let_def)
qed (simp_all add: vgic_inv_def)

section \<open>Properties\<close>

text \<open>
  C8. The software CPU interface implements its abstract contract, a set of pending interrupts
  with an active slot, a deferred physical acknowledge and an interrupt line: injection,
  forwarding, acknowledge, end of interrupt and acknowledge-all act on the abstract state as
  specified, and complete exactly the specified interrupts on the physical interface.
\<close>

theorem vgic_refines_interface:
  assumes "unat vid < length (vgics s)"
  shows "abs_vgic vid (vgic_inject vid i s) = a_inject (unat i) (abs_vgic vid s)
    \<and> abs_vgic vid (vgic_forward_spi vid i iar s) = a_forward (unat i) iar (abs_vgic vid s)
    \<and> map_prod unat (abs_vgic vid) (read_reg vid 0x0C s) = a_ack (abs_vgic vid s)
    \<and> (abs_vgic vid (write_reg vid 0x10 val s), phys_eois (io (write_reg vid 0x10 val s)))
        = apsnd (\<lambda>es. phys_eois (io s) @ es) (a_eoi (unat (val AND 0x3FF)) (abs_vgic vid s))
    \<and> (abs_vgic vid (vgic_ack_all vid s), phys_eois (io (vgic_ack_all vid s)))
        = apsnd (\<lambda>es. phys_eois (io s) @ es) (a_ack_all (abs_vgic vid s))"
proof (intro conjI)
  show "abs_vgic vid (vgic_inject vid i s) = a_inject (unat i) (abs_vgic vid s)"
    using assms by (rule vgic_inject_abs)
  show "abs_vgic vid (vgic_forward_spi vid i iar s) = a_forward (unat i) iar (abs_vgic vid s)"
    using assms by (rule vgic_forward_spi_abs)
  show "map_prod unat (abs_vgic vid) (read_reg vid 0x0C s) = a_ack (abs_vgic vid s)"
    using read_iar_abs [OF assms] by (simp add: read_reg_def)
  show "(abs_vgic vid (write_reg vid 0x10 val s), phys_eois (io (write_reg vid 0x10 val s)))
        = apsnd (\<lambda>es. phys_eois (io s) @ es) (a_eoi (unat (val AND 0x3FF)) (abs_vgic vid s))"
    using write_eoir_abs [OF assms] by (simp add: write_reg_def prod_eq_iff)
  show "(abs_vgic vid (vgic_ack_all vid s), phys_eois (io (vgic_ack_all vid s)))
        = apsnd (\<lambda>es. phys_eois (io s) @ es) (a_ack_all (abs_vgic vid s))"
    using vgic_ack_all_abs [OF assms] by (simp add: prod_eq_iff)
qed

theorem vgic_refines_interface_witness:
  "abs_vgic 0 (vgic_inject 0 27 (boot_state (board 1 0) (\<lambda>_. 0))) =
     a_inject 27 (abs_vgic 0 (boot_state (board 1 0) (\<lambda>_. 0)))"
  using vgic_refines_interface [of 0 "boot_state (board 1 0) (\<lambda>_. 0)" 27] by simp

text \<open>
  C18. A guest that acknowledges as many times as interrupts are pending receives every one of
  them, lowest number first, after which nothing is pending and the virtual interrupt line is low.
\<close>

theorem pending_delivered_in_order:
  assumes "vgic_inv vid s"
  shows "let (is, s') = drain (vgic_ack vid) (card (pending_set vid s)) s
    in is = sorted_list_of_set (pending_set vid s) \<and> pending_set vid s' = {} \<and> \<not> vi_of (sys s' HCR_EL2)"
  using guest_gicc.drain_all [OF assms] guest_gicc.drain_lowers_line [OF assms]
  by (simp add: split_beta)

definition two_pending :: hyp where
  "two_pending = vgic_inject 0 27 (vgic_inject 0 33 (boot_state (board 1 0) (\<lambda>_. 0)))"

lemma boot_vgic_inv: "vgic_inv 0 (boot_state (board 1 0) (\<lambda>_. 0))"
  by (simp add: vgic_inv_def vgic_of_def zero_vgic_def vgic_wf_def vi_of_def)

lemma two_pending_inv: "vgic_inv 0 two_pending"
  unfolding two_pending_def by (intro vgic_inject_inv boot_vgic_inv)

lemma two_pending_set: "pending_set 0 two_pending = {27, 33}"
proof -
  have "a_pending (abs_vgic 0 two_pending) = {27, 33}"
    unfolding two_pending_def
    by (subst vgic_inject_abs, simp add: vgic_inject_def, subst vgic_inject_abs)
       (simp_all add: a_inject_def abs_vgic_def pending_set_def vgic_of_def zero_vgic_def)
  then show ?thesis by simp
qed

theorem pending_delivered_in_order_witness:
  "fst (drain (vgic_ack 0) 2 two_pending) = [27, 33]"
  using pending_delivered_in_order [OF two_pending_inv]
  by (simp add: two_pending_set split_beta sorted_list_of_set_insert_remove numeral_2_eq_2)

text \<open>
  An injected interrupt is not lost: injection raises the line, and the interrupt is among
  those the guest receives when it drains the interface.
\<close>

theorem injected_interrupt_delivered:
  assumes "vgic_inv vid s" and "i < 64"
  shows "let s' = vgic_inject vid (of_nat i) s in vi_of (sys s' HCR_EL2)
    \<and> i \<in> set (fst (drain (vgic_ack vid) (card (pending_set vid s')) s'))"
  using guest_gicc.injected_is_delivered [OF assms] by simp

theorem injected_interrupt_delivered_witness:
  "vi_of (sys (vgic_inject 0 27 (boot_state (board 1 0) (\<lambda>_. 0))) HCR_EL2)"
  using injected_interrupt_delivered [OF boot_vgic_inv, of 27] by (simp add: Let_def)

text \<open>
  C20. Every operation on a CPU interface, including guest accesses at arbitrary offsets with
  arbitrary values, keeps its invariant: the line is high exactly when an interrupt is pending,
  the active slot holds an interrupt below 64 or nothing, and the control registers hold
  implemented bits only.
\<close>

theorem vgic_invariant_kept:
  assumes "vgic_inv vid s"
  shows "vgic_inv vid (vgic_inject vid i s) \<and> vgic_inv vid (vgic_forward_spi vid i iar s)
    \<and> vgic_inv vid (vgic_ack_all vid s) \<and> vgic_inv vid (snd (read_reg vid off s))
    \<and> vgic_inv vid (write_reg vid off val s)"
  using assms by (simp add: wf_intros)

theorem vgic_invariant_kept_witness:
  "vgic_inv 0 (write_reg 0 0x10 27 two_pending) \<and> vgic_inv 0 (snd (read_reg 0 0x0C two_pending))"
  using vgic_invariant_kept [OF two_pending_inv] by blast

text \<open>
  C17. A forwarded interrupt is completed on the physical interface once: the first end of
  interrupt the guest writes for it emits the saved acknowledge value, any further write to
  the register emits nothing.
\<close>

theorem deferred_eoi_once:
  assumes "unat vid < length (vgics s)" and "val AND 0x3FF = iar AND 0x3FF"
  shows "let s1 = vgic_forward_spi vid i iar s; s2 = write_reg vid 0x10 val s1
    in phys_eois (io s2) = phys_eois (io s) @ [iar]
       \<and> phys_eois (io (write_reg vid 0x10 val' s2)) = phys_eois (io s2)"
proof -
  let ?s1 = "vgic_forward_spi vid i iar s" and ?s2 = "write_reg vid 0x10 val (vgic_forward_spi vid i iar s)"
  have l: "length (vgics ?s1) = length (vgics s)"
    by (simp add: vgic_forward_spi_def vgic_inject_def)
  have e: "phys_eois (io ?s1) = phys_eois (io s)"
    by (simp add: vgic_forward_spi_def vgic_inject_def set_vi_def msr_def Let_def)
  have d: "a_deferred (abs_vgic vid ?s1) = Some iar"
    using vgic_forward_spi_abs [OF assms(1)] by (simp add: a_forward_def a_inject_def)
  have 1: "phys_eois (io ?s2) = phys_eois (io s) @ [iar]" "a_deferred (abs_vgic vid ?s2) = None"
    using write_eoir_abs [of vid ?s1 val] assms d by (simp_all add: l e write_reg_def a_eoi_def Let_def)
  have "length (vgics ?s2) = length (vgics s)"
    by (simp add: write_reg_def write_eoir_def Let_def l)
  then have "phys_eois (io (write_reg vid 0x10 val' ?s2)) = phys_eois (io ?s2)"
    using write_eoir_abs(2) [of vid ?s2 val'] assms(1) 1(2)
    by (simp add: write_reg_def [of _ _ val'] a_eoi_def Let_def split: option.splits)
  then show ?thesis using 1(1) by (simp add: Let_def)
qed

theorem deferred_eoi_once_witness:
  "phys_eois (io (write_reg 0 0x10 33 (vgic_forward_spi 0 33 33 (boot_state (board 1 0) (\<lambda>_. 0))))) = [33]"
  using deferred_eoi_once [of 0 "boot_state (board 1 0) (\<lambda>_. 0)" 33 33 33] by (simp add: Let_def)

end
