(* ===== verification/Stage2.thy ===== *)
theory Stage2
  imports Uart
begin

text \<open>
  Stage-2 translation (\<open>src/src/stage2.c\<close>): the descriptor and \<open>VTCR_EL2\<close> constants, the
  one-time setup and the per-VM table construction. The C arrays are lists of rows, one
  row per VM; the addresses the descriptors carry come from the platform's link addresses.

  What the tables mean is given by \<open>s2_walk\<close>, the architecture's stage-2 table walk for
  a 4 KiB granule, a 32-bit input range and a start at level 1 (the \<open>VTCR_EL2\<close> value the
  code programs). The walk fetches descriptors through \<open>read_desc\<close>, which finds them in
  the arrays by address. The main lemma is that the walk of the tables built for a VM is
  the intended memory map \<open>s2_spec\<close> at every input address.
\<close>


section \<open>Constants\<close>

definition DESC_VALID :: u64 where [hyp_consts]: "DESC_VALID = push_bit 0 1"
definition DESC_BLOCK :: u64 where [hyp_consts]: "DESC_BLOCK = DESC_VALID OR push_bit 1 0"
definition DESC_TABLE :: u64 where [hyp_consts]: "DESC_TABLE = DESC_VALID OR push_bit 1 1"
definition DESC_PAGE :: u64 where [hyp_consts]: "DESC_PAGE = DESC_VALID OR push_bit 1 1"
definition S2_MEM_DEV :: u64 where [hyp_consts]: "S2_MEM_DEV = push_bit 2 0x0"
definition S2_MEM_NORMAL :: u64 where [hyp_consts]: "S2_MEM_NORMAL = push_bit 2 0xF"
definition S2_AP_RW :: u64 where [hyp_consts]: "S2_AP_RW = push_bit 6 3"
definition S2_SH_NSH :: u64 where [hyp_consts]: "S2_SH_NSH = push_bit 8 0"
definition S2_SH_ISH :: u64 where [hyp_consts]: "S2_SH_ISH = push_bit 8 3"
definition S2_AF :: u64 where [hyp_consts]: "S2_AF = push_bit 10 1"
definition S2_XN :: u64 where [hyp_consts]: "S2_XN = push_bit 54 1"

definition VTCR_T0SZ :: "u64 \<Rightarrow> u64" where [hyp_consts]: "VTCR_T0SZ n = n AND 0x3f"
definition VTCR_SL0_L1 :: u64 where [hyp_consts]: "VTCR_SL0_L1 = push_bit 6 1"
definition VTCR_IRGN0_WBWA :: u64 where [hyp_consts]: "VTCR_IRGN0_WBWA = push_bit 8 1"
definition VTCR_ORGN0_WBWA :: u64 where [hyp_consts]: "VTCR_ORGN0_WBWA = push_bit 10 1"
definition VTCR_SH0_ISH :: u64 where [hyp_consts]: "VTCR_SH0_ISH = push_bit 12 3"
definition VTCR_TG0_4K :: u64 where [hyp_consts]: "VTCR_TG0_4K = push_bit 14 0"
definition VTCR_PS_40BIT :: u64 where [hyp_consts]: "VTCR_PS_40BIT = push_bit 16 2"

definition MAX_VMS :: u32 where [hyp_consts]: "MAX_VMS = 2"

definition vtcr_value :: u64 where
  "vtcr_value = VTCR_T0SZ 32 OR VTCR_SL0_L1 OR VTCR_IRGN0_WBWA OR VTCR_ORGN0_WBWA
     OR VTCR_SH0_ISH OR VTCR_TG0_4K OR VTCR_PS_40BIT"


section \<open>Table construction\<close>

definition stage2_global_init :: "platform \<Rightarrow> hyp \<Rightarrow> hyp option" where
  "stage2_global_init p s =
     (let s = msr CNTVOFF_EL2 0 s;
          s = msr VTCR_EL2 vtcr_value s
      in kprint p [Str ''[stage2] VTCR_EL2  = '', Hex vtcr_value, Str NL] s)"

text \<open>Address of row \<open>vm\<close> of an array of 4096-byte rows.\<close>

definition row_addr :: "u64 \<Rightarrow> u32 \<Rightarrow> u64" where
  "row_addr base vm = base + ucast vm * 4096"

definition ram_attr :: u64 where
  "ram_attr = S2_AF OR S2_SH_ISH OR S2_AP_RW OR S2_MEM_NORMAL"

definition dev_attr :: u64 where
  "dev_attr = S2_AF OR S2_SH_NSH OR S2_AP_RW OR S2_MEM_DEV OR S2_XN"

definition build_l2_low :: "platform \<Rightarrow> u32 \<Rightarrow> u64 list" where
  "build_l2_low p vm =
     (let l2_low = replicate 512 0;
          uart_base = 0x09000000 :: u64;
          l2_uart = unat (drop_bit 21 uart_base AND 0x1ff);
          l2_low = l2_low[l2_uart := (uart_base AND NOT (push_bit 21 1 - 1)) OR DESC_BLOCK OR dev_attr];
          gic_base = 0x08000000 :: u64;
          l2_gic = unat (drop_bit 21 gic_base AND 0x1ff);
          l2_low = l2_low[l2_gic := row_addr (addr_s2_l3_gic p) vm OR DESC_TABLE];
          priv_ipa = 0x0A000000 :: u64;
          l2_priv = unat (drop_bit 21 priv_ipa AND 0x1ff)
      in l2_low[l2_priv := row_addr (addr_s2_l3_priv p) vm OR DESC_TABLE])"

definition build_l1 :: "platform \<Rightarrow> u32 \<Rightarrow> u64 list" where
  "build_l1 p vm = (replicate 512 0)
     [0 := row_addr (addr_s2_l2_low p) vm OR DESC_TABLE,
      1 := 0x40000000 OR DESC_BLOCK OR ram_attr]"

definition build_l3_priv :: "platform \<Rightarrow> u32 \<Rightarrow> u64 list" where
  "build_l3_priv p vm = (replicate 512 0)
     [0 := row_addr (addr_vm_priv_page p) vm OR DESC_PAGE OR ram_attr]"

definition stage2_alloc_vm :: "platform \<Rightarrow> u32 \<Rightarrow> u32 \<Rightarrow> hyp \<Rightarrow> (u64 outcome \<times> hyp) option" where
  "stage2_alloc_vm p vm vmid s =
     (if vm \<ge> MAX_VMS
      then do {
        s \<leftarrow> kprint p [Str (''[stage2] VM id out of range'' @ NL)] s;
        Some (Halted, s) }
      else
        let i = unat vm;
            s = s\<lparr>s2_l1 := (s2_l1 s)[i := build_l1 p vm],
                  s2_l2_low := (s2_l2_low s)[i := build_l2_low p vm],
                  s2_l3_gic := (s2_l3_gic s)[i := replicate 512 0],
                  s2_l3_priv := (s2_l3_priv s)[i := build_l3_priv p vm],
                  vm_priv_page := (vm_priv_page s)[i := (vm_priv_page s ! i)[0 := 65 + ucast vm]]\<rparr>;
            vttbr = row_addr (addr_s2_l1 p) vm OR push_bit 48 (ucast vmid);
            s = tlbi s
        in do {
          s \<leftarrow> kprint p [Str ''[stage2] VM '', Hex (ucast vm), Str '' VMID '', Hex (ucast vmid),
                  Str '' VTTBR= '', Hex vttbr, Str '' priv@'',
                  Hex (row_addr (addr_vm_priv_page p) vm), Str NL] s;
          Some (Ret vttbr, s) })"


section \<open>The architecture's table walk\<close>

definition desc_in :: "u64 \<Rightarrow> u64 list list \<Rightarrow> u64 \<Rightarrow> u64 option" where
  "desc_in base rows a =
     (let off = unat (a - base)
      in if off < 4096 * length rows then Some (rows ! (off div 4096) ! (off mod 4096 div 8)) else None)"

fun first_some :: "'a option list \<Rightarrow> 'a option" where
  "first_some [] = None"
| "first_some (Some x # _) = Some x"
| "first_some (None # xs) = first_some xs"

definition read_desc :: "platform \<Rightarrow> hyp \<Rightarrow> u64 \<Rightarrow> u64 option" where
  "read_desc p s a = first_some
     [desc_in (addr_s2_l1 p) (s2_l1 s) a, desc_in (addr_s2_l2_low p) (s2_l2_low s) a,
      desc_in (addr_s2_l3_gic p) (s2_l3_gic s) a, desc_in (addr_s2_l3_priv p) (s2_l3_priv s) a]"

datatype xlate = Fault | Mapped u64 u64 | External

text \<open>Bits 47 to \<open>lo\<close> of a descriptor, and its attribute fields (bits 63:52 and 11:2).\<close>

definition out_addr :: "nat \<Rightarrow> u64 \<Rightarrow> u64" where
  "out_addr lo d = take_bit 48 d AND NOT (Bit_Operations.mask lo)"

definition attrs :: "u64 \<Rightarrow> u64" where
  "attrs d = d AND 0xFFF0000000000FFC"

definition leaf :: "nat \<Rightarrow> u64 \<Rightarrow> u64 \<Rightarrow> xlate" where
  "leaf lo d ipa = (if bit d 10 then Mapped (out_addr lo d OR take_bit lo ipa) (attrs d) else Fault)"

fun s2_level :: "nat \<Rightarrow> platform \<Rightarrow> hyp \<Rightarrow> nat \<Rightarrow> u64 \<Rightarrow> u64 \<Rightarrow> xlate" where
  "s2_level 0 p s lo tbl ipa = Fault"
| "s2_level (Suc n) p s lo tbl ipa =
     (case read_desc p s (tbl + 8 * (drop_bit lo ipa AND 0x1ff)) of
        None \<Rightarrow> External
      | Some d \<Rightarrow>
          if \<not> bit d 0 then Fault
          else if n = 0 then (if bit d 1 then leaf lo d ipa else Fault)
          else if bit d 1 then s2_level n p s (lo - 9) (out_addr 12 d) ipa
          else leaf lo d ipa)"

definition s2_walk :: "platform \<Rightarrow> hyp \<Rightarrow> u64 \<Rightarrow> u64 \<Rightarrow> xlate" where
  "s2_walk p s vttbr ipa =
     (if ipa < 0x100000000 then s2_level 3 p s 30 (out_addr 12 vttbr) ipa else Fault)"

text \<open>The intended memory map of a VM.\<close>

definition s2_spec :: "platform \<Rightarrow> u32 \<Rightarrow> u64 \<Rightarrow> xlate" where
  "s2_spec p vm ipa =
     (if 0x40000000 \<le> ipa \<and> ipa < 0x80000000 then Mapped ipa ram_attr
      else if 0x09000000 \<le> ipa \<and> ipa < 0x09200000 then Mapped ipa dev_attr
      else if 0x0A000000 \<le> ipa \<and> ipa < 0x0A001000
      then Mapped (row_addr (addr_vm_priv_page p) vm + (ipa - 0x0A000000)) ram_attr
      else Fault)"

text \<open>
  What the compiler and \<open>linker.ld\<close> guarantee of the five arrays: 4 KiB alignment, placement
  inside the RAM of the board, no overlap.
\<close>

definition in_ram :: "u64 \<Rightarrow> bool" where
  "in_ram b \<longleftrightarrow> take_bit 12 b = 0 \<and> 0x40000000 \<le> unat b \<and> unat b + 8192 \<le> 0x80000000"

definition apart :: "u64 \<Rightarrow> u64 \<Rightarrow> bool" where
  "apart a b \<longleftrightarrow> unat a + 8192 \<le> unat b \<or> unat b + 8192 \<le> unat a"

definition layout_ok :: "platform \<Rightarrow> bool" where
  "layout_ok p \<longleftrightarrow>
     in_ram (addr_s2_l1 p) \<and> in_ram (addr_s2_l2_low p) \<and> in_ram (addr_s2_l3_gic p) \<and>
     in_ram (addr_s2_l3_priv p) \<and> in_ram (addr_vm_priv_page p) \<and>
     apart (addr_s2_l1 p) (addr_s2_l2_low p) \<and> apart (addr_s2_l1 p) (addr_s2_l3_gic p) \<and>
     apart (addr_s2_l1 p) (addr_s2_l3_priv p) \<and> apart (addr_s2_l2_low p) (addr_s2_l3_gic p) \<and>
     apart (addr_s2_l2_low p) (addr_s2_l3_priv p) \<and> apart (addr_s2_l3_gic p) (addr_s2_l3_priv p)"

definition tables_ok :: "hyp \<Rightarrow> bool" where
  "tables_ok s \<longleftrightarrow> length (s2_l1 s) = 2 \<and> length (s2_l2_low s) = 2 \<and> length (s2_l3_gic s) = 2
     \<and> length (s2_l3_priv s) = 2 \<and> length (vm_priv_page s) = 2
     \<and> list_all (\<lambda>pg. length pg = 4096) (vm_priv_page s)"


section \<open>Address arithmetic\<close>

lemma take_bit_12_iff: "take_bit 12 (a :: u64) = 0 \<longleftrightarrow> unat a mod 4096 = 0"
  by (simp add: word_unat_eq_iff unat_take_bit)

lemma take_bit_48_iff: "unat (a :: u64) < 2 ^ 48 \<Longrightarrow> take_bit 48 a = a"
  by (simp add: word_unat_eq_iff unat_take_bit)

lemma unat_row_addr:
  assumes "in_ram b" and "vm < MAX_VMS"
  shows "unat (row_addr b vm) = unat b + 4096 * unat vm"
proof -
  have v: "unat vm < 2" using assms(2) by (simp add: MAX_VMS_def word_less_nat_alt)
  have "row_addr b vm = of_nat (unat b + 4096 * unat vm)"
    by (simp add: row_addr_def mult.commute)
  with v assms(1) show ?thesis
    by (simp only: in_ram_def unat_of_nat) (simp add: take_bit_nat_eq_self)
qed

lemma row_addr_aligned:
  assumes "in_ram b" and "vm < MAX_VMS"
  shows "take_bit 12 (row_addr b vm) = 0" and "take_bit 48 (row_addr b vm) = row_addr b vm"
proof -
  have v: "unat vm < 2" using assms(2) by (simp add: MAX_VMS_def word_less_nat_alt)
  show "take_bit 12 (row_addr b vm) = 0"
    using assms(1) by (simp add: take_bit_12_iff unat_row_addr [OF assms] in_ram_def)
  show "take_bit 48 (row_addr b vm) = row_addr b vm"
    using assms(1) v by (intro take_bit_48_iff) (simp add: unat_row_addr [OF assms] in_ram_def)
qed

lemma out_addr_tagged:
  assumes "take_bit 12 a = 0" and "take_bit 48 a = a"
    and t: "\<And>n. bit t n \<Longrightarrow> n < 12 \<or> 48 \<le> n"
  shows "out_addr 12 (a OR t) = a"
proof (rule bit_word_eqI)
  fix n :: nat assume "n < LENGTH(64)"
  have "bit (take_bit 12 a) n = bit (0 :: u64) n" "bit (take_bit 48 a) n = bit a n"
    by (simp_all only: assms)
  then have "n < 12 \<Longrightarrow> \<not> bit a n" "bit a n \<Longrightarrow> n < 48" by (auto simp: bit_take_bit_iff)
  with t [of n] \<open>n < LENGTH(64)\<close> show "bit (out_addr 12 (a OR t)) n = bit a n"
    by (auto simp: out_addr_def bit_simps)
qed

lemma bit_DESC_TABLE: "bit DESC_TABLE n \<longleftrightarrow> n < 2"
proof -
  have eq: "DESC_TABLE = Bit_Operations.mask 2" by (simp add: hyp_consts mask_eq_exp_minus_1)
  show ?thesis by (simp only: eq bit_mask_iff) auto
qed

lemma out_addr_table:
  "in_ram b \<Longrightarrow> vm < MAX_VMS \<Longrightarrow> out_addr 12 (row_addr b vm OR DESC_TABLE) = row_addr b vm"
  by (rule out_addr_tagged) (auto simp: row_addr_aligned bit_DESC_TABLE)

lemma out_addr_vttbr:
  "in_ram b \<Longrightarrow> vm < MAX_VMS \<Longrightarrow> out_addr 12 (row_addr b vm OR push_bit 48 x) = row_addr b vm"
  by (rule out_addr_tagged) (auto simp: row_addr_aligned bit_simps)

lemma slot_addr:
  "row_addr b vm + 8 * (w AND 0x1ff) = b + of_nat (4096 * unat vm + 8 * unat (w AND 0x1ff))"
  by (simp add: row_addr_def)

lemma desc_in_hit:
  assumes "i < length rows" and "length rows = 2" and "k < 512"
  shows "desc_in b rows (b + of_nat (4096 * i + 8 * k)) = Some (rows ! i ! k)"
proof -
  have "unat (of_nat (4096 * i + 8 * k) :: u64) = 4096 * i + 8 * k"
    using assms by (simp only: unat_of_nat) (simp add: take_bit_nat_eq_self)
  moreover have "(4096 * i + 8 * k) div 4096 = i" "(4096 * i + 8 * k) mod 4096 div 8 = k"
    using assms by auto
  ultimately show ?thesis using assms by (simp add: desc_in_def Let_def)
qed

lemma desc_in_miss:
  assumes "apart a b" and "in_ram a" and "in_ram b" and "length rows = 2" and "off < 8192"
  shows "desc_in b rows (a + of_nat off) = None"
proof -
  have "unat (of_nat off :: u64) = off"
    using assms(5) by (simp only: unat_of_nat) (simp add: take_bit_nat_eq_self)
  then have "unat (a + of_nat off) = unat a + off"
    using assms(2,5) by (subst unat_word_ariths) (simp add: in_ram_def)
  then have "8192 \<le> unat (a + of_nat off - b)"
    using assms(1-3,5) by (auto simp: unat_sub_if' apart_def in_ram_def)
  then show ?thesis using assms(4) by (simp add: desc_in_def Let_def)
qed

lemma apart_sym: "apart a b \<Longrightarrow> apart b a"
  by (auto simp: apart_def)

lemma read_desc_hits:
  assumes "layout_ok p" and "tables_ok s" and "i < 2" and "k < 512"
  shows "read_desc p s (addr_s2_l1 p + of_nat (4096 * i + 8 * k)) = Some (s2_l1 s ! i ! k)"
    and "read_desc p s (addr_s2_l2_low p + of_nat (4096 * i + 8 * k)) = Some (s2_l2_low s ! i ! k)"
    and "read_desc p s (addr_s2_l3_gic p + of_nat (4096 * i + 8 * k)) = Some (s2_l3_gic s ! i ! k)"
    and "read_desc p s (addr_s2_l3_priv p + of_nat (4096 * i + 8 * k)) = Some (s2_l3_priv s ! i ! k)"
proof -
  have off: "4096 * i + 8 * k < 8192" using assms(3,4) by simp
  note hit = desc_in_hit [OF _ _ assms(4), where i = i]
  note miss = desc_in_miss [OF _ _ _ _ off]
  have l: "length (s2_l1 s) = 2" "length (s2_l2_low s) = 2" "length (s2_l3_gic s) = 2"
      "length (s2_l3_priv s) = 2"
    using assms(2) by (simp_all add: tables_ok_def)
  have a: "apart (addr_s2_l2_low p) (addr_s2_l1 p)" "apart (addr_s2_l3_gic p) (addr_s2_l1 p)"
      "apart (addr_s2_l3_priv p) (addr_s2_l1 p)" "apart (addr_s2_l3_gic p) (addr_s2_l2_low p)"
      "apart (addr_s2_l3_priv p) (addr_s2_l2_low p)" "apart (addr_s2_l3_priv p) (addr_s2_l3_gic p)"
    using assms(1) by (auto simp: layout_ok_def intro: apart_sym)
  have r: "in_ram (addr_s2_l1 p)" "in_ram (addr_s2_l2_low p)" "in_ram (addr_s2_l3_gic p)"
      "in_ram (addr_s2_l3_priv p)"
    using assms(1) by (simp_all add: layout_ok_def)
  show "read_desc p s (addr_s2_l1 p + of_nat (4096 * i + 8 * k)) = Some (s2_l1 s ! i ! k)"
    using assms(3) l by (simp only: read_desc_def hit first_some.simps)
  show "read_desc p s (addr_s2_l2_low p + of_nat (4096 * i + 8 * k)) = Some (s2_l2_low s ! i ! k)"
    using assms(3) l by (simp only: read_desc_def hit miss [OF a(1) r(2,1) l(1)] first_some.simps)
  show "read_desc p s (addr_s2_l3_gic p + of_nat (4096 * i + 8 * k)) = Some (s2_l3_gic s ! i ! k)"
    using assms(3) l by (simp only: read_desc_def hit miss [OF a(2) r(3,1) l(1)]
        miss [OF a(4) r(3,2) l(2)] first_some.simps)
  show "read_desc p s (addr_s2_l3_priv p + of_nat (4096 * i + 8 * k)) = Some (s2_l3_priv s ! i ! k)"
    using assms(3) l by (simp only: read_desc_def hit miss [OF a(3) r(4,1) l(1)]
        miss [OF a(5) r(4,2) l(2)] miss [OF a(6) r(4,3) l(3)] first_some.simps)
qed


section \<open>The walk of the built tables\<close>

definition has_tables :: "platform \<Rightarrow> u32 \<Rightarrow> hyp \<Rightarrow> bool" where
  "has_tables p vm s \<longleftrightarrow> s2_l1 s ! unat vm = build_l1 p vm \<and> s2_l2_low s ! unat vm = build_l2_low p vm
     \<and> s2_l3_gic s ! unat vm = replicate 512 0 \<and> s2_l3_priv s ! unat vm = build_l3_priv p vm"

lemma unat_index: "unat (drop_bit n w AND 0x1ff :: u64) = unat w div 2 ^ n mod 512"
  by (simp only: and_mask_take_bit unat_take_bit unat_drop_bit) simp

lemma recombine:
  assumes "unat ipa div 2 ^ n = k" and "n < 64"
  shows "push_bit n (of_nat k) OR take_bit n ipa = (ipa :: u64)"
proof -
  have "unat (drop_bit n ipa) = k"
    using assms(1) by (simp only: unat_drop_bit)
  then have "of_nat k = drop_bit n ipa" by (metis of_nat_unat ucast_id)
  then show ?thesis by (auto intro!: bit_word_eqI simp: bit_simps)
qed

lemma build_l1_nth: "k < 512 \<Longrightarrow> build_l1 p vm ! k =
  (if k = 0 then row_addr (addr_s2_l2_low p) vm OR DESC_TABLE
   else if k = 1 then 0x40000000 OR DESC_BLOCK OR ram_attr else 0)"
  by (simp add: build_l1_def nth_list_update_if)

lemma build_l2_low_nth: "k < 512 \<Longrightarrow> build_l2_low p vm ! k =
  (if k = 80 then row_addr (addr_s2_l3_priv p) vm OR DESC_TABLE
   else if k = 64 then row_addr (addr_s2_l3_gic p) vm OR DESC_TABLE
   else if k = 72 then 0x09000000 OR DESC_BLOCK OR dev_attr else 0)"
  by (simp add: build_l2_low_def nth_list_update_if Let_def)

lemma build_l3_priv_nth: "k < 512 \<Longrightarrow> build_l3_priv p vm ! k =
  (if k = 0 then row_addr (addr_vm_priv_page p) vm OR DESC_PAGE OR ram_attr else 0)"
  by (simp add: build_l3_priv_def nth_list_update_if)

lemma table_bits: "bit (a OR DESC_TABLE) 0" "bit (a OR DESC_TABLE) 1"
  by (simp_all add: bit_or_iff bit_DESC_TABLE)

lemma leaf_ram:
  assumes "unat ipa div 2 ^ 30 = 1"
  shows "leaf 30 (0x40000000 OR DESC_BLOCK OR ram_attr) ipa = Mapped ipa ram_attr"
  using recombine [OF assms]
  by (simp add: leaf_def out_addr_def attrs_def ram_attr_def hyp_consts mask_eq_exp_minus_1)

lemma leaf_uart:
  assumes "unat ipa div 2 ^ 21 = 72"
  shows "leaf 21 (0x09000000 OR DESC_BLOCK OR dev_attr) ipa = Mapped ipa dev_attr"
  using recombine [OF assms]
  by (simp add: leaf_def out_addr_def attrs_def dev_attr_def hyp_consts mask_eq_exp_minus_1)

lemma or_disjoint_add:
  assumes "take_bit 12 a = 0" and "unat o' < 4096"
  shows "a OR o' = a + (o' :: u64)"
proof (rule disjunctive_add [symmetric])
  fix n
  have "take_bit 12 o' = o'"
    using assms(2) by (simp add: word_unat_eq_iff unat_take_bit)
  then have "bit (take_bit 12 o') n = bit o' n" by simp
  moreover have "bit (take_bit 12 a) n = bit (0 :: u64) n" by (simp only: assms)
  ultimately show "\<not> bit a n \<or> \<not> bit o' n" by (auto simp: bit_take_bit_iff)
qed

lemma attrs_page:
  assumes "take_bit 12 a = 0" and "take_bit 48 a = a"
  shows "attrs (a OR DESC_PAGE OR ram_attr) = ram_attr" "bit (a OR DESC_PAGE OR ram_attr) 0"
    "bit (a OR DESC_PAGE OR ram_attr) 1" "bit (a OR DESC_PAGE OR ram_attr) 10"
    "out_addr 12 (a OR DESC_PAGE OR ram_attr) = a"
proof -
  have c: "a OR DESC_PAGE OR ram_attr = a OR 0x7FF" by (simp add: ram_attr_def hyp_consts or.assoc)
  have m: "(0x7FF :: u64) = Bit_Operations.mask 11" by (simp add: mask_eq_exp_minus_1)
  have b: "bit (0x7FF :: u64) n \<longleftrightarrow> n < 11" for n by (simp only: m bit_mask_iff) auto
  show "bit (a OR DESC_PAGE OR ram_attr) 0" "bit (a OR DESC_PAGE OR ram_attr) 1"
    "bit (a OR DESC_PAGE OR ram_attr) 10"
    by (simp_all only: c bit_or_iff b) simp_all
  show "out_addr 12 (a OR DESC_PAGE OR ram_attr) = a"
    unfolding c by (rule out_addr_tagged [OF assms]) (drule b [THEN iffD1], simp)
  have "a AND 0xFFF0000000000FFC = 0"
  proof -
    have f: "(0xFFF0000000000FFC :: u64)
        = NOT (Bit_Operations.mask 52) OR (Bit_Operations.mask 12 AND NOT (Bit_Operations.mask 2))"
      by (simp add: mask_eq_exp_minus_1)
    have "\<not> bit (a AND 0xFFF0000000000FFC) n" for n
    proof -
      have "bit (take_bit 12 a) n = bit (0 :: u64) n" "bit (take_bit 48 a) n = bit a n"
        by (simp_all only: assms)
      then show ?thesis unfolding f by (auto simp: bit_simps)
    qed
    then show ?thesis by (auto simp: bit_eq_iff)
  qed
  then show "attrs (a OR DESC_PAGE OR ram_attr) = ram_attr"
    unfolding c attrs_def by (simp add: bit.conj_disj_distrib2 ram_attr_def hyp_consts)
qed


lemma s2_level_3: "s2_level 3 p s lo t ipa =
  (case read_desc p s (t + 8 * (drop_bit lo ipa AND 0x1ff)) of None \<Rightarrow> External
   | Some d \<Rightarrow> if \<not> bit d 0 then Fault else if bit d 1 then s2_level 2 p s (lo - 9) (out_addr 12 d) ipa
       else leaf lo d ipa)"
  by (simp add: numeral_3_eq_3 numeral_2_eq_2 split: option.split)

lemma s2_level_2: "s2_level 2 p s lo t ipa =
  (case read_desc p s (t + 8 * (drop_bit lo ipa AND 0x1ff)) of None \<Rightarrow> External
   | Some d \<Rightarrow> if \<not> bit d 0 then Fault else if bit d 1 then s2_level 1 p s (lo - 9) (out_addr 12 d) ipa
       else leaf lo d ipa)"
  by (simp add: numeral_2_eq_2 split: option.split)

lemma s2_level_1: "s2_level 1 p s lo t ipa =
  (case read_desc p s (t + 8 * (drop_bit lo ipa AND 0x1ff)) of None \<Rightarrow> External
   | Some d \<Rightarrow> if \<not> bit d 0 then Fault else if bit d 1 then leaf lo d ipa else Fault)"
  by (simp split: option.split)

declare s2_level.simps [simp del]

lemma block_bits:
  "bit (0x09000000 OR DESC_BLOCK OR dev_attr) 0" "\<not> bit (0x09000000 OR DESC_BLOCK OR dev_attr) 1"
  "bit (0x40000000 OR DESC_BLOCK OR ram_attr) 0" "\<not> bit (0x40000000 OR DESC_BLOCK OR ram_attr) 1"
  by (simp_all add: ram_attr_def dev_attr_def hyp_consts)

text \<open>Bit numbers are written as numerals below.\<close>

declare One_nat_def [simp del]

lemma walk_l3_priv:
  assumes "layout_ok p" and "tables_ok s" and "has_tables p vm s" and vm: "vm < MAX_VMS"
  shows "s2_level 1 p s 12 (row_addr (addr_s2_l3_priv p) vm) ipa =
    (if unat ipa div 4096 mod 512 = 0
     then Mapped (row_addr (addr_vm_priv_page p) vm OR take_bit 12 ipa) ram_attr else Fault)"
proof -
  let ?k = "unat ipa div 4096 mod 512" and ?pg = "row_addr (addr_vm_priv_page p) vm"
  have i: "unat vm < 2" using vm by (simp add: MAX_VMS_def word_less_nat_alt)
  have al: "take_bit 12 ?pg = 0" "take_bit 48 ?pg = ?pg"
    using assms(1) vm by (simp_all add: row_addr_aligned layout_ok_def)
  have "read_desc p s (row_addr (addr_s2_l3_priv p) vm + 8 * (drop_bit 12 ipa AND 0x1ff))
      = Some (build_l3_priv p vm ! ?k)"
    using read_desc_hits(4) [OF assms(1,2) i, of ?k] assms(3)
    by (simp only: slot_addr unat_index has_tables_def) simp
  then show ?thesis
    unfolding s2_level_1
    by (simp add: build_l3_priv_nth attrs_page [OF al] leaf_def)
qed

lemma walk_l3_gic:
  assumes "layout_ok p" and "tables_ok s" and "has_tables p vm s" and vm: "vm < MAX_VMS"
  shows "s2_level 1 p s 12 (row_addr (addr_s2_l3_gic p) vm) ipa = Fault"
proof -
  let ?k = "unat ipa div 4096 mod 512"
  have i: "unat vm < 2" using vm by (simp add: MAX_VMS_def word_less_nat_alt)
  have "read_desc p s (row_addr (addr_s2_l3_gic p) vm + 8 * (drop_bit 12 ipa AND 0x1ff)) = Some 0"
    using read_desc_hits(3) [OF assms(1,2) i, of ?k] assms(3)
    by (simp only: slot_addr unat_index has_tables_def) simp
  then show ?thesis unfolding s2_level_1 by simp
qed

lemma walk_l2:
  assumes "layout_ok p" and "tables_ok s" and "has_tables p vm s" and vm: "vm < MAX_VMS"
    and ipa: "unat ipa < 2 ^ 30"
  shows "s2_level 2 p s 21 (row_addr (addr_s2_l2_low p) vm) ipa =
    (let j = unat ipa div 2 ^ 21 in
     if j = 80 then s2_level 1 p s 12 (row_addr (addr_s2_l3_priv p) vm) ipa
     else if j = 72 then Mapped ipa dev_attr else Fault)"
proof -
  let ?j = "unat ipa div 2 ^ 21"
  have i: "unat vm < 2" using vm by (simp add: MAX_VMS_def word_less_nat_alt)
  have j: "?j < 512" using ipa by (simp add: less_mult_imp_div_less)
  have r: "in_ram (addr_s2_l3_priv p)" "in_ram (addr_s2_l3_gic p)"
    using assms(1) by (simp_all add: layout_ok_def)
  have "read_desc p s (row_addr (addr_s2_l2_low p) vm + 8 * (drop_bit 21 ipa AND 0x1ff))
      = Some (build_l2_low p vm ! ?j)"
    using read_desc_hits(2) [OF assms(1,2) i, of ?j] assms(3) j
    by (simp only: slot_addr unat_index has_tables_def) simp
  then show ?thesis
    unfolding s2_level_2 using walk_l3_gic [OF assms(1-4), of ipa]
    by (simp add: block_bits build_l2_low_nth j [simplified] table_bits out_addr_table r vm leaf_uart Let_def)
qed

lemma walk_l1:
  assumes "layout_ok p" and "tables_ok s" and "has_tables p vm s" and vm: "vm < MAX_VMS"
    and ipa: "ipa < 0x100000000"
  shows "s2_walk p s (row_addr (addr_s2_l1 p) vm OR push_bit 48 x) ipa =
    (let j = unat ipa div 2 ^ 30 in
     if j = 0 then s2_level 2 p s 21 (row_addr (addr_s2_l2_low p) vm) ipa
     else if j = 1 then Mapped ipa ram_attr else Fault)"
proof -
  let ?j = "unat ipa div 2 ^ 30"
  have i: "unat vm < 2" using vm by (simp add: MAX_VMS_def word_less_nat_alt)
  have j: "?j < 512" using ipa by (simp add: less_mult_imp_div_less word_less_nat_alt)
  have r: "in_ram (addr_s2_l1 p)" "in_ram (addr_s2_l2_low p)"
    using assms(1) by (simp_all add: layout_ok_def)
  have "read_desc p s (row_addr (addr_s2_l1 p) vm + 8 * (drop_bit 30 ipa AND 0x1ff))
      = Some (build_l1 p vm ! ?j)"
    using read_desc_hits(1) [OF assms(1,2) i, of ?j] assms(3) j
    by (simp only: slot_addr unat_index has_tables_def) simp
  then show ?thesis
    unfolding s2_walk_def s2_level_3
    by (simp add: block_bits ipa build_l1_nth j [simplified] table_bits out_addr_vttbr out_addr_table r vm leaf_ram Let_def
        )
qed

lemma priv_page_address:
  assumes "layout_ok p" and "vm < MAX_VMS" and "unat ipa div 4096 = 0xA000"
  shows "row_addr (addr_vm_priv_page p) vm OR take_bit 12 ipa
      = row_addr (addr_vm_priv_page p) vm + (ipa - 0x0A000000)"
proof -
  have u: "unat (take_bit 12 ipa) = unat ipa mod 4096" by (simp add: unat_take_bit)
  have ge: "0x0A000000 \<le> unat ipa" using assms(3) by auto
  then have "unat (ipa - 0x0A000000) = unat ipa - 0x0A000000"
    by (simp add: unat_sub_if')
  also have "\<dots> = unat ipa mod 4096" using assms(3) by presburger
  finally have "take_bit 12 ipa = ipa - 0x0A000000" using u by (simp add: word_unat_eq_iff)
  moreover have "take_bit 12 (row_addr (addr_vm_priv_page p) vm) = 0"
    using assms(1,2) by (simp add: row_addr_aligned layout_ok_def)
  ultimately show ?thesis using or_disjoint_add u by simp
qed

lemma priv_page_index:
  "unat (ipa :: u64) div 4096 = 0xA000 \<longleftrightarrow> unat ipa div 2 ^ 21 = 80 \<and> unat ipa div 4096 mod 512 = 0"
proof -
  have split: "unat ipa div 2 ^ 21 = unat ipa div 4096 div 512" by (simp flip: div_mult2_eq)
  have "q = 512 * (q div 512) + q mod 512" for q :: nat by simp
  from this [of "unat ipa div 4096"] show ?thesis unfolding split by auto
qed

lemma s2_walk_low:
  assumes "layout_ok p" and "tables_ok s" and "has_tables p vm s" and "vm < MAX_VMS"
    and low: "unat ipa < 2 ^ 30"
  shows "s2_walk p s (row_addr (addr_s2_l1 p) vm OR push_bit 48 x) ipa =
      (if unat ipa div 2 ^ 21 = 80
       then (if unat ipa div 4096 mod 512 = 0
             then Mapped (row_addr (addr_vm_priv_page p) vm OR take_bit 12 ipa) ram_attr else Fault)
       else if unat ipa div 2 ^ 21 = 72 then Mapped ipa dev_attr else Fault)"
proof -
  have ipa: "ipa < 0x100000000" using low by (simp add: word_less_nat_alt)
  have l1: "unat ipa div 2 ^ 30 = 0" using low by simp
  show ?thesis
    unfolding walk_l1 [OF assms(1-4) ipa] l1 walk_l2 [OF assms(1-4) low] walk_l3_priv [OF assms(1-4)]
    by (simp only: Let_def if_True refl)
qed

lemma s2_spec_low:
  assumes "unat ipa < 2 ^ 30"
  shows "s2_spec p vm ipa =
      (if unat ipa div 2 ^ 21 = 72 then Mapped ipa dev_attr
       else if unat ipa div 4096 = 0xA000
       then Mapped (row_addr (addr_vm_priv_page p) vm + (ipa - 0x0A000000)) ram_attr else Fault)"
proof -
  have ranges: "0x09000000 \<le> ipa \<and> ipa < 0x09200000 \<longleftrightarrow> unat ipa div 2 ^ 21 = 72"
    "0x0A000000 \<le> ipa \<and> ipa < 0x0A001000 \<longleftrightarrow> unat ipa div 4096 = 0xA000" "0x40000000 \<le> ipa \<longleftrightarrow> False"
    using assms by (simp_all add: word_less_nat_alt word_le_nat_alt div_eq_range)
  show ?thesis by (simp only: s2_spec_def ranges simp_thms if_False)
qed

lemma s2_walk_spec:
  assumes "layout_ok p" and "tables_ok s" and "has_tables p vm s" and vm: "vm < MAX_VMS"
  shows "s2_walk p s (row_addr (addr_s2_l1 p) vm OR push_bit 48 x) ipa = s2_spec p vm ipa"
proof -
  consider (out) "\<not> ipa < 0x100000000" | (ram) "ipa < 0x100000000" "\<not> unat ipa < 2 ^ 30"
    | (low) "unat ipa < 2 ^ 30" by blast
  then show ?thesis
  proof cases
    case out
    then show ?thesis
      by (auto simp: s2_walk_def s2_spec_def word_less_nat_alt word_le_nat_alt)
  next
    case ram
    then show ?thesis
      unfolding walk_l1 [OF assms ram(1)] s2_spec_def
      by (auto simp: Let_def word_less_nat_alt word_le_nat_alt)
  next
    case low
    show ?thesis
    proof (cases "unat ipa div 4096 = 0xA000")
      case True
      then show ?thesis
        unfolding s2_walk_low [OF assms low] s2_spec_low [OF low] priv_page_address [OF assms(1) vm True]
          priv_page_index by simp
    next
      case False
      then show ?thesis
        unfolding s2_walk_low [OF assms low] s2_spec_low [OF low] priv_page_index by (auto split: if_splits)
    qed
  qed
qed

declare One_nat_def [simp]


section \<open>Allocation\<close>

definition vttbr_of :: "platform \<Rightarrow> u32 \<Rightarrow> u32 \<Rightarrow> u64" where
  "vttbr_of p vm vmid = row_addr (addr_s2_l1 p) vm OR push_bit 48 (ucast vmid)"

lemma tables_okD:
  "tables_ok s \<Longrightarrow> length (s2_l1 s) = 2" "tables_ok s \<Longrightarrow> length (s2_l2_low s) = 2"
  "tables_ok s \<Longrightarrow> length (s2_l3_gic s) = 2" "tables_ok s \<Longrightarrow> length (s2_l3_priv s) = 2"
  "tables_ok s \<Longrightarrow> length (vm_priv_page s) = 2"
  by (simp_all add: tables_ok_def)

lemma tables_ok_io [simp]: "tables_ok (s\<lparr>io := t\<rparr>) = tables_ok s"
  by (simp add: tables_ok_def)

lemma has_tables_io [simp]: "has_tables p vm (s\<lparr>io := t\<rparr>) = has_tables p vm s"
  by (simp add: has_tables_def)

lemma stage2_alloc_vm_out_of_range:
  assumes "stage2_alloc_vm p vm vmid s = Some (r, s')" and "MAX_VMS \<le> vm"
  shows "r = Halted" and "\<exists>es. s' = s\<lparr>io := io s @ es\<rparr> \<and> list_all uart_ev es"
  using assms by (auto simp: stage2_alloc_vm_def elim!: kprint_frame)

lemma stage2_alloc_vm_effect:
  assumes "stage2_alloc_vm p vm vmid s = Some (r, s')" and "vm < MAX_VMS"
  shows "r = Ret (vttbr_of p vm vmid)"
    and "\<exists>es. s' = s\<lparr>s2_l1 := (s2_l1 s)[unat vm := build_l1 p vm],
                  s2_l2_low := (s2_l2_low s)[unat vm := build_l2_low p vm],
                  s2_l3_gic := (s2_l3_gic s)[unat vm := replicate 512 0],
                  s2_l3_priv := (s2_l3_priv s)[unat vm := build_l3_priv p vm],
                  vm_priv_page := (vm_priv_page s)[unat vm := (vm_priv_page s ! unat vm)[0 := 65 + ucast vm]],
                  io := io s @ Tlbi # es\<rparr> \<and> list_all uart_ev es"
  using assms
  by (auto simp: stage2_alloc_vm_def Let_def vttbr_of_def tlbi_def not_le [symmetric] elim!: kprint_frame)

lemma stage2_alloc_vm_tables:
  assumes "stage2_alloc_vm p vm vmid s = Some (r, s')" and vm: "vm < MAX_VMS" and "tables_ok s"
  shows "tables_ok s'" and "has_tables p vm s'"
    and "vm' < MAX_VMS \<Longrightarrow> vm' \<noteq> vm \<Longrightarrow> has_tables p vm' s \<Longrightarrow> has_tables p vm' s'"
    and "vm_priv_page s' ! unat vm ! 0 = 65 + ucast vm"
    and "vm' \<noteq> vm \<Longrightarrow> vm_priv_page s' ! unat vm' = vm_priv_page s ! unat vm'"
proof -
  have i: "unat vm < 2" using vm by (simp add: MAX_VMS_def word_less_nat_alt)
  note e = stage2_alloc_vm_effect(2) [OF assms(1,2)]
  have pg: "length (vm_priv_page s ! unat vm) = 4096"
    using assms(3) i by (simp add: tables_ok_def list_all_length)
  show "tables_ok s'"
    using e assms(3) pg by (auto simp: tables_ok_def list_all_length nth_list_update_if)
  show "has_tables p vm s'"
    using e i tables_okD [OF assms(3)] by (auto simp: has_tables_def)
  show "has_tables p vm' s'" if "vm' < MAX_VMS" "vm' \<noteq> vm" "has_tables p vm' s"
    using e that by (auto simp: has_tables_def word_unat_eq_iff)
  show "vm_priv_page s' ! unat vm ! 0 = 65 + ucast vm"
    using e i tables_okD [OF assms(3)] pg by auto
  show "vm_priv_page s' ! unat vm' = vm_priv_page s ! unat vm'" if "vm' \<noteq> vm"
    using e that by (auto simp: word_unat_eq_iff)
qed

context pl011_console
begin

lemma stage2_alloc_vm_returns: "stage2_alloc_vm p vm vmid s \<noteq> None"
  by (simp add: stage2_alloc_vm_def returns_simps del: not_None_eq)

end


section \<open>Properties\<close>

lemma board_layout: "layout_ok (board n irq)"
  by (simp add: layout_ok_def in_ram_def apart_def take_bit_12_iff)

text \<open>
  C6. The tables \<open>stage2_alloc_vm\<close> builds, walked the way the architecture walks them, realise
  the intended memory map for every one of the \<open>2 ^ 64\<close> addresses: RAM and the UART page are
  mapped onto themselves, the private page onto the VM's own page, and everything else faults.
\<close>

theorem stage2_realises_map:
  assumes "layout_ok p" and "tables_ok s" and "vm < MAX_VMS"
    and "stage2_alloc_vm p vm vmid s = Some (Ret vttbr, s')"
  shows "s2_walk p s' vttbr ipa = s2_spec p vm ipa"
proof -
  have "vttbr = vttbr_of p vm vmid"
    using stage2_alloc_vm_effect(1) [OF assms(4,3)] by simp
  then show ?thesis
    using s2_walk_spec [OF assms(1)] stage2_alloc_vm_tables(1,2) [OF assms(4,3,2)] assms(3)
    by (simp add: vttbr_of_def)
qed

lemma board_alloc:
  "vm < MAX_VMS \<Longrightarrow> \<exists>s'. stage2_alloc_vm (board 2 0) vm vmid s = Some (Ret (vttbr_of (board 2 0) vm vmid), s')"
proof -
  assume vm: "vm < MAX_VMS"
  obtain r s' where "stage2_alloc_vm (board 2 0) vm vmid s = Some (r, s')"
    using board_console.stage2_alloc_vm_returns [of 2 0 vm vmid s] by auto
  then show ?thesis using stage2_alloc_vm_effect(1) [OF _ vm] by blast
qed

lemma boot_tables_ok: "tables_ok (boot_state p regs)"
  by (simp add: boot_state_def tables_ok_def list_all_iff)

theorem stage2_realises_map_witness:
  "\<exists>s'. s2_walk (board 2 0) s' (vttbr_of (board 2 0) 1 2) 0x0A000010 = Mapped 0x40109010 ram_attr
     \<and> s2_walk (board 2 0) s' (vttbr_of (board 2 0) 1 2) 0x08000000 = xlate.Fault"
proof -
  have vm: "(1 :: u32) < MAX_VMS" by (simp add: MAX_VMS_def)
  obtain s' where "stage2_alloc_vm (board 2 0) 1 2 (boot_state (board 2 0) (\<lambda>_. 0)) =
      Some (Ret (vttbr_of (board 2 0) 1 2), s')" using board_alloc [OF vm] by blast
  from stage2_realises_map [OF board_layout boot_tables_ok vm this] show ?thesis
    by (intro exI [of _ s']) (simp add: s2_spec_def row_addr_def)
qed

text \<open>
  C21. The private page separates the VMs, and the interrupt controller is never mapped: under the
  tables of two different VMs the same private address reaches two different pages, and every
  access to the distributor or the CPU interface faults, so that it reaches the emulation.
\<close>

theorem private_pages_disjoint:
  assumes "layout_ok p" and "tables_ok s" and "has_tables p 0 s" and "has_tables p 1 s"
    and "0x0A000000 \<le> ipa" and "ipa < 0x0A001000" and "0x0A000000 \<le> ipa'" and "ipa' < 0x0A001000"
  shows "\<exists>a b. s2_walk p s (vttbr_of p 0 x) ipa = Mapped a ram_attr
    \<and> s2_walk p s (vttbr_of p 1 y) ipa' = Mapped b ram_attr \<and> a \<noteq> b
    \<and> (\<forall>g. 0x08000000 \<le> g \<and> g < 0x08020000 \<longrightarrow>
         s2_walk p s (vttbr_of p 0 x) g = xlate.Fault \<and> s2_walk p s (vttbr_of p 1 y) g = xlate.Fault)"
proof -
  have vm: "(0 :: u32) < MAX_VMS" "(1 :: u32) < MAX_VMS" by (simp_all add: MAX_VMS_def)
  note w = s2_walk_spec [OF assms(1,2,3) vm(1)] s2_walk_spec [OF assms(1,2,4) vm(2)]
  define d d' where "d = ipa - 0x0A000000" and "d' = ipa' - 0x0A000000"
  have off: "unat d < 4096" "unat d' < 4096"
    unfolding d_def d'_def using assms(5-8) by unat_arith+
  have b: "unat (addr_vm_priv_page p) + 8192 \<le> 0x80000000"
    using assms(1) by (simp add: layout_ok_def in_ram_def)
  let ?a = "row_addr (addr_vm_priv_page p) 0 + d"
  let ?b = "row_addr (addr_vm_priv_page p) 1 + d'"
  have "unat ?a = unat (addr_vm_priv_page p) + unat d"
    "unat ?b = unat (addr_vm_priv_page p) + 4096 + unat d'"
    using off b by (simp_all add: row_addr_def unat_word_ariths)
  then have "unat ?a < unat ?b" using off by linarith
  then have "?a \<noteq> ?b" by auto
  moreover have "s2_spec p v g = xlate.Fault" if "0x08000000 \<le> g" "g < 0x08020000" for v g
    using that by (auto simp: s2_spec_def word_le_nat_alt word_less_nat_alt)
  moreover have "s2_spec p 0 ipa = Mapped ?a ram_attr" "s2_spec p 1 ipa' = Mapped ?b ram_attr"
    using assms(5-8) by (auto simp: s2_spec_def word_le_nat_alt word_less_nat_alt d_def d'_def)
  ultimately show ?thesis by (simp add: vttbr_of_def w)
qed

lemma board_both_tables: "\<exists>s. tables_ok s \<and> has_tables (board 2 0) 0 s \<and> has_tables (board 2 0) 1 s"
proof -
  have vm: "(0 :: u32) < MAX_VMS" "(1 :: u32) < MAX_VMS" by (simp_all add: MAX_VMS_def)
  obtain s1 where 1: "stage2_alloc_vm (board 2 0) 0 1 (boot_state (board 2 0) (\<lambda>_. 0)) =
      Some (Ret (vttbr_of (board 2 0) 0 1), s1)" using board_alloc [OF vm(1)] by blast
  obtain s2 where 2: "stage2_alloc_vm (board 2 0) 1 2 s1 = Some (Ret (vttbr_of (board 2 0) 1 2), s2)"
    using board_alloc [OF vm(2)] by blast
  note t1 = stage2_alloc_vm_tables [OF 1 vm(1) boot_tables_ok]
  note t2 = stage2_alloc_vm_tables [OF 2 vm(2) t1(1)]
  show ?thesis using t2(1,2) t2(3) [OF vm(1) _ t1(2)] by auto
qed

theorem private_pages_disjoint_witness:
  "\<exists>s a b. s2_walk (board 2 0) s (vttbr_of (board 2 0) 0 1) 0x0A000000 = Mapped a ram_attr
    \<and> s2_walk (board 2 0) s (vttbr_of (board 2 0) 1 2) 0x0A000000 = Mapped b ram_attr \<and> a \<noteq> b"
proof -
  obtain s where "tables_ok s" "has_tables (board 2 0) 0 s" "has_tables (board 2 0) 1 s"
    using board_both_tables by blast
  from private_pages_disjoint [OF board_layout this, of "0x0A000000" "0x0A000000" 1 2]
  show ?thesis by auto
qed

text \<open>
  A VM number out of range does not touch the tables: the allocation prints a message and
  halts, and whenever the console drains it does reach that point.
\<close>

theorem stage2_alloc_out_of_range:
  assumes "pl011_console p" and "MAX_VMS \<le> vm"
  shows "\<exists>es. stage2_alloc_vm p vm vmid s = Some (Halted, s\<lparr>io := io s @ es\<rparr>) \<and> list_all uart_ev es"
proof -
  obtain r s' where "stage2_alloc_vm p vm vmid s = Some (r, s')"
    using pl011_console.stage2_alloc_vm_returns [OF assms(1), of vm vmid s] by auto
  then show ?thesis using stage2_alloc_vm_out_of_range [OF _ assms(2)] by auto
qed

theorem stage2_alloc_out_of_range_witness:
  "\<exists>es. stage2_alloc_vm (board 2 0) 2 3 (boot_state (board 2 0) (\<lambda>_. 0)) =
     Some (Halted, (boot_state (board 2 0) (\<lambda>_. 0))\<lparr>io := es\<rparr>)"
  using stage2_alloc_out_of_range [of "board 2 0" 2 3] board_console.pl011_console_axioms [of 2 0]
  by (auto simp: MAX_VMS_def)



end
