(* ===== verification/Sched.thy ===== *)
theory Sched
  imports Vgic Stage2
begin

text \<open>
  The round-robin scheduler (\<open>src/src/sched.c\<close>): the EL2 timer, saving and loading a vCPU,
  vCPU creation, the first entry and the tick. \<open>NVCPU\<close> is the field \<open>nvcpu\<close> of the
  platform, so both builds (a single vCPU, and round-robin) are covered by one definition.
  A run of \<open>MSR\<close> statements is the list of its register writes, performed in order.
\<close>


section \<open>Constants\<close>

definition SLICE_MS :: u64 where [hyp_consts]: "SLICE_MS = 50"
definition LINUX_ENTRY_IPA :: u64 where [hyp_consts]: "LINUX_ENTRY_IPA = 0x48200000"
definition LINUX_DTB_IPA :: u64 where [hyp_consts]: "LINUX_DTB_IPA = 0x4C000000"
definition HCR_VM :: u64 where [hyp_consts]: "HCR_VM = push_bit 0 1"
definition HCR_IMO :: u64 where [hyp_consts]: "HCR_IMO = push_bit 4 1"
definition HCR_TWI :: u64 where [hyp_consts]: "HCR_TWI = push_bit 13 1"
definition HCR_RW :: u64 where [hyp_consts]: "HCR_RW = push_bit 31 1"
definition HCR_FLAGS :: u64 where [hyp_consts]: "HCR_FLAGS = HCR_RW OR HCR_TWI OR HCR_IMO OR HCR_VM"
definition SPSR_EL1H_DAIF :: u64 where [hyp_consts]: "SPSR_EL1H_DAIF = 0x3C5"


section \<open>EL2 timer\<close>

definition arm_hyp_timer_ms :: "platform \<Rightarrow> u64 \<Rightarrow> hyp \<Rightarrow> hyp" where
  "arm_hyp_timer_ms p ms s =
     (let (freq, s) = mrs_dev p CNTFRQ_EL0 s;
          (now, s) = mrs_dev p CNTPCT_EL0 s;
          cval = now + (freq * ms) div 1000;
          s = msr CNTHP_CVAL_EL2 cval s
      in msr CNTHP_CTL_EL2 1 s)"

definition sched_rearm_tick :: "platform \<Rightarrow> hyp \<Rightarrow> hyp" where
  "sched_rearm_tick p s = arm_hyp_timer_ms p SLICE_MS s"


section \<open>Saving and loading a vCPU\<close>

primrec msrs :: "(sysreg \<times> u64) list \<Rightarrow> hyp \<Rightarrow> hyp" where
  "msrs [] s = s"
| "msrs (w # ws) s = msrs ws (msr (fst w) (snd w) s)"

definition save_vcpu :: "vcpu \<Rightarrow> trap_frame \<Rightarrow> hyp \<Rightarrow> vcpu" where
  "save_vcpu v tf s = v\<lparr>
     v_x := map (\<lambda>i. tf_x tf ! i) [0..<31],
     v_elr_el2 := tf_elr_el2 tf,
     v_spsr_el2 := tf_spsr_el2 tf,
     v_vttbr_el2 := mrs VTTBR_EL2 s,
     v_hcr_el2 := mrs HCR_EL2 s,
     v_cntv_cval := mrs CNTV_CVAL_EL0 s,
     v_cntv_ctl := mrs CNTV_CTL_EL0 s,
     v_sctlr_el1 := mrs SCTLR_EL1 s,
     v_ttbr0_el1 := mrs TTBR0_EL1 s,
     v_ttbr1_el1 := mrs TTBR1_EL1 s,
     v_tcr_el1 := mrs TCR_EL1 s,
     v_mair_el1 := mrs MAIR_EL1 s,
     v_amair_el1 := mrs AMAIR_EL1 s,
     v_vbar_el1 := mrs VBAR_EL1 s,
     v_contextidr_el1 := mrs CONTEXTIDR_EL1 s,
     v_cpacr_el1 := mrs CPACR_EL1 s,
     v_elr_el1 := mrs ELR_EL1 s,
     v_spsr_el1 := mrs SPSR_EL1 s,
     v_sp_el1 := mrs SP_EL1 s,
     v_sp_el0 := mrs SP_EL0 s,
     v_tpidr_el0 := mrs TPIDR_EL0 s,
     v_tpidrro_el0 := mrs TPIDRRO_EL0 s,
     v_tpidr_el1 := mrs TPIDR_EL1 s,
     v_esr_el1 := mrs ESR_EL1 s,
     v_far_el1 := mrs FAR_EL1 s,
     v_par_el1 := mrs PAR_EL1 s\<rparr>"

definition load_writes :: "vcpu \<Rightarrow> (sysreg \<times> u64) list" where
  "load_writes v =
     [(VTTBR_EL2, v_vttbr_el2 v),
      (HCR_EL2, v_hcr_el2 v),
      (CNTV_CVAL_EL0, v_cntv_cval v),
      (CNTV_CTL_EL0, v_cntv_ctl v),
      (SCTLR_EL1, 0),
      (TTBR0_EL1, v_ttbr0_el1 v),
      (TTBR1_EL1, v_ttbr1_el1 v),
      (TCR_EL1, v_tcr_el1 v),
      (MAIR_EL1, v_mair_el1 v),
      (AMAIR_EL1, v_amair_el1 v),
      (VBAR_EL1, v_vbar_el1 v),
      (CONTEXTIDR_EL1, v_contextidr_el1 v),
      (CPACR_EL1, v_cpacr_el1 v),
      (ELR_EL1, v_elr_el1 v),
      (SPSR_EL1, v_spsr_el1 v),
      (SP_EL1, v_sp_el1 v),
      (SP_EL0, v_sp_el0 v),
      (TPIDR_EL0, v_tpidr_el0 v),
      (TPIDRRO_EL0, v_tpidrro_el0 v),
      (TPIDR_EL1, v_tpidr_el1 v),
      (ESR_EL1, v_esr_el1 v),
      (FAR_EL1, v_far_el1 v),
      (PAR_EL1, v_par_el1 v),
      (SCTLR_EL1, v_sctlr_el1 v)]"

definition load_vcpu :: "vcpu \<Rightarrow> trap_frame \<Rightarrow> hyp \<Rightarrow> trap_frame \<times> hyp" where
  "load_vcpu v tf s =
     (tf\<lparr>tf_x := map (\<lambda>i. v_x v ! i) [0..<31],
         tf_elr_el2 := v_elr_el2 v,
         tf_spsr_el2 := v_spsr_el2 v\<rparr>,
      tlbi (msrs (load_writes v) s))"


section \<open>Creation, first entry, tick\<close>

definition upd_vcpu :: "nat \<Rightarrow> (vcpu \<Rightarrow> vcpu) \<Rightarrow> hyp \<Rightarrow> hyp" where
  "upd_vcpu i f s = s\<lparr>vcpus := (vcpus s)[i := f (vcpus s ! i)]\<rparr>"

definition init_vcpu :: "platform \<Rightarrow> u32 \<Rightarrow> u32 \<Rightarrow> u64 \<Rightarrow> hyp \<Rightarrow> (unit outcome \<times> hyp) option" where
  "init_vcpu p i vmid stack_top s =
     (let n = unat i;
          s = upd_vcpu n (\<lambda>v. v\<lparr>v_x := replicate 31 0\<rparr>) s;
          s = s\<lparr>guest_states := (guest_states s)[n :=
                  \<lparr>gs_id = i, gs_ticks = 0, gs_tick_period = 0\<rparr>]\<rparr>;
          s = upd_vcpu n (\<lambda>v. v\<lparr>v_id := i, v_vmid := vmid\<rparr>) s
      in do {
        (r, s) \<leftarrow> stage2_alloc_vm p i vmid s;
        (case r of
           Ret vttbr \<Rightarrow>
             let s = upd_vcpu n (\<lambda>v. v\<lparr>
                       v_vttbr_el2 := vttbr,
                       v_sp_el1 := stack_top,
                       v_elr_el2 := addr_guest_entry_common p,
                       v_spsr_el2 := SPSR_EL1H_DAIF,
                       v_hcr_el2 := HCR_FLAGS,
                       v_cntv_cval := 0,
                       v_cntv_ctl := 0,
                       v_tpidr_el1 := addr_guest_states p + ucast i * 24,
                       v_x := (v_x v)[0 := ucast i]\<rparr>) s
             in Some (Ret (), vgic_init i s)
         | Halted \<Rightarrow> Some (Halted, s)
         | Eret \<Rightarrow> Some (Eret, s)) })"

definition sched_init :: "platform \<Rightarrow> hyp \<Rightarrow> (unit outcome \<times> hyp) option" where
  "sched_init p s = do {
     s \<leftarrow> stage2_global_init p s;
     (r, s) \<leftarrow> init_vcpu p 0 1 (guest_stack_top_a p) s;
     (if r \<noteq> Ret () then Some (r, s) else do {
        let s = upd_vcpu 0 (\<lambda>v. v\<lparr>v_elr_el2 := LINUX_ENTRY_IPA,
                  v_x := (v_x v)[0 := LINUX_DTB_IPA, 1 := 0, 2 := 0, 3 := 0]\<rparr>) s;
        (r, s) \<leftarrow> (if nvcpu p > 1 then init_vcpu p 1 2 (guest_stack_top_b p) s
                   else Some (Ret (), s));
        (if r \<noteq> Ret () then Some (r, s) else do {
           s \<leftarrow> kprint p [Str ''[sched] initialised '', Hex (ucast (nvcpu p)),
                   Str '' vCPU(s), slice='', Hex SLICE_MS, Str '' ms; vCPU0 -> Linux@'',
                   Hex LINUX_ENTRY_IPA, Str '' DTB@'', Hex LINUX_DTB_IPA, Str NL]
                  (s\<lparr>current := 0\<rparr>);
           Some (Ret (), s) }) }) }"

text \<open>The first entry leaves through \<open>eret\<close>; the result is the content of \<open>x0\<close> to \<open>x3\<close>.\<close>

definition sched_start :: "platform \<Rightarrow> hyp \<Rightarrow> (u64 list \<times> hyp) option" where
  "sched_start p s =
     (let v = current_vcpu s;
          s = msrs [(HCR_EL2, v_hcr_el2 v), (SP_EL1, v_sp_el1 v), (VTTBR_EL2, v_vttbr_el2 v),
                    (CNTV_CVAL_EL0, v_cntv_cval v), (CNTV_CTL_EL0, v_cntv_ctl v),
                    (TPIDR_EL1, v_tpidr_el1 v), (ELR_EL2, v_elr_el2 v), (SPSR_EL2, v_spsr_el2 v)] s;
          s = arm_hyp_timer_ms p SLICE_MS s
      in do {
        s \<leftarrow> kprint p [Str (''[sched] ERET into vCPU 0'' @ NL)] s;
        Some ([v_x v ! 0, v_x v ! 1, v_x v ! 2, v_x v ! 3], s) })"

definition sched_tick :: "platform \<Rightarrow> trap_frame \<Rightarrow> hyp \<Rightarrow> trap_frame \<times> hyp" where
  "sched_tick p tf s =
     (if nvcpu p > 1 then
        let s = upd_vcpu (unat (current s)) (\<lambda>v. save_vcpu v tf s) s;
            s = s\<lparr>current := (current s + 1) mod nvcpu p\<rparr>;
            (tf, s) = load_vcpu (current_vcpu s) tf s
        in (tf, arm_hyp_timer_ms p SLICE_MS s)
      else (tf, s))"


section \<open>Frames\<close>

lemma msr_fields [simp]:
  "vgics (msr r v s) = vgics s" "vcpus (msr r v s) = vcpus s" "current (msr r v s) = current s"
  "sys (msr r v s) = (sys s)(r := v)" "io (msr r v s) = io s @ [Msr r v]"
  "exit_ring (msr r v s) = exit_ring s" "exit_ring_head (msr r v s) = exit_ring_head s"
  "exit_ring_count (msr r v s) = exit_ring_count s"
  by (simp_all add: msr_def)

lemma msrs_fields [simp]:
  "vgics (msrs ws s) = vgics s" "vcpus (msrs ws s) = vcpus s" "current (msrs ws s) = current s"
  "io (msrs ws s) = io s @ map (\<lambda>w. Msr (fst w) (snd w)) ws"
  "exit_ring (msrs ws s) = exit_ring s" "exit_ring_head (msrs ws s) = exit_ring_head s"
  "exit_ring_count (msrs ws s) = exit_ring_count s"
  by (induction ws arbitrary: s) simp_all

lemma sys_msrs: "sys (msrs ws s) = fold (\<lambda>w f. f(fst w := snd w)) ws (sys s)"
  by (induction ws arbitrary: s) simp_all

lemma tlbi_fields [simp]:
  "vgics (tlbi s) = vgics s" "vcpus (tlbi s) = vcpus s" "current (tlbi s) = current s"
  "sys (tlbi s) = sys s" "io (tlbi s) = io s @ [Tlbi]"
  "exit_ring (tlbi s) = exit_ring s" "exit_ring_head (tlbi s) = exit_ring_head s"
  "exit_ring_count (tlbi s) = exit_ring_count s"
  by (simp_all add: tlbi_def)

lemma arm_hyp_timer_fields [simp]:
  "vgics (arm_hyp_timer_ms p ms s) = vgics s" "vcpus (arm_hyp_timer_ms p ms s) = vcpus s"
  "current (arm_hyp_timer_ms p ms s) = current s"
  "exit_ring (arm_hyp_timer_ms p ms s) = exit_ring s"
  "exit_ring_head (arm_hyp_timer_ms p ms s) = exit_ring_head s"
  "exit_ring_count (arm_hyp_timer_ms p ms s) = exit_ring_count s"
  "r \<noteq> CNTHP_CVAL_EL2 \<Longrightarrow> r \<noteq> CNTHP_CTL_EL2 \<Longrightarrow> sys (arm_hyp_timer_ms p ms s) r = sys s r"
  by (simp_all add: arm_hyp_timer_ms_def Let_def mrs_dev_def)

lemma arm_hyp_timer_deadline:
  fixes p s
  defines "freq \<equiv> dev_mrs p (io s) CNTFRQ_EL0"
  defines "now \<equiv> dev_mrs p (io s @ [Mrs CNTFRQ_EL0 freq]) CNTPCT_EL0"
  shows "sys (arm_hyp_timer_ms p ms s) CNTHP_CVAL_EL2 = now + freq * ms div 1000"
    and "sys (arm_hyp_timer_ms p ms s) CNTHP_CTL_EL2 = 1"
  by (simp_all add: arm_hyp_timer_ms_def Let_def mrs_dev_def freq_def now_def)


section \<open>The guest's context\<close>

text \<open>
  Everything a guest can observe of the CPU: the trap frame and the system registers that
  are shared hardware between vCPUs, and the same data parked in a \<open>vcpu\<close>.
\<close>

definition ctx_regs :: "sysreg list" where
  "ctx_regs = [VTTBR_EL2, HCR_EL2, CNTV_CVAL_EL0, CNTV_CTL_EL0, SCTLR_EL1, TTBR0_EL1, TTBR1_EL1,
     TCR_EL1, MAIR_EL1, AMAIR_EL1, VBAR_EL1, CONTEXTIDR_EL1, CPACR_EL1, ELR_EL1, SPSR_EL1, SP_EL1,
     SP_EL0, TPIDR_EL0, TPIDRRO_EL0, TPIDR_EL1, ESR_EL1, FAR_EL1, PAR_EL1]"

definition ctx_of :: "trap_frame \<Rightarrow> hyp \<Rightarrow> u64 list \<times> u64 \<times> u64 \<times> u64 list" where
  "ctx_of tf s = (tf_x tf, tf_elr_el2 tf, tf_spsr_el2 tf, map (sys s) ctx_regs)"

definition vcpu_ctx :: "vcpu \<Rightarrow> u64 list \<times> u64 \<times> u64 \<times> u64 list" where
  "vcpu_ctx v = (v_x v, v_elr_el2 v, v_spsr_el2 v,
     [v_vttbr_el2 v, v_hcr_el2 v, v_cntv_cval v, v_cntv_ctl v, v_sctlr_el1 v, v_ttbr0_el1 v,
      v_ttbr1_el1 v, v_tcr_el1 v, v_mair_el1 v, v_amair_el1 v, v_vbar_el1 v, v_contextidr_el1 v,
      v_cpacr_el1 v, v_elr_el1 v, v_spsr_el1 v, v_sp_el1 v, v_sp_el0 v, v_tpidr_el0 v,
      v_tpidrro_el0 v, v_tpidr_el1 v, v_esr_el1 v, v_far_el1 v, v_par_el1 v])"

lemma map_nth_31: "length xs = 31 \<Longrightarrow> map (\<lambda>i. xs ! i) [0..<31] = xs"
  by (metis map_nth)

lemma save_vcpu_ctx: "length (tf_x tf) = 31 \<Longrightarrow> vcpu_ctx (save_vcpu v tf s) = ctx_of tf s"
  by (simp only: map_nth_31 vcpu_ctx_def save_vcpu_def ctx_of_def ctx_regs_def mrs_def) simp

lemma save_vcpu_id [simp]:
  "v_id (save_vcpu v tf s) = v_id v" "v_vmid (save_vcpu v tf s) = v_vmid v"
  "v_hcr_el2 (save_vcpu v tf s) = sys s HCR_EL2" "length (v_x (save_vcpu v tf s)) = 31"
  by (simp_all add: save_vcpu_def mrs_def)

lemma load_vcpu_ctx:
  "length (v_x v) = 31 \<Longrightarrow> ctx_of (fst (load_vcpu v tf s)) (snd (load_vcpu v tf s)) = vcpu_ctx v"
  by (simp only: map_nth_31 vcpu_ctx_def load_vcpu_def ctx_of_def ctx_regs_def)
     (simp add: sys_msrs load_writes_def)

lemma ctx_of_arm_timer [simp]: "ctx_of tf (arm_hyp_timer_ms p ms s) = ctx_of tf s"
  by (simp add: ctx_of_def ctx_regs_def)

lemma load_vcpu_fields [simp]:
  "vgics (snd (load_vcpu v tf s)) = vgics s" "vcpus (snd (load_vcpu v tf s)) = vcpus s"
  "current (snd (load_vcpu v tf s)) = current s"
  "exit_ring (snd (load_vcpu v tf s)) = exit_ring s"
  "exit_ring_head (snd (load_vcpu v tf s)) = exit_ring_head s"
  "exit_ring_count (snd (load_vcpu v tf s)) = exit_ring_count s"
  "sys (snd (load_vcpu v tf s)) HCR_EL2 = v_hcr_el2 v"
  "length (tf_x (fst (load_vcpu v tf s))) = 31"
  by (simp_all add: load_vcpu_def sys_msrs load_writes_def)


section \<open>One tick\<close>

definition sched_ok :: "platform \<Rightarrow> hyp \<Rightarrow> bool" where
  "sched_ok p s \<longleftrightarrow> 0 < nvcpu p \<and> length (vcpus s) = unat (nvcpu p) \<and> current s < nvcpu p
     \<and> (\<forall>i < length (vcpus s). length (v_x (vcpus s ! i)) = 31)"

lemma unat_next:
  assumes "c < n"
  shows "unat ((c + 1) mod n) = (unat c + 1) mod unat (n :: u32)"
proof -
  have "unat c + 1 \<le> unat n" using assms by (simp add: word_less_nat_alt)
  also have "unat n < 2 ^ 32" using unsigned_less [of n] by simp
  finally have "unat (c + 1) = unat c + 1" by (simp add: unat_word_ariths)
  then show ?thesis by (simp add: unat_mod_distrib)
qed

lemma sched_tick_single: "\<not> nvcpu p > 1 \<Longrightarrow> sched_tick p tf s = (tf, s)"
  by (simp add: sched_tick_def)

lemma sched_tick_effect:
  assumes ok: "sched_ok p s" and n: "nvcpu p > 1" and x: "length (tf_x tf) = 31"
  defines "c \<equiv> unat (current s)" and "c' \<equiv> (unat (current s) + 1) mod unat (nvcpu p)"
  shows "unat (current (snd (sched_tick p tf s))) = c'"
    and "vcpus (snd (sched_tick p tf s)) = (vcpus s)[c := save_vcpu (vcpus s ! c) tf s]"
    and "ctx_of (fst (sched_tick p tf s)) (snd (sched_tick p tf s)) = vcpu_ctx (vcpus s ! c')"
    and "sys (snd (sched_tick p tf s)) HCR_EL2 = v_hcr_el2 (vcpus s ! c')"
    and "c' < length (vcpus s)" and "c' \<noteq> c"
proof -
  have cn: "current s < nvcpu p" using ok by (simp add: sched_ok_def)
  have len: "length (vcpus s) = unat (nvcpu p)" using ok by (simp add: sched_ok_def)
  have u: "unat ((current s + 1) mod nvcpu p) = c'" unfolding c'_def using cn by (rule unat_next)
  have n2: "1 < unat (nvcpu p)" using n by (simp add: word_less_nat_alt)
  show lt: "c' < length (vcpus s)" using n2 len by (simp add: c'_def)
  have c: "c < unat (nvcpu p)" using cn by (simp add: c_def word_less_nat_alt)
  show ne: "c' \<noteq> c"
  proof (cases "c + 1 = unat (nvcpu p)")
    case True
    then show ?thesis using n2 by (auto simp: c'_def simp flip: c_def)
  next
    case False
    then have "(c + 1) mod unat (nvcpu p) = c + 1" using c by simp
    then show ?thesis by (simp add: c'_def flip: c_def)
  qed
  have len': "length (v_x (vcpus s ! c')) = 31" using ok lt by (simp add: sched_ok_def)
  let ?s1 = "upd_vcpu c (\<lambda>v. save_vcpu v tf s) s"
  have t: "sched_tick p tf s =
      (fst (load_vcpu (vcpus s ! c') tf (?s1\<lparr>current := (current s + 1) mod nvcpu p\<rparr>)),
       arm_hyp_timer_ms p SLICE_MS
         (snd (load_vcpu (vcpus s ! c') tf (?s1\<lparr>current := (current s + 1) mod nvcpu p\<rparr>))))"
    using n u ne by (simp add: sched_tick_def Let_def split_beta c_def current_vcpu_def upd_vcpu_def)
  show "unat (current (snd (sched_tick p tf s))) = c'"
    and "vcpus (snd (sched_tick p tf s)) = (vcpus s)[c := save_vcpu (vcpus s ! c) tf s]"
    and "sys (snd (sched_tick p tf s)) HCR_EL2 = v_hcr_el2 (vcpus s ! c')"
    unfolding t by (simp_all add: u upd_vcpu_def)
  show "ctx_of (fst (sched_tick p tf s)) (snd (sched_tick p tf s)) = vcpu_ctx (vcpus s ! c')"
    unfolding t by (simp add: load_vcpu_ctx [OF len'])
qed

lemma sched_tick_tf_len:
  "length (tf_x tf) = 31 \<Longrightarrow> length (tf_x (fst (sched_tick p tf s))) = 31"
  by (simp add: sched_tick_def Let_def split_beta)

lemma sched_tick_fields [simp]:
  "vgics (snd (sched_tick p tf s)) = vgics s"
  "exit_ring (snd (sched_tick p tf s)) = exit_ring s"
  "exit_ring_head (snd (sched_tick p tf s)) = exit_ring_head s"
  "exit_ring_count (snd (sched_tick p tf s)) = exit_ring_count s"
  by (simp_all add: sched_tick_def Let_def split_beta upd_vcpu_def)

lemma sched_tick_ok:
  assumes ok: "sched_ok p s" and x: "length (tf_x tf) = 31"
  shows "sched_ok p (snd (sched_tick p tf s))"
proof (cases "nvcpu p > 1")
  case True
  note e = sched_tick_effect [OF ok True x]
  have "current (snd (sched_tick p tf s)) < nvcpu p"
    using e(1,5) ok by (simp add: word_less_nat_alt sched_ok_def)
  then show ?thesis
    using ok unfolding sched_ok_def e(2) by (auto simp: nth_list_update_if)
qed (use ok in \<open>simp add: sched_tick_single\<close>)


section \<open>Time slices\<close>

text \<open>
  Between two ticks the running guest and the trap handlers do what they like to the trap
  frame, the system registers and the devices; they do not write the parked vCPUs.
\<close>

type_synonym activity = "trap_frame \<times> hyp \<Rightarrow> trap_frame \<times> hyp"

definition respects_vcpus :: "activity \<Rightarrow> bool" where
  "respects_vcpus g \<longleftrightarrow> (\<forall>tf s. vcpus (snd (g (tf, s))) = vcpus s \<and> current (snd (g (tf, s))) = current s
     \<and> (length (tf_x tf) = 31 \<longrightarrow> length (tf_x (fst (g (tf, s)))) = 31))"

fun run_slices :: "platform \<Rightarrow> activity list \<Rightarrow> trap_frame \<times> hyp \<Rightarrow> trap_frame \<times> hyp" where
  "run_slices p [] st = st"
| "run_slices p (g # gs) st = run_slices p gs (sched_tick p (fst (g st)) (snd (g st)))"

lemma respects_vcpusD:
  assumes "respects_vcpus g"
  shows "vcpus (snd (g (tf, s))) = vcpus s" and "current (snd (g (tf, s))) = current s"
    and "length (tf_x tf) = 31 \<Longrightarrow> length (tf_x (fst (g (tf, s)))) = 31"
    and "sched_ok p s \<Longrightarrow> sched_ok p (snd (g (tf, s)))"
  using assms by (auto simp: respects_vcpus_def sched_ok_def)

lemma mod_shift_neq:
  assumes "0 < d" and "d < (n::nat)" and "k < n"
  shows "(k + d) mod n \<noteq> k"
  using assms by (cases "k + d < n") (auto simp: mod_if)

lemma run_slices_resume:
  assumes "sched_ok p s" and "nvcpu p > 1" and "length (tf_x tf) = 31"
    and "\<forall>g \<in> set gs. respects_vcpus g" and "gs \<noteq> []" and "length gs < unat (nvcpu p)"
    and "(unat (current s) + length gs) mod unat (nvcpu p) = c"
  shows "unat (current (snd (run_slices p gs (tf, s)))) = c
    \<and> ctx_of (fst (run_slices p gs (tf, s))) (snd (run_slices p gs (tf, s))) = vcpu_ctx (vcpus s ! c)"
  using assms
proof (induction gs arbitrary: tf s)
  case (Cons g gs)
  let ?n = "unat (nvcpu p)" and ?g = "g (tf, s)"
  have g: "respects_vcpus g" using Cons.prems(4) by simp
  note gD = respects_vcpusD [OF g]
  have ok: "sched_ok p (snd ?g)" and x: "length (tf_x (fst ?g)) = 31"
    using gD(3,4) Cons.prems(1,3) by blast+
  note e = sched_tick_effect [OF ok Cons.prems(2) x]
  let ?t = "sched_tick p (fst ?g) (snd ?g)"
  have cur: "unat (current (snd ?t)) = (unat (current s) + 1) mod ?n"
    using e(1) by (simp add: gD)
  have k: "unat (current s) < ?n"
    using Cons.prems(1) by (simp add: sched_ok_def word_less_nat_alt)
  show ?case
  proof (cases "gs = []")
    case True
    then show ?thesis using e(1,3) Cons.prems(7) by (simp add: gD)
  next
    case False
    have ne: "unat (current s) \<noteq> c"
      using mod_shift_neq [of "length (g # gs)" ?n "unat (current s)"] Cons.prems(6,7) k by simp
    have "(unat (current (snd ?t)) + length gs) mod ?n = c"
      unfolding cur using Cons.prems(7) by (simp add: mod_add_left_eq)
    then have "unat (current (snd (run_slices p gs (fst ?t, snd ?t)))) = c
      \<and> ctx_of (fst (run_slices p gs (fst ?t, snd ?t))) (snd (run_slices p gs (fst ?t, snd ?t)))
          = vcpu_ctx (vcpus (snd ?t) ! c)"
      using Cons.prems False
      by (intro Cons.IH sched_tick_ok [OF ok x] sched_tick_tf_len [OF x]) auto
    moreover have "vcpus (snd ?t) ! c = vcpus s ! c"
      using ne by (simp add: e(2) gD)
    ultimately show ?thesis by simp
  qed
qed simp

text \<open>A full round: the vCPU that was switched out gets its context back, unchanged.\<close>

lemma round_robin_restores:
  assumes ok: "sched_ok p s" and n: "nvcpu p > 1" and x: "length (tf_x tf) = 31"
    and gs: "\<forall>g \<in> set gs. respects_vcpus g" "length gs = unat (nvcpu p) - 1"
  shows "unat (current (snd (run_slices p gs (sched_tick p tf s)))) = unat (current s)"
    and "ctx_of (fst (run_slices p gs (sched_tick p tf s))) (snd (run_slices p gs (sched_tick p tf s)))
       = ctx_of tf s"
proof -
  let ?t = "sched_tick p tf s" and ?c = "unat (current s)" and ?n = "unat (nvcpu p)"
  note e = sched_tick_effect [OF ok n x]
  have n2: "1 < ?n" using n by (simp add: word_less_nat_alt)
  have k: "?c < ?n" using ok by (simp add: sched_ok_def word_less_nat_alt)
  have "(unat (current (snd ?t)) + length gs) mod ?n = (?c + 1 + (?n - 1)) mod ?n"
    unfolding e(1) gs(2) by (simp add: mod_add_left_eq)
  also have "\<dots> = ?c" using n2 k by simp
  finally have m: "(unat (current (snd ?t)) + length gs) mod ?n = ?c" .
  have "gs \<noteq> []" "length gs < ?n" using gs(2) n2 by auto
  with run_slices_resume [OF sched_tick_ok [OF ok x] n sched_tick_tf_len [OF x, where p = p and s = s] gs(1) _ _ m]
  have r: "unat (current (snd (run_slices p gs (fst ?t, snd ?t)))) = ?c"
    "ctx_of (fst (run_slices p gs (fst ?t, snd ?t))) (snd (run_slices p gs (fst ?t, snd ?t)))
      = vcpu_ctx (vcpus (snd ?t) ! ?c)"
    by auto
  have "vcpus (snd ?t) ! ?c = save_vcpu (vcpus s ! ?c) tf s"
    using k ok by (simp add: e(2) sched_ok_def)
  with r show "unat (current (snd (run_slices p gs ?t))) = ?c"
    and "ctx_of (fst (run_slices p gs ?t)) (snd (run_slices p gs ?t)) = ctx_of tf s"
    by (simp_all add: save_vcpu_ctx [OF x])
qed


section \<open>The MMU is off while the tables change\<close>

text \<open>
  The last value written to \<open>SCTLR_EL1\<close> in a trace, and the rule that every translation
  register is written while that value is zero.
\<close>

fun sctlr_safe :: "u64 \<Rightarrow> event list \<Rightarrow> bool" where
  "sctlr_safe v [] = True"
| "sctlr_safe v (Msr r x # es) =
     ((r \<in> {TTBR0_EL1, TTBR1_EL1, TCR_EL1, MAIR_EL1} \<longrightarrow> v = 0) \<and>
      sctlr_safe (if r = SCTLR_EL1 then x else v) es)"
| "sctlr_safe v (e # es) = sctlr_safe v es"

lemma load_vcpu_sctlr_safe:
  "\<exists>es. io (snd (load_vcpu v tf s)) = io s @ es \<and> sctlr_safe (sys s SCTLR_EL1) es"
  by (simp add: load_vcpu_def load_writes_def)


section \<open>The interrupt lines of all vCPUs\<close>

text \<open>
  \<open>HCR_EL2.VI\<close> is live in the register for the running vCPU and parked in \<open>hcr_el2\<close> for the
  others. The hypervisor-wide invariant: every vCPU has its own number, and its line is
  high exactly when its software interface has something pending.
\<close>

definition line_of :: "hyp \<Rightarrow> nat \<Rightarrow> bool" where
  "line_of s i = vi_of (if i = unat (current s) then sys s HCR_EL2 else v_hcr_el2 (vcpus s ! i))"

definition hyp_inv :: "platform \<Rightarrow> hyp \<Rightarrow> bool" where
  "hyp_inv p s \<longleftrightarrow> sched_ok p s \<and> nvcpu p \<le> 4 \<and> length (vgics s) = 4 \<and>
     (\<forall>i < length (vcpus s). v_id (vcpus s ! i) = of_nat i \<and> vgic_wf (vgics s ! i) \<and>
        (line_of s i \<longleftrightarrow> pending_mask (vgics s ! i) \<noteq> 0))"

text \<open>An operation on the interface of one vCPU.\<close>

definition only_vgic :: "u32 \<Rightarrow> hyp \<Rightarrow> hyp \<Rightarrow> bool" where
  "only_vgic vid s s' \<longleftrightarrow> vcpus s' = vcpus s \<and> current s' = current s
     \<and> length (vgics s') = length (vgics s) \<and> (\<forall>i. i \<noteq> unat vid \<longrightarrow> vgics s' ! i = vgics s ! i)"

lemma only_vgic_refl [simp]: "only_vgic vid s s"
  by (simp add: only_vgic_def)

lemma only_vgic_upd [simp]:
  "only_vgic vid s (upd_vgic vid f t) = only_vgic vid s t"
  "only_vgic vid s (store w a v t) = only_vgic vid s t"
  "only_vgic vid s (set_vi on t) = only_vgic vid s t"
  "only_vgic vid s (msr r rv t) = only_vgic vid s t"
  "only_vgic vid s (t\<lparr>io := tr\<rparr>) = only_vgic vid s t"
  by (auto simp: only_vgic_def vgics_upd_vgic_other)

lemma only_vgic_ops:
  "only_vgic vid s (vgic_inject vid i s)" "only_vgic vid s (vgic_forward_spi vid i iar s)"
  "only_vgic vid s (vgic_ack_all vid s)" "only_vgic vid s (write_reg vid off val s)"
  "only_vgic vid s (snd (read_reg vid off s))"
  by (simp_all add: vgic_inject_def vgic_forward_spi_def vgic_ack_all_def write_reg_def read_reg_def
      write_eoir_def read_iar_def Let_def)

lemma hyp_inv_current:
  assumes "hyp_inv p s"
  shows "v_id (current_vcpu s) = current s" and "vgic_inv (current s) s"
proof -
  have lt: "unat (current s) < length (vcpus s)"
    using assms by (simp add: hyp_inv_def sched_ok_def word_less_nat_alt)
  with assms show "v_id (current_vcpu s) = current s"
    by (simp add: hyp_inv_def current_vcpu_def)
  have "length (vcpus s) \<le> 4" using assms by (simp add: hyp_inv_def sched_ok_def word_le_nat_alt)
  with lt assms show "vgic_inv (current s) s"
    by (auto simp: hyp_inv_def vgic_inv_def vgic_of_def line_of_def dest: spec [of _ "unat (current s)"])
qed

lemma hyp_inv_local:
  assumes "hyp_inv p s" and "only_vgic (current s) s s'" and "vgic_inv (current s) s'"
  shows "hyp_inv p s'"
  using assms
  by (auto simp: hyp_inv_def sched_ok_def only_vgic_def line_of_def vgic_inv_def vgic_of_def)

lemma hyp_inv_io [simp]: "hyp_inv p (s\<lparr>io := t\<rparr>) = hyp_inv p s"
  by (simp add: hyp_inv_def sched_ok_def line_of_def)

lemma hyp_inv_store [simp]: "hyp_inv p (store w a v s) = hyp_inv p s"
  by (simp add: store_def)

lemma hyp_inv_ticks [simp]:
  "hyp_inv p (s\<lparr>htimer_ticks := n\<rparr>) = hyp_inv p s" "hyp_inv p (s\<lparr>vtimer_ticks := n\<rparr>) = hyp_inv p s"
  "hyp_inv p (s\<lparr>other_ticks := n\<rparr>) = hyp_inv p s"
  by (simp_all add: hyp_inv_def sched_ok_def line_of_def)

lemma hyp_inv_msr: "r \<noteq> HCR_EL2 \<Longrightarrow> hyp_inv p (msr r v s) = hyp_inv p s"
  by (simp add: hyp_inv_def sched_ok_def line_of_def)

lemma hyp_inv_arm_timer [simp]: "hyp_inv p (arm_hyp_timer_ms p' ms s) = hyp_inv p s"
  by (simp add: hyp_inv_def sched_ok_def line_of_def)

lemma hyp_inv_vgic_ops:
  assumes "hyp_inv p s"
  shows "hyp_inv p (vgic_inject (current s) i s)"
    and "hyp_inv p (vgic_forward_spi (current s) i iar s)"
    and "hyp_inv p (vgic_ack_all (current s) s)"
    and "hyp_inv p (write_reg (current s) off val s)"
    and "hyp_inv p (snd (read_reg (current s) off s))"
  using hyp_inv_local [OF assms] hyp_inv_current(2) [OF assms]
  by (simp_all add: only_vgic_ops wf_intros)

lemma sched_tick_hyp_inv:
  assumes inv: "hyp_inv p s" and x: "length (tf_x tf) = 31"
  shows "hyp_inv p (snd (sched_tick p tf s))"
proof (cases "nvcpu p > 1")
  case True
  have ok: "sched_ok p s" using inv by (simp add: hyp_inv_def)
  note e = sched_tick_effect [OF ok True x]
  have c: "unat (current s) < length (vcpus s)"
    using ok by (simp add: sched_ok_def word_less_nat_alt)
  have "line_of (snd (sched_tick p tf s)) i = line_of s i" if "i < length (vcpus s)" for i
    using that e(6) by (simp add: line_of_def e(1,2,4) nth_list_update_if)
  then show ?thesis
    using inv sched_tick_ok [OF ok x] c
    by (auto simp: hyp_inv_def e(2) nth_list_update_if)
qed (use inv in \<open>simp add: sched_tick_single\<close>)

section \<open>Properties\<close>

text \<open>
  C9. Round robin is transparent: after the vCPU is switched out and every other vCPU has had
  its slice, doing whatever it likes to the trap frame, the system registers and the devices,
  the same vCPU is current again with all its general registers, its return state and its
  twenty-three system registers as they were.
\<close>

theorem round_robin_transparent:
  assumes "sched_ok p s" and "nvcpu p > 1" and "length (tf_x tf) = 31"
    and "\<forall>g \<in> set gs. respects_vcpus g" and "length gs = unat (nvcpu p) - 1"
  shows "let (tf', s') = run_slices p gs (sched_tick p tf s)
    in current s' = current s \<and> ctx_of tf' s' = ctx_of tf s"
  using round_robin_restores [OF assms] by (simp add: split_beta word_unat_eq_iff)

definition scribble :: activity where
  "scribble = (\<lambda>(tf, s). (tf\<lparr>tf_x := replicate 31 0xDEAD\<rparr>, msr TTBR0_EL1 0xBAD s))"

definition some_frame :: trap_frame where
  "some_frame = \<lparr>tf_x = replicate 31 7, tf_elr_el2 = 0x48200000, tf_spsr_el2 = 0x3C5\<rparr>"

theorem round_robin_transparent_witness:
  "let s = boot_state (board 2 0) (\<lambda>r. if r = TTBR0_EL1 then 0x1000 else 0);
       (tf', s') = run_slices (board 2 0) [scribble] (sched_tick (board 2 0) some_frame s)
   in tf_x tf' = replicate 31 7 \<and> sys s' TTBR0_EL1 = 0x1000"
proof -
  let ?s = "boot_state (board 2 0) (\<lambda>r. if r = TTBR0_EL1 then 0x1000 else 0)"
  have "sched_ok (board 2 0) ?s" by (simp add: sched_ok_def zero_vcpu_def)
  moreover have "\<forall>g \<in> set [scribble]. respects_vcpus g"
    by (simp add: respects_vcpus_def scribble_def msr_def)
  ultimately show ?thesis
    using round_robin_transparent [of "board 2 0" ?s some_frame "[scribble]"]
    by (simp add: some_frame_def split_beta ctx_of_def ctx_regs_def)
qed

text \<open>
  One tick with several vCPUs parks the running one and installs the next: the parked copy
  holds exactly the context the guest had, the guest that runs next has exactly the context it
  was parked with, and no other vCPU is written.
\<close>

theorem sched_tick_switches:
  assumes "sched_ok p s" and "nvcpu p > 1" and "length (tf_x tf) = 31"
  shows "let c = unat (current s); c' = (c + 1) mod unat (nvcpu p); (tf', s') = sched_tick p tf s
    in unat (current s') = c' \<and> c' \<noteq> c \<and> vcpu_ctx (vcpus s' ! c) = ctx_of tf s
      \<and> ctx_of tf' s' = vcpu_ctx (vcpus s ! c')
      \<and> (\<forall>i < length (vcpus s). i \<noteq> c \<longrightarrow> vcpus s' ! i = vcpus s ! i) \<and> sched_ok p s'"
proof -
  note e = sched_tick_effect [OF assms]
  have c: "unat (current s) < length (vcpus s)"
    using assms(1) by (simp add: sched_ok_def word_less_nat_alt)
  show ?thesis
    using e c save_vcpu_ctx [OF assms(3)] sched_tick_ok [OF assms(1,3)]
    by (simp add: Let_def split_beta)
qed

theorem sched_tick_switches_witness:
  "let (tf', s') = sched_tick (board 2 0) some_frame (boot_state (board 2 0) (\<lambda>_. 0))
   in current s' = 1 \<and> tf_x tf' = replicate 31 0"
proof -
  let ?s = "boot_state (board 2 0) (\<lambda>_. 0)"
  have "sched_ok (board 2 0) ?s" by (simp add: sched_ok_def zero_vcpu_def)
  from sched_tick_switches [OF this, of some_frame] show ?thesis
    by (simp add: some_frame_def Let_def split_beta ctx_of_def vcpu_ctx_def zero_vcpu_def
        word_unat_eq_iff mod_less)
qed

text \<open>
  C23. A vCPU switch never changes the stage-1 translation registers with the EL1 MMU on: from
  whatever \<open>SCTLR_EL1\<close> the outgoing guest left, every write to the table bases, the translation
  control and the memory attributes happens while \<open>SCTLR_EL1\<close> is zero, and the incoming
  guest's value is the last one written.
\<close>

theorem mmu_off_while_switching:
  "\<exists>es. io (snd (load_vcpu v tf s)) = io s @ es \<and> sctlr_safe (sys s SCTLR_EL1) es
     \<and> sys (snd (load_vcpu v tf s)) SCTLR_EL1 = v_sctlr_el1 v"
  using load_vcpu_sctlr_safe [of v tf s]
  by (simp add: load_vcpu_def sys_msrs load_writes_def)

text \<open>
  C24. The tick is programmed without overflow for any realistic counter: if the frequency is
  below 2 GHz and the counter has not passed \<open>2 ^ 63\<close>, the deadline is exactly \<open>SLICE_MS\<close>
  milliseconds ahead of the counter, in the future, and the timer is enabled.
\<close>

theorem tick_deadline_exact:
  assumes "unat (dev_mrs p (io s) CNTFRQ_EL0) < 2 ^ 31"
    and "unat (dev_mrs p (io s @ [Mrs CNTFRQ_EL0 (dev_mrs p (io s) CNTFRQ_EL0)]) CNTPCT_EL0) < 2 ^ 63"
  shows "let freq = dev_mrs p (io s) CNTFRQ_EL0;
      now = dev_mrs p (io s @ [Mrs CNTFRQ_EL0 freq]) CNTPCT_EL0; s' = sched_rearm_tick p s
    in unat (sys s' CNTHP_CVAL_EL2) = unat now + unat freq * 50 div 1000
       \<and> (20 \<le> unat freq \<longrightarrow> now < sys s' CNTHP_CVAL_EL2) \<and> sys s' CNTHP_CTL_EL2 = 1"
proof -
  define f where "f = dev_mrs p (io s) CNTFRQ_EL0"
  define n where "n = dev_mrs p (io s @ [Mrs CNTFRQ_EL0 f]) CNTPCT_EL0"
  have b: "unat f < 2 ^ 31" "unat n < 2 ^ 63" using assms by (simp_all add: f_def n_def)
  have m: "unat (f * 50) = unat f * 50" using b(1) by (simp add: unat_word_ariths)
  have q: "unat f * 50 div 1000 < 2 ^ 31" using b(1) by (simp add: div_less_iff_less_mult)
  have "unat (f * 50 div 1000) = unat f * 50 div 1000" by (simp add: unat_div_distrib m)
  then have c: "unat (n + f * 50 div 1000) = unat n + unat f * 50 div 1000"
    using b(2) q by (subst unat_word_ariths) simp
  have "20 \<le> unat f \<Longrightarrow> 0 < unat f * 50 div 1000" by (simp add: div_greater_zero_iff)
  then show ?thesis
    using c arm_hyp_timer_deadline [of p SLICE_MS s]
    by (simp add: sched_rearm_tick_def SLICE_MS_def Let_def word_less_nat_alt flip: f_def n_def)
qed

theorem tick_deadline_exact_witness:
  "sys (sched_rearm_tick (board 1 0) (boot_state (board 1 0) (\<lambda>_. 0))) CNTHP_CVAL_EL2 = 3125000"
  using tick_deadline_exact [of "board 1 0" "boot_state (board 1 0) (\<lambda>_. 0)"]
  by (simp add: Let_def word_unat_eq_iff)

lemma boot_hyp_inv: "hyp_inv (board 1 irq) (boot_state (board 1 irq) (\<lambda>_. 0))"
  by (simp add: hyp_inv_def sched_ok_def zero_vcpu_def zero_vgic_def vgic_wf_def line_of_def vi_of_def)

end
