(* ===== verification/Gic.thy ===== *)
theory Gic
  imports Sched
begin

text \<open>
  Physical GICv2 setup and the EL2 interrupt handler (\<open>src/src/gic.c\<close>). The handler reads
  the acknowledge register once and dispatches on the interrupt number; the three kinds it
  knows are the EL2 timer (scheduler tick), the guest's virtual timer and the PL011 line,
  whose physical end-of-interrupt is left to the guest.
\<close>


section \<open>Operations\<close>

definition pl011_rx_reassert :: "hyp \<Rightarrow> hyp" where
  "pl011_rx_reassert s =
     (let s = store W32 (0x09000000 + 0x38) 0x50 s;
          s = store W32 (GICD_BASE_PA + 0x104) (push_bit (unat (IRQ_PL011 - 32)) 1) s;
          s = store W8 (GICD_BASE_PA + 0x800 + ucast IRQ_PL011) 0x01 s
      in store W8 (GICD_BASE_PA + 0x400 + ucast IRQ_PL011) 0xA0 s)"

definition mmio_w :: "u64 \<Rightarrow> u64 \<Rightarrow> u32 \<Rightarrow> hyp \<Rightarrow> hyp" where
  "mmio_w base off v s = store W32 (base + off) v s"

definition mmio_r :: "platform \<Rightarrow> u64 \<Rightarrow> u64 \<Rightarrow> hyp \<Rightarrow> u32 \<times> hyp" where
  "mmio_r p base off s = load p W32 (base + off) s"

definition gic_init_el2 :: "platform \<Rightarrow> hyp \<Rightarrow> hyp option" where
  "gic_init_el2 p s =
     (let s = mmio_w GICD_BASE_PA GICD_CTLR 0x0 s;
          s = mmio_w GICD_BASE_PA (GICD_IGROUPR + 0) 0xffffffff s;
          s = mmio_w GICD_BASE_PA (GICD_IGROUPR + 4) 0xffffffff s;
          s = mmio_w GICD_BASE_PA 0x280 0x0000FFFF s;
          s = store W8 (GICD_BASE_PA + GICD_IPRIORITYR + ucast IRQ_VTIMER) 0x00 s;
          s = store W8 (GICD_BASE_PA + GICD_IPRIORITYR + ucast IRQ_HTIMER) 0x00 s;
          s = store W8 (GICD_BASE_PA + GICD_IPRIORITYR + ucast IRQ_PL011) 0xA0 s;
          s = store W8 (GICD_BASE_PA + 0x800 + ucast IRQ_PL011) 0x01 s;
          s = mmio_w GICD_BASE_PA (GICD_ISENABLER + 0)
                (push_bit (unat IRQ_VTIMER) 1 OR push_bit (unat IRQ_HTIMER) 1) s;
          s = mmio_w GICD_BASE_PA (GICD_ISENABLER + 4) (push_bit (unat (IRQ_PL011 - 32)) 1) s;
          s = mmio_w GICD_BASE_PA GICD_CTLR 0x3 s;
          s = mmio_w GICC_BASE_PA GICC_PMR 0xff s;
          s = mmio_w GICC_BASE_PA GICC_CTLR (0x3 OR push_bit 2 1) s;
          s = store W32 (0x09000000 + 0x38) 0x50 s
      in kprint p [Str (''[gic] GICv2 up; PPIs 26 (htimer) + 27 (vtimer), SPI 33 (pl011)'' @ NL)] s)"

definition gic_handle_physical_irq ::
  "platform \<Rightarrow> trap_frame \<Rightarrow> hyp \<Rightarrow> (trap_frame \<times> hyp) option" where
  "gic_handle_physical_irq p tf s =
     (let (iar, s) = mmio_r p GICC_BASE_PA GICC_IAR s;
          intid = iar AND 0x3ff
      in if intid = INTID_SPURIOUS then Some (tf, s)
         else if intid = IRQ_HTIMER then
           let s = s\<lparr>htimer_ticks := htimer_ticks s + 1\<rparr>;
               s = msr CNTHP_CTL_EL2 0 s;
               s = pl011_rx_reassert s;
               (tf, s) = sched_tick p tf s;
               s = sched_rearm_tick p s;
               s = mmio_w GICC_BASE_PA GICC_EOIR iar s
           in Some (tf, s)
         else if intid = IRQ_VTIMER then
           let s = s\<lparr>vtimer_ticks := vtimer_ticks s + 1\<rparr>;
               s = msr CNTV_CTL_EL0 0 s;
               s = vgic_inject (v_id (current_vcpu s)) IRQ_VTIMER s;
               s = mmio_w GICC_BASE_PA GICC_EOIR iar s
           in Some (tf, s)
         else if intid = IRQ_PL011 then do {
           s \<leftarrow> kprint p [Str ''[gic] pl011 rx -> vcpu'', Hex (ucast (v_id (current_vcpu s))), Str NL] s;
           Some (tf, vgic_forward_spi (v_id (current_vcpu s)) IRQ_PL011 iar s) }
         else do {
           let s = s\<lparr>other_ticks := other_ticks s + 1\<rparr>;
           let s = mmio_w GICC_BASE_PA GICC_EOIR iar s;
           s \<leftarrow> kprint p [Str ''[gic] unexpected phys IRQ '', Hex (ucast intid), Str NL] s;
           Some (tf, s) })"


lemma irq_distinct:
  "IRQ_HTIMER \<noteq> INTID_SPURIOUS" "IRQ_VTIMER \<noteq> INTID_SPURIOUS" "IRQ_PL011 \<noteq> INTID_SPURIOUS"
  "IRQ_VTIMER \<noteq> IRQ_HTIMER" "IRQ_PL011 \<noteq> IRQ_HTIMER" "IRQ_PL011 \<noteq> IRQ_VTIMER"
  by (simp_all add: hyp_consts)


section \<open>The invariant\<close>

lemma kprint_hyp_inv: "kprint p is s = Some s' \<Longrightarrow> hyp_inv q s' = hyp_inv q s"
  by (erule kprint_frame) simp

lemma current_vcpu_fields [simp]:
  "current_vcpu (s\<lparr>io := t\<rparr>) = current_vcpu s"
  "current_vcpu (s\<lparr>vtimer_ticks := n\<rparr>) = current_vcpu s"
  "current_vcpu (msr r v s) = current_vcpu s"
  by (simp_all add: current_vcpu_def)

lemma pl011_rx_reassert_inv [simp]: "hyp_inv p (pl011_rx_reassert s) = hyp_inv p s"
  by (simp add: pl011_rx_reassert_def Let_def)

lemma mmio_w_inv [simp]: "hyp_inv p (mmio_w b off v s) = hyp_inv p s"
  by (simp add: mmio_w_def)

lemma hyp_inv_inject_current:
  assumes "hyp_inv p s"
  shows "hyp_inv p (vgic_inject (v_id (current_vcpu s)) i s)"
    and "hyp_inv p (vgic_forward_spi (v_id (current_vcpu s)) i iar s)"
    and "hyp_inv p (vgic_ack_all (v_id (current_vcpu s)) s)"
  by (simp_all only: hyp_inv_current(1) [OF assms] hyp_inv_vgic_ops [OF assms])

lemma gic_handle_physical_irq_inv:
  assumes inv: "hyp_inv p s" and x: "length (tf_x tf) = 31"
    and ret: "gic_handle_physical_irq p tf s = Some (tf', s')"
  shows "hyp_inv p s' \<and> length (tf_x tf') = 31"
proof -
  obtain iar s1 where r: "mmio_r p GICC_BASE_PA GICC_IAR s = (iar, s1)" by (metis surj_pair)
  then have s1: "hyp_inv p s1" using inv load_snd by (fastforce simp: mmio_r_def)
  let ?h = "pl011_rx_reassert (msr CNTHP_CTL_EL2 0 (s1\<lparr>htimer_ticks := htimer_ticks s1 + 1\<rparr>))"
  let ?v = "msr CNTV_CTL_EL0 0 (s1\<lparr>vtimer_ticks := vtimer_ticks s1 + 1\<rparr>)"
  have h: "hyp_inv p ?h" and v: "hyp_inv p ?v" using s1 by (simp_all add: hyp_inv_msr)
  show ?thesis
    using ret x s1 sched_tick_hyp_inv [OF h x] sched_tick_tf_len [OF x, of p ?h]
      hyp_inv_inject_current(1) [OF v]
    by (auto simp: gic_handle_physical_irq_def r Let_def split_beta sched_rearm_tick_def
        kprint_hyp_inv hyp_inv_inject_current split: if_splits)
qed

section \<open>Physical interrupts are completed once\<close>

lemma phys_eois_uart: "list_all uart_ev es \<Longrightarrow> phys_eois es = []"
  by (induction es rule: phys_eois.induct) (auto simp: uart_ev_def hyp_consts)

lemma kprint_eois: "kprint p is s = Some s' \<Longrightarrow> phys_eois (io s') = phys_eois (io s)"
  by (auto elim!: kprint_frame simp: phys_eois_uart)

lemma msr_eois [simp]: "phys_eois (io (msr r v s)) = phys_eois (io s)"
  by (simp add: msr_def)

lemma msrs_eois [simp]: "phys_eois (map (\<lambda>w. Msr (fst w) (snd w)) ws) = []"
  by (induction ws) simp_all

lemma arm_timer_eois [simp]: "phys_eois (io (arm_hyp_timer_ms p ms s)) = phys_eois (io s)"
  by (simp add: arm_hyp_timer_ms_def mrs_dev_def Let_def)

lemma sched_tick_eois [simp]: "phys_eois (io (snd (sched_tick p tf s))) = phys_eois (io s)"
  by (simp add: sched_tick_def load_vcpu_def Let_def split_beta tlbi_def upd_vcpu_def)

lemma set_vi_eois [simp]: "phys_eois (io (set_vi on s)) = phys_eois (io s)"
  by (simp add: set_vi_def Let_def)

lemma vgic_inject_eois [simp]:
  "phys_eois (io (vgic_inject vid i s)) = phys_eois (io s)"
  "phys_eois (io (vgic_forward_spi vid i iar s)) = phys_eois (io s)"
  by (simp_all add: vgic_inject_def vgic_forward_spi_def)

lemma pl011_rx_reassert_eois [simp]: "phys_eois (io (pl011_rx_reassert s)) = phys_eois (io s)"
  by (simp add: pl011_rx_reassert_def Let_def hyp_consts)

lemma gic_irq_eois:
  assumes "gic_handle_physical_irq p tf s = Some (tf', s')"
  defines "iar \<equiv> dev_load p (io s) W32 (GICC_BASE_PA + GICC_IAR)"
  shows "phys_eois (io s') = phys_eois (io s) @
    (if iar AND 0x3ff = INTID_SPURIOUS \<or> iar AND 0x3ff = IRQ_PL011 then [] else [iar])"
proof -
  have e: "GICC_BASE_PA + GICC_EOIR = GICC_BASE_PA + 0x10" by (simp add: hyp_consts)
  show ?thesis
    using assms(1)
    by (auto simp: gic_handle_physical_irq_def mmio_r_def mmio_w_def Let_def split_beta iar_def irq_distinct
        irq_distinct [symmetric] e
        sched_rearm_tick_def kprint_eois split: if_splits)
qed

text \<open>The line the PL011 raised stays active on the physical interface until the guest is done with it.\<close>

lemma gic_irq_pl011:
  assumes "gic_handle_physical_irq p tf s = Some (tf', s')" and inv: "hyp_inv q s"
  defines "iar \<equiv> dev_load p (io s) W32 (GICC_BASE_PA + GICC_IAR)"
  assumes "iar AND 0x3ff = IRQ_PL011"
  shows "tf' = tf" and "abs_vgic (current s) s' = a_forward 33 iar (abs_vgic (current s) s)"
    and "phys_eois (io s') = phys_eois (io s)" and "hyp_inv q s'" and "current s' = current s"
proof -
  obtain es where s': "s' = vgic_forward_spi (current s) IRQ_PL011 iar (s\<lparr>io := io s @ es\<rparr>)" and "tf' = tf"
    using assms(1,4) hyp_inv_current(1) [OF inv]
    by (auto simp: gic_handle_physical_irq_def mmio_r_def Let_def split_beta iar_def irq_distinct current_vcpu_def
        elim!: kprint_frame)
  then show "tf' = tf" by simp
  have "unat (current s) < length (vgics s)"
    using hyp_inv_current(2) [OF inv] by (simp add: vgic_inv_def)
  then show "abs_vgic (current s) s' = a_forward 33 iar (abs_vgic (current s) s)"
    by (simp add: s' vgic_forward_spi_abs IRQ_PL011_def) (simp add: abs_vgic_def pending_set_def)
  show "phys_eois (io s') = phys_eois (io s)"
    using gic_irq_eois [OF assms(1)] assms(4) by (simp add: iar_def)
  have "hyp_inv q (s\<lparr>io := io s @ es\<rparr>)" using inv by simp
  from hyp_inv_vgic_ops(2) [OF this] show "hyp_inv q s'" by (simp add: s')
  show "current s' = current s" using only_vgic_ops(2) by (simp add: s' only_vgic_def)
qed

section \<open>Properties\<close>

text \<open>
  C10. The EL2 handler completes each physical interrupt it acknowledges exactly once and with
  the value it read, except the spurious one, which must not be completed, and the PL011 line,
  whose completion is left to the guest.
\<close>

theorem physical_eoi_discipline:
  assumes "gic_handle_physical_irq p tf s = Some (tf', s')"
  shows "let iar = dev_load p (io s) W32 (GICC_BASE_PA + GICC_IAR)
    in phys_eois (io s') = phys_eois (io s) @
      (if iar AND 0x3ff = INTID_SPURIOUS \<or> iar AND 0x3ff = IRQ_PL011 then [] else [iar])"
  using gic_irq_eois [OF assms] by (simp add: Let_def)

theorem physical_eoi_discipline_witness:
  "\<exists>tf' s'. gic_handle_physical_irq (board 1 27) some_frame (boot_state (board 1 27) (\<lambda>_. 0)) = Some (tf', s')
     \<and> phys_eois (io s') = [27]"
proof -
  obtain tf' s' where r: "gic_handle_physical_irq (board 1 27) some_frame (boot_state (board 1 27) (\<lambda>_. 0)) =
      Some (tf', s')"
    by (simp add: gic_handle_physical_irq_def mmio_r_def Let_def split_beta hyp_consts)
  from physical_eoi_discipline [OF r] show ?thesis using r by (simp add: Let_def hyp_consts)
qed

text \<open>
  C11. The life of a console interrupt: when the PL011 line fires, the handler marks interrupt 33
  pending for the running vCPU, raises its line and does not complete it physically; the
  guest's end-of-interrupt write then completes it, once, with the value the handler read.
\<close>

theorem pl011_interrupt_lifecycle:
  assumes "gic_handle_physical_irq p tf s = Some (tf', s')" and "hyp_inv q s"
    and "dev_load p (io s) W32 (GICC_BASE_PA + GICC_IAR) AND 0x3ff = IRQ_PL011"
  shows "33 \<in> pending_set (current s) s' \<and> vi_of (sys s' HCR_EL2) \<and> tf' = tf
    \<and> phys_eois (io s') = phys_eois (io s) \<and> hyp_inv q s'
    \<and> phys_eois (io (write_reg (current s) 0x10 33 s')) =
        phys_eois (io s) @ [dev_load p (io s) W32 (GICC_BASE_PA + GICC_IAR)]"
proof -
  note e = gic_irq_pl011 [OF assms]
  have l: "unat (current s) < length (vgics s')"
    using hyp_inv_current(2) [OF e(4)] by (simp add: e(5) vgic_inv_def)
  have "a_pending (abs_vgic (current s) s') = insert 33 (pending_set (current s) s)"
    "a_line (abs_vgic (current s) s')"
    "a_deferred (abs_vgic (current s) s') = Some (dev_load p (io s) W32 (GICC_BASE_PA + GICC_IAR))"
    unfolding e(2) by (simp_all add: a_forward_def a_inject_def)
  moreover from this(3) have "phys_eois (io (write_reg (current s) 0x10 33 s')) =
        phys_eois (io s) @ [dev_load p (io s) W32 (GICC_BASE_PA + GICC_IAR)]"
    using write_eoir_abs(2) [OF l, of 33] assms(3)
    by (simp add: write_reg_def a_eoi_def Let_def e(3) IRQ_PL011_def)
  ultimately show ?thesis using e by (simp add: abs_vgic_def)
qed

theorem pl011_interrupt_lifecycle_witness:
  "\<exists>tf' s'. gic_handle_physical_irq (board 1 33) some_frame (boot_state (board 1 33) (\<lambda>_. 0)) = Some (tf', s')
     \<and> phys_eois (io (write_reg 0 0x10 33 s')) = [33]"
proof -
  let ?s = "boot_state (board 1 33) (\<lambda>_. 0)"
  have "gic_handle_physical_irq (board 1 33) some_frame ?s \<noteq> None"
    by (simp add: gic_handle_physical_irq_def mmio_r_def board_console.returns_simps del: not_None_eq)
  then obtain tf' s' where r: "gic_handle_physical_irq (board 1 33) some_frame ?s = Some (tf', s')" by auto
  from pl011_interrupt_lifecycle [OF r boot_hyp_inv] show ?thesis using r by (simp add: hyp_consts)
qed

end
