(* ===== verification/Exceptions.thy ===== *)
theory Exceptions
  imports Gic
begin

text \<open>
  The EL2 trap handlers (\<open>src/src/exceptions.c\<close>): the VM-exit ring, PSCI over HVC, the
  hypercalls, trapped WFI, stage-2 aborts, trapped system register accesses, the crash
  dump and the top-level dispatch. The build has \<open>HYP_DEBUG_TRAPS\<close> set to 0, so the tracing
  prints under it are not code. A handler that may park the CPU returns an \<open>outcome\<close>.
\<close>


section \<open>VM-exit ring\<close>

definition EXIT_RING_SIZE :: u32 where [hyp_consts]: "EXIT_RING_SIZE = 32"

definition exit_ring_push :: "u64 \<Rightarrow> u64 \<Rightarrow> u64 \<Rightarrow> u64 \<Rightarrow> u32 \<Rightarrow> hyp \<Rightarrow> hyp" where
  "exit_ring_push kind esr elr far vcpu s =
     s\<lparr>exit_ring := (exit_ring s)[unat (exit_ring_head s) :=
          \<lparr>e_esr = esr, e_elr = elr, e_far = far, e_kind = kind, e_vcpu = vcpu\<rparr>],
       exit_ring_head := (exit_ring_head s + 1) AND (EXIT_RING_SIZE - 1),
       exit_ring_count := exit_ring_count s + 1\<rparr>"


section \<open>PSCI\<close>

definition PSCI_VERSION_FN :: u32 where [hyp_consts]: "PSCI_VERSION_FN = 0x84000000"
definition PSCI_CPU_OFF_FN :: u32 where [hyp_consts]: "PSCI_CPU_OFF_FN = 0x84000002"
definition PSCI_CPU_ON_FN_32 :: u32 where [hyp_consts]: "PSCI_CPU_ON_FN_32 = 0x84000003"
definition PSCI_CPU_ON_FN_64 :: u32 where [hyp_consts]: "PSCI_CPU_ON_FN_64 = 0xC4000003"
definition PSCI_AFFINITY_INFO_32 :: u32 where [hyp_consts]: "PSCI_AFFINITY_INFO_32 = 0x84000004"
definition PSCI_AFFINITY_INFO_64 :: u32 where [hyp_consts]: "PSCI_AFFINITY_INFO_64 = 0xC4000004"
definition PSCI_MIGRATE_INFO_TYPE :: u32 where [hyp_consts]: "PSCI_MIGRATE_INFO_TYPE = 0x84000006"
definition PSCI_SYSTEM_OFF_FN :: u32 where [hyp_consts]: "PSCI_SYSTEM_OFF_FN = 0x84000008"
definition PSCI_SYSTEM_RESET_FN :: u32 where [hyp_consts]: "PSCI_SYSTEM_RESET_FN = 0x84000009"
definition PSCI_FEATURES_FN :: u32 where [hyp_consts]: "PSCI_FEATURES_FN = 0x8400000A"
definition PSCI_RET_SUCCESS :: u64 where [hyp_consts]: "PSCI_RET_SUCCESS = 0"
definition PSCI_RET_NOT_SUPPORTED :: u64 where [hyp_consts]: "PSCI_RET_NOT_SUPPORTED = - 1"

definition set_x :: "nat \<Rightarrow> u64 \<Rightarrow> trap_frame \<Rightarrow> trap_frame" where
  "set_x i v tf = tf\<lparr>tf_x := (tf_x tf)[i := v]\<rparr>"

definition is_psci_fid :: "u64 \<Rightarrow> bool" where
  "is_psci_fid fid = (let high = ucast (drop_bit 24 fid) :: u32 in high = 0x84 \<or> high = 0xC4)"

definition psci_halt :: "platform \<Rightarrow> string \<Rightarrow> hyp \<Rightarrow> (trap_frame outcome \<times> hyp) option" where
  "psci_halt p why s = do {
     s \<leftarrow> kprint p [Str ''  [PSCI] '', Str why,
            Str ('' '' @ [CHR 0xE2, CHR 0x80, CHR 0x94] @ '' halting'' @ NL)] s;
     Some (Halted, s) }"

definition psci_features :: "u32 \<Rightarrow> u64" where
  "psci_features fn =
     (if fn = PSCI_VERSION_FN \<or> fn = PSCI_CPU_OFF_FN \<or> fn = PSCI_AFFINITY_INFO_32
         \<or> fn = PSCI_AFFINITY_INFO_64 \<or> fn = PSCI_MIGRATE_INFO_TYPE \<or> fn = PSCI_SYSTEM_OFF_FN
         \<or> fn = PSCI_SYSTEM_RESET_FN \<or> fn = PSCI_FEATURES_FN
      then PSCI_RET_SUCCESS else PSCI_RET_NOT_SUPPORTED)"

definition handle_psci ::
  "platform \<Rightarrow> trap_frame \<Rightarrow> u64 \<Rightarrow> hyp \<Rightarrow> (trap_frame outcome \<times> hyp) option" where
  "handle_psci p tf fid s =
     (let f = ucast fid :: u32 in
      if f = PSCI_VERSION_FN then Some (Ret (set_x 0 0x00010000 tf), s)
      else if f = PSCI_MIGRATE_INFO_TYPE then Some (Ret (set_x 0 2 tf), s)
      else if f = PSCI_AFFINITY_INFO_32 \<or> f = PSCI_AFFINITY_INFO_64
      then Some (Ret (set_x 0 (if tf_x tf ! 1 = 0 then 0 else 1) tf), s)
      else if f = PSCI_FEATURES_FN
      then Some (Ret (set_x 0 (psci_features (ucast (tf_x tf ! 1))) tf), s)
      else if f = PSCI_CPU_OFF_FN then psci_halt p ''guest CPU_OFF'' s
      else if f = PSCI_SYSTEM_OFF_FN then psci_halt p ''guest SYSTEM_OFF'' s
      else if f = PSCI_SYSTEM_RESET_FN then psci_halt p ''guest SYSTEM_RESET'' s
      else if f = PSCI_CPU_ON_FN_32 \<or> f = PSCI_CPU_ON_FN_64
      then Some (Ret (set_x 0 PSCI_RET_NOT_SUPPORTED tf), s)
      else Some (Ret (set_x 0 PSCI_RET_NOT_SUPPORTED tf), s))"


section \<open>Crash dump\<close>

text \<open>The syndrome registers, as the inline functions of the file read them.\<close>

definition read_esr_el2 :: "hyp \<Rightarrow> u64" where
  [simp]: "read_esr_el2 s = mrs ESR_EL2 s"

definition read_far_el2 :: "hyp \<Rightarrow> u64" where
  [simp]: "read_far_el2 s = mrs FAR_EL2 s"

definition read_hpfar_el2 :: "hyp \<Rightarrow> u64" where
  [simp]: "read_hpfar_el2 s = mrs HPFAR_EL2 s"

definition ec_name :: "u32 \<Rightarrow> string" where
  "ec_name ec =
     (if ec = 0x00 then ''Unknown reason''
      else if ec = 0x01 then ''Trapped WFI/WFE''
      else if ec = 0x07 then ''SIMD/FP access trapped''
      else if ec = 0x15 then ''SVC from AArch64''
      else if ec = 0x16 then ''HVC from AArch64''
      else if ec = 0x17 then ''SMC from AArch64''
      else if ec = 0x18 then ''Trapped MSR/MRS/system''
      else if ec = 0x20 then ''Instruction Abort, lower EL''
      else if ec = 0x21 then ''Instruction Abort, same EL''
      else if ec = 0x22 then ''PC alignment fault''
      else if ec = 0x24 then ''Data Abort, lower EL''
      else if ec = 0x25 then ''Data Abort, same EL''
      else if ec = 0x26 then ''SP alignment fault''
      else if ec = 0x2f then ''SError''
      else if ec = 0x30 then ''HW Breakpoint, lower EL''
      else if ec = 0x31 then ''HW Breakpoint, same EL''
      else if ec = 0x3c then ''BRK instruction (AArch64)''
      else ''unknown EC'')"

definition vec_name :: "u64 \<Rightarrow> string" where
  "vec_name kind =
     (if kind < 16 then
        [''EL2t sync'', ''EL2t irq'', ''EL2t fiq'', ''EL2t serror'',
         ''EL2h sync'', ''EL2h irq'', ''EL2h fiq'', ''EL2h serror'',
         ''Lower64 sync'', ''Lower64 irq'', ''Lower64 fiq'', ''Lower64 serror'',
         ''Lower32 sync'', ''Lower32 irq'', ''Lower32 fiq'', ''Lower32 serror''] ! unat kind
      else ''invalid'')"

definition esr_ec :: "u64 \<Rightarrow> u32" where
  "esr_ec esr = ucast (drop_bit 26 esr AND 0x3f)"

definition put_hex_line :: "string \<Rightarrow> u64 \<Rightarrow> item list" where
  "put_hex_line label v = [Str label, Hex v, Str NL]"

text \<open>The loop of \<open>dump_exit_ring\<close>: \<open>k\<close> entries to go, \<open>idx\<close> and \<open>i\<close> as in the code.\<close>

fun dump_entries :: "exit_record list \<Rightarrow> nat \<Rightarrow> u32 \<Rightarrow> u32 \<Rightarrow> item list" where
  "dump_entries ring 0 idx i = []"
| "dump_entries ring (Suc k) idx i =
     (let idx = (idx + EXIT_RING_SIZE - 1) AND (EXIT_RING_SIZE - 1);
          r = ring ! unat idx;
          ec = esr_ec (e_esr r)
      in [Str ''  ['', Hex (ucast i), Str ''] v='', Hex (ucast (e_vcpu r)),
          Str '' kind='', Str (vec_name (e_kind r)), Str '' EC='', Hex (ucast ec),
          Str '' ('', Str (ec_name ec), Str '')'', Str '' ELR='', Hex (e_elr r),
          Str '' FAR='', Hex (e_far r), Str NL] @ dump_entries ring k idx (i + 1))"

definition dump_exit_ring :: "hyp \<Rightarrow> item list" where
  "dump_exit_ring s =
     (let total = exit_ring_count s in
      if total = 0 then [Str (''  (exit ring empty)'' @ NL)]
      else
        let depth = (if total < ucast EXIT_RING_SIZE then ucast total else EXIT_RING_SIZE) :: u32
        in [Str (NL @ ''--- last ''), Hex (ucast depth), Str '' VM exits (newest first, of '',
            Hex total, Str ('' total) ---'' @ NL)]
           @ dump_entries (exit_ring s) (unat depth) (exit_ring_head s) 0)"

definition dump_and_halt :: "platform \<Rightarrow> trap_frame \<Rightarrow> u64 \<Rightarrow> u64 \<Rightarrow> hyp \<Rightarrow> (trap_frame outcome \<times> hyp) option" where
  "dump_and_halt p tf kind esr s =
     (let ec = esr_ec esr;
          iss = esr AND 0x1ffffff
      in do {
        s \<leftarrow> kprint p
          ([Str (NL @ ''=== UNHANDLED EL2 EXCEPTION ==='' @ NL),
            Str ''  vector  : '', Str (vec_name kind), Str '' (kind='', Hex kind, Str ('')'' @ NL)]
           @ put_hex_line ''  ESR_EL2 : '' esr
           @ [Str ''    EC    : '', Hex (ucast ec), Str ''  ('', Str (ec_name ec), Str ('')'' @ NL)]
           @ put_hex_line ''    ISS   : '' iss
           @ put_hex_line ''  FAR_EL2 : '' (read_far_el2 s)
           @ put_hex_line ''  ELR_EL2 : '' (tf_elr_el2 tf)
           @ put_hex_line ''  SPSR_EL2: '' (tf_spsr_el2 tf)
           @ dump_exit_ring s
           @ [Str (''==============================='' @ NL @ ''halting.'' @ NL)]) s;
        Some (Halted, s) })"


section \<open>Trap handlers\<close>

definition HVC_PING :: u64 where [hyp_consts]: "HVC_PING = 0"
definition HVC_PUTS :: u64 where [hyp_consts]: "HVC_PUTS = 1"
definition HVC_IRQ_DONE :: u64 where [hyp_consts]: "HVC_IRQ_DONE = 2"

definition handle_hvc :: "platform \<Rightarrow> trap_frame \<Rightarrow> u64 \<Rightarrow> hyp \<Rightarrow> (trap_frame outcome \<times> hyp) option" where
  "handle_hvc p tf esr s =
     (let num = tf_x tf ! 0 in
      if is_psci_fid num then handle_psci p tf num s
      else if num = HVC_PING then Some (Ret (set_x 0 0 tf), s)
      else if num = HVC_PUTS then do {
        s \<leftarrow> kprint p [Str ''  [hypervisor relaying guest string] ''] s;
        tr \<leftarrow> uart_puts_ptr p (tf_x tf ! 1) (io s);
        Some (Ret (set_x 0 0 tf), s\<lparr>io := tr\<rparr>) }
      else if num = HVC_IRQ_DONE
      then Some (Ret (set_x 0 0 tf), vgic_ack_all (v_id (current_vcpu s)) s)
      else Some (Ret (set_x 0 (NOT 0) tf), s))"

definition skip_insn :: "trap_frame \<Rightarrow> trap_frame" where
  "skip_insn tf = tf\<lparr>tf_elr_el2 := tf_elr_el2 tf + 4\<rparr>"

definition wfi_rearm :: "hyp \<Rightarrow> hyp" where
  "wfi_rearm s =
     (let s = store W32 (0x09000000 + 0x38) 0x50 s;
          s = store W32 (GICD_BASE_PA + 0x104) (push_bit (33 - 32) 1) s;
          s = store W32 (GICD_BASE_PA + 0x820) 0x00010000 s;
          s = store W32 (GICD_BASE_PA + 0x420) 0x00A00000 s
      in store W32 (GICD_BASE_PA + 0x280) 0x0000FFFF s)"

definition handle_wfi :: "platform \<Rightarrow> trap_frame \<Rightarrow> u64 \<Rightarrow> hyp \<Rightarrow> trap_frame \<times> hyp" where
  "handle_wfi p tf esr s =
     (let s = wfi_rearm s;
          (hppir, s) = load p W32 (GICC_BASE_PA + 0x18) s;
          s = (if hppir AND 0x3FF = 33 \<and> \<not> vgic_has_pending_phys_iar (v_id (current_vcpu s)) s
               then
                 let (iar, s) = load p W32 (GICC_BASE_PA + 0x0C) s
                 in if iar AND 0x3FF = 33
                    then vgic_forward_spi (v_id (current_vcpu s)) 33 iar s else s
               else s)
      in (skip_insn tf, s))"

definition fault_ipa :: "u64 \<Rightarrow> u64 \<Rightarrow> u64" where
  "fault_ipa hpfar far = push_bit 8 (hpfar AND NOT 0xF) OR (far AND 0xFFF)"

definition handle_stage2_abort ::
  "platform \<Rightarrow> trap_frame \<Rightarrow> u64 \<Rightarrow> hyp \<Rightarrow> (trap_frame \<times> hyp) option" where
  "handle_stage2_abort p tf esr s =
     (let far = read_far_el2 s;
          hpfar = read_hpfar_el2 s;
          ipa = fault_ipa hpfar far;
          iss = esr AND 0x1ffffff
      in if ipa \<ge> GICD_EMU_BASE \<and> ipa < GICC_EMU_LIMIT
         then do {
           (_, tf, s) \<leftarrow> vgic_mmio p tf ipa iss s;
           Some (skip_insn tf, s) }
         else Some (skip_insn tf, s))"

definition handle_sysreg :: "trap_frame \<Rightarrow> u64 \<Rightarrow> trap_frame" where
  "handle_sysreg tf esr =
     (let iss = ucast (esr AND 0x1ffffff) :: u32;
          rt = drop_bit 5 iss AND 0x1f;
          dir = iss AND 1
      in skip_insn (if dir = 1 \<and> rt \<noteq> 31 then set_x (unat rt) 0 tf else tf))"


section \<open>Dispatch\<close>

definition VEC_EL2H_IRQ :: u64 where [hyp_consts]: "VEC_EL2H_IRQ = 5"
definition VEC_L64_SYNC :: u64 where [hyp_consts]: "VEC_L64_SYNC = 8"
definition VEC_L64_IRQ :: u64 where [hyp_consts]: "VEC_L64_IRQ = 9"

definition log_exit :: "trap_frame \<Rightarrow> u64 \<Rightarrow> hyp \<Rightarrow> hyp" where
  "log_exit tf kind s =
     exit_ring_push kind (read_esr_el2 s) (tf_elr_el2 tf) (read_far_el2 s) (v_id (current_vcpu s)) s"

definition handle_exception ::
  "platform \<Rightarrow> trap_frame \<Rightarrow> u64 \<Rightarrow> hyp \<Rightarrow> (trap_frame outcome \<times> hyp) option" where
  "handle_exception p tf kind s =
     (let esr = read_esr_el2 s;
          ec = esr_ec esr;
          s = log_exit tf kind s
      in if kind = VEC_L64_IRQ \<or> kind = VEC_EL2H_IRQ
         then do { (tf, s) \<leftarrow> gic_handle_physical_irq p tf s; Some (Ret tf, s) }
         else if kind = VEC_L64_SYNC \<and> ec = 0x16 then handle_hvc p tf esr s
         else if kind = VEC_L64_SYNC \<and> ec = 0x01
         then (let (tf, s) = handle_wfi p tf esr s in Some (Ret tf, s))
         else if kind = VEC_L64_SYNC \<and> ec = 0x18 then Some (Ret (handle_sysreg tf esr), s)
         else if kind = VEC_L64_SYNC \<and> ec = 0x24
         then do { (tf, s) \<leftarrow> handle_stage2_abort p tf esr s; Some (Ret tf, s) }
         else dump_and_halt p tf kind esr s)"


section \<open>The ring keeps the most recent exits\<close>

text \<open>
  The ring against the full history of exits, oldest first: the last 32 records of the
  history sit at their index modulo 32, and the head and the counter count the history.
\<close>

definition ring_ok :: "exit_record list \<Rightarrow> hyp \<Rightarrow> bool" where
  "ring_ok hist s \<longleftrightarrow> length (exit_ring s) = 32 \<and> unat (exit_ring_head s) = length hist mod 32
     \<and> unat (exit_ring_count s) = length hist
     \<and> (\<forall>k < length hist. length hist \<le> k + 32 \<longrightarrow> exit_ring s ! (k mod 32) = hist ! k)"

text \<open>The records in the order the dump visits them.\<close>

fun ring_walk :: "exit_record list \<Rightarrow> nat \<Rightarrow> u32 \<Rightarrow> exit_record list" where
  "ring_walk ring 0 idx = []"
| "ring_walk ring (Suc k) idx =
     (let idx = (idx + EXIT_RING_SIZE - 1) AND (EXIT_RING_SIZE - 1)
      in ring ! unat idx # ring_walk ring k idx)"

definition entry_items :: "u32 \<Rightarrow> exit_record \<Rightarrow> item list" where
  "entry_items i r =
     [Str ''  ['', Hex (ucast i), Str ''] v='', Hex (ucast (e_vcpu r)),
      Str '' kind='', Str (vec_name (e_kind r)), Str '' EC='', Hex (ucast (esr_ec (e_esr r))),
      Str '' ('', Str (ec_name (esr_ec (e_esr r))), Str '')'', Str '' ELR='', Hex (e_elr r),
      Str '' FAR='', Hex (e_far r), Str NL]"

lemma unat_and_31: "unat (w AND (EXIT_RING_SIZE - 1)) = unat w mod 32"
proof -
  have "w AND (EXIT_RING_SIZE - 1) = take_bit 5 w"
    by (simp add: EXIT_RING_SIZE_def flip: and_mask_take_bit)
  then show ?thesis by (simp add: unat_take_bit)
qed

lemma unat_prev:
  assumes "unat idx = Suc n mod 32"
  shows "unat ((idx + EXIT_RING_SIZE - 1) AND (EXIT_RING_SIZE - 1)) = n mod 32"
proof -
  have "unat (idx + 31) = unat idx + 31"
    using assms by (subst unat_word_ariths) simp
  moreover have eq: "idx + EXIT_RING_SIZE - 1 = idx + 31" by (simp add: EXIT_RING_SIZE_def)
  ultimately have "unat ((idx + EXIT_RING_SIZE - 1) AND (EXIT_RING_SIZE - 1)) = (Suc n mod 32 + 31) mod 32"
    by (simp only: eq unat_and_31 assms)
  also have "\<dots> = n mod 32" unfolding mod_add_left_eq by simp
  finally show ?thesis .
qed

lemma ring_walk_recent:
  assumes "unat idx = n mod 32" and "k \<le> n"
    and "\<And>j. j < n \<Longrightarrow> n \<le> j + k \<Longrightarrow> ring ! (j mod 32) = hist ! j" and "n \<le> length hist"
  shows "ring_walk ring k idx = take k (rev (take n hist))"
  using assms
proof (induction k arbitrary: n idx)
  case (Suc k)
  then obtain m where n: "n = Suc m" by (cases n) auto
  let ?i = "(idx + EXIT_RING_SIZE - 1) AND (EXIT_RING_SIZE - 1)"
  have i: "unat ?i = m mod 32" using Suc.prems(1) unfolding n by (rule unat_prev)
  have "ring_walk ring k ?i = take k (rev (take m hist))"
    using Suc.prems i by (intro Suc.IH) (auto simp: n)
  moreover have "ring ! (m mod 32) = hist ! m" using Suc.prems(3) by (simp add: n)
  moreover have "rev (take n hist) = hist ! m # rev (take m hist)"
    using Suc.prems(4) by (simp add: n take_Suc_conv_app_nth)
  ultimately show ?case by (simp add: i Let_def)
qed simp

lemma ring_ok_walk:
  assumes "ring_ok hist s"
  shows "ring_walk (exit_ring s) (min 32 (length hist)) (exit_ring_head s) = take 32 (rev hist)"
proof -
  have "ring_walk (exit_ring s) (min 32 (length hist)) (exit_ring_head s)
      = take (min 32 (length hist)) (rev (take (length hist) hist))"
    using assms by (intro ring_walk_recent) (auto simp: ring_ok_def)
  then show ?thesis by (simp add: min_def)
qed

lemma mod_neq_window: "k < n \<Longrightarrow> Suc n \<le> k + 32 \<Longrightarrow> k mod 32 \<noteq> n mod (32::nat)"
  using mod_eq_dvd_iff_nat [of k n 32] dvd_imp_le [of 32 "n - k"] by auto

lemma exit_ring_push_ok:
  assumes ok: "ring_ok hist s" and room: "Suc (length hist) < 2 ^ 64"
  shows "ring_ok (hist @ [\<lparr>e_esr = esr, e_elr = elr, e_far = far, e_kind = kind, e_vcpu = vcpu\<rparr>])
    (exit_ring_push kind esr elr far vcpu s)"
proof -
  let ?n = "length hist"
  have h: "unat (exit_ring_head s) = ?n mod 32" and c: "unat (exit_ring_count s) = ?n"
    and l: "length (exit_ring s) = 32"
    using ok by (simp_all add: ring_ok_def)
  have "unat (exit_ring_head s + 1) = Suc (?n mod 32)" using h by (subst unat_word_ariths) simp
  then have h': "unat ((exit_ring_head s + 1) AND (EXIT_RING_SIZE - 1)) = Suc ?n mod 32"
    by (simp add: unat_and_31 mod_Suc_eq)
  have c': "unat (exit_ring_count s + 1) = Suc ?n"
    using room c by (subst unat_word_ariths) simp
  show ?thesis
    using ok h' c' mod_neq_window
    by (auto simp: ring_ok_def exit_ring_push_def h l nth_append nth_list_update_if less_Suc_eq)
qed

lemma dump_entries_walk:
  "dump_entries ring k idx i =
     concat (map (\<lambda>(j, r). entry_items (i + of_nat j) r) (enumerate 0 (ring_walk ring k idx)))"
proof (induction k arbitrary: idx i)
  case (Suc k)
  have "enumerate (Suc 0) xs = map (\<lambda>(j, r). (Suc j, r)) (enumerate 0 xs)" for xs :: "exit_record list"
    by (simp add: enumerate_Suc_eq split_def apfst_def map_prod_def)
  then show ?case
    by (simp add: Suc.IH Let_def entry_items_def o_def split_def algebra_simps)
qed simp

lemma dump_exit_ring_recent:
  assumes ok: "ring_ok hist s" and ne: "hist \<noteq> []" and room: "length hist < 2 ^ 64"
  shows "dump_exit_ring s =
    [Str (NL @ ''--- last ''), Hex (of_nat (min 32 (length hist))), Str '' VM exits (newest first, of '',
     Hex (of_nat (length hist)), Str ('' total) ---'' @ NL)]
    @ concat (map (\<lambda>(j, r). entry_items (of_nat j) r) (enumerate 0 (take 32 (rev hist))))"
proof -
  let ?c = "exit_ring_count s"
  define depth where "depth = (if ?c < ucast EXIT_RING_SIZE then ucast ?c else EXIT_RING_SIZE)"
  have c: "unat ?c = length hist" using ok by (simp add: ring_ok_def)
  have c': "?c = of_nat (length hist)" by (metis c of_nat_unat ucast_id)
  have d: "unat depth = min 32 (length hist)"
  proof (cases "?c < ucast EXIT_RING_SIZE")
    case True
    then have lt: "length hist < 32" by (simp add: EXIT_RING_SIZE_def word_less_nat_alt c)
    have "unat (ucast ?c :: u32) = unat ?c mod 2 ^ 32" by (simp add: unsigned_ucast_eq take_bit_eq_mod)
    with True lt c show ?thesis by (simp add: depth_def)
  next
    case False
    then have "32 \<le> length hist" by (simp add: EXIT_RING_SIZE_def word_less_nat_alt c)
    with False show ?thesis by (simp add: depth_def EXIT_RING_SIZE_def)
  qed
  have "ucast depth = (of_nat (min 32 (length hist)) :: u64)"
    by (metis d of_nat_unat)
  moreover have "?c \<noteq> 0" using c ne by auto
  then have "dump_exit_ring s =
    [Str (NL @ ''--- last ''), Hex (ucast depth), Str '' VM exits (newest first, of '',
     Hex ?c, Str ('' total) ---'' @ NL)]
    @ dump_entries (exit_ring s) (unat depth) (exit_ring_head s) 0"
    by (simp only: dump_exit_ring_def Let_def depth_def if_False)
  ultimately show ?thesis
    by (simp only: dump_entries_walk d ring_ok_walk [OF ok] c' add_0)
qed


section \<open>Every handler keeps the invariant\<close>

lemma reassert_inv [simp]:
  "hyp_inv p (reassert_htimer_ppi s) = hyp_inv p s" "hyp_inv p (reassert_pl011_rx s) = hyp_inv p s"
  by (simp_all add: reassert_htimer_ppi_def reassert_pl011_rx_def Let_def)

lemma gicd_access_inv [simp]: "hyp_inv p (snd (gicd_access q wnr sas a v s)) = hyp_inv p s"
  by (simp add: gicd_access_def Let_def)

lemma set_x_fields [simp]:
  "length (tf_x (set_x i v tf)) = length (tf_x tf)" "tf_elr_el2 (set_x i v tf) = tf_elr_el2 tf"
  "tf_spsr_el2 (set_x i v tf) = tf_spsr_el2 tf" "tf_x (set_x i v tf) = (tf_x tf)[i := v]"
  by (simp_all add: set_x_def)

lemma skip_insn_fields [simp]:
  "tf_x (skip_insn tf) = tf_x tf" "tf_elr_el2 (skip_insn tf) = tf_elr_el2 tf + 4"
  "tf_spsr_el2 (skip_insn tf) = tf_spsr_el2 tf"
  by (simp_all add: skip_insn_def)

lemma vgic_mmio_inv:
  assumes inv: "hyp_inv p s" and ret: "vgic_mmio q tf ipa iss s = Some (b, tf', s')"
  shows "hyp_inv p s' \<and> length (tf_x tf') = length (tf_x tf)"
  using ret inv hyp_inv_current(1) [OF inv] hyp_inv_vgic_ops [OF inv]
  by (auto simp: vgic_mmio_def Let_def split_beta kprint_hyp_inv split: if_splits)

lemma exit_ring_push_inv [simp]: "hyp_inv p (exit_ring_push k esr elr far v s) = hyp_inv p s"
  by (simp add: hyp_inv_def sched_ok_def line_of_def exit_ring_push_def)

lemma wfi_rearm_inv [simp]: "hyp_inv p (wfi_rearm s) = hyp_inv p s"
  by (simp add: wfi_rearm_def Let_def)

lemma handle_wfi_inv: "hyp_inv p s \<Longrightarrow> hyp_inv p (snd (handle_wfi q tf esr s))"
proof -
  assume "hyp_inv p s"
  then have inv: "hyp_inv p (snd (load q W32 (GICC_BASE_PA + 0x18) (wfi_rearm s)))" by simp
  then have inv': "hyp_inv p (snd (load q W32 (GICC_BASE_PA + 0x0C)
      (snd (load q W32 (GICC_BASE_PA + 0x18) (wfi_rearm s)))))" by simp
  show ?thesis
    using inv inv' hyp_inv_inject_current(2) [OF inv']
    by (simp add: handle_wfi_def Let_def split_beta)
qed

lemma handle_psci_inv:
  assumes "handle_psci p tf fid s = Some (r, s')"
  shows "hyp_inv q s' = hyp_inv q s" and "r = Ret tf' \<Longrightarrow> length (tf_x tf') = length (tf_x tf)"
  using assms
  by (auto simp: handle_psci_def psci_halt_def Let_def kprint_hyp_inv split: if_splits)

lemma handle_hvc_inv:
  assumes "handle_hvc p tf esr s = Some (r, s')" and inv: "hyp_inv q s"
  shows "hyp_inv q s'" and "r = Ret tf' \<Longrightarrow> length (tf_x tf') = length (tf_x tf)"
  using assms hyp_inv_inject_current(3) [OF inv]
  by (auto simp: handle_hvc_def Let_def kprint_hyp_inv handle_psci_inv split: if_splits)

lemma handle_stage2_abort_inv:
  assumes "handle_stage2_abort p tf esr s = Some (tf', s')" and inv: "hyp_inv q s"
  shows "hyp_inv q s' \<and> length (tf_x tf') = length (tf_x tf)"
  using assms by (auto simp: handle_stage2_abort_def Let_def dest: vgic_mmio_inv [OF inv] split: if_splits)

lemma fst_handle_wfi [simp]: "fst (handle_wfi p tf esr s) = skip_insn tf"
  by (simp add: handle_wfi_def Let_def split_beta)

lemma log_exit_inv [simp]: "hyp_inv p (log_exit tf kind s) = hyp_inv p s"
  by (simp add: log_exit_def)

text \<open>The dispatch, as a case analysis of a call that comes back or halts.\<close>

lemma handle_exception_cases:
  assumes "handle_exception p tf kind s = Some (r, s')"
  obtains
    (irq) tf' where "kind = VEC_L64_IRQ \<or> kind = VEC_EL2H_IRQ" "r = Ret tf'"
      "gic_handle_physical_irq p tf (log_exit tf kind s) = Some (tf', s')"
  | (hvc) "kind = VEC_L64_SYNC" "esr_ec (mrs ESR_EL2 s) = 0x16"
      "handle_hvc p tf (mrs ESR_EL2 s) (log_exit tf kind s) = Some (r, s')"
  | (wfi) "kind = VEC_L64_SYNC" "esr_ec (mrs ESR_EL2 s) = 0x01" "r = Ret (skip_insn tf)"
      "s' = snd (handle_wfi p tf (mrs ESR_EL2 s) (log_exit tf kind s))"
  | (sysreg) "kind = VEC_L64_SYNC" "esr_ec (mrs ESR_EL2 s) = 0x18"
      "r = Ret (handle_sysreg tf (mrs ESR_EL2 s))" "s' = log_exit tf kind s"
  | (abort) tf' where "kind = VEC_L64_SYNC" "esr_ec (mrs ESR_EL2 s) = 0x24" "r = Ret tf'"
      "handle_stage2_abort p tf (mrs ESR_EL2 s) (log_exit tf kind s) = Some (tf', s')"
  | (dump) "\<not> (kind = VEC_L64_IRQ \<or> kind = VEC_EL2H_IRQ)"
      "\<not> (kind = VEC_L64_SYNC \<and> esr_ec (mrs ESR_EL2 s) \<in> {0x16, 0x01, 0x18, 0x24})"
      "dump_and_halt p tf kind (mrs ESR_EL2 s) (log_exit tf kind s) = Some (r, s')"
  using assms
  by (auto simp: handle_exception_def Let_def split_beta split: if_splits)

lemma handle_exception_inv:
  assumes inv: "hyp_inv p s" and x: "length (tf_x tf) = 31"
    and ret: "handle_exception p tf kind s = Some (r, s')"
  shows "hyp_inv p s' \<and> (\<forall>tf'. r = Ret tf' \<longrightarrow> length (tf_x tf') = 31)"
proof -
  have i: "hyp_inv p (log_exit tf kind s)" using inv by simp
  from ret show ?thesis
  proof (cases rule: handle_exception_cases)
    case irq
    then show ?thesis using gic_handle_physical_irq_inv [OF i x] by blast
  next
    case hvc
    then show ?thesis using handle_hvc_inv [OF _ i] x by metis
  next
    case wfi
    then show ?thesis using handle_wfi_inv [OF i] x by simp
  next
    case sysreg
    then show ?thesis using i x by (simp add: handle_sysreg_def Let_def)
  next
    case abort
    then show ?thesis using handle_stage2_abort_inv [OF _ i] x by auto
  next
    case dump
    then show ?thesis using i by (auto simp: dump_and_halt_def Let_def kprint_hyp_inv)
  qed
qed


section \<open>Every handler returns or halts\<close>

definition terminated :: "platform \<Rightarrow> u64 \<Rightarrow> bool" where
  "terminated p a \<longleftrightarrow> (\<exists>n. ram_byte p (a + of_nat n) = 0)"

context pl011_console
begin

lemma uart_puts_ptr_returns:
  assumes "terminated p a"
  shows "\<exists>tr'. uart_puts_ptr p a tr = Some tr'"
proof -
  define n where "n = (LEAST n. ram_byte p (a + of_nat n) = 0)"
  define cs where "cs = map (\<lambda>i. ram_byte p (a + of_nat i)) [0..<n]"
  have z: "ram_byte p (a + of_nat n) = 0"
    using assms unfolding terminated_def n_def by (rule LeastI_ex)
  have nz: "ram_byte p (a + of_nat i) \<noteq> 0" if "i < n" for i
    using not_less_Least that unfolding n_def by blast
  have "uart_puts_ptr p a tr = uart_puts p cs tr"
    using z nz by (intro uart_puts_ptr_eq) (auto simp: cs_def)
  then show ?thesis using uart_puts_returns by simp
qed

lemma gic_handle_physical_irq_returns: "gic_handle_physical_irq p tf s \<noteq> None"
  by (simp add: gic_handle_physical_irq_def returns_simps del: not_None_eq)

lemma vgic_mmio_returns: "vgic_mmio p tf ipa iss s \<noteq> None"
  by (simp add: vgic_mmio_def returns_simps del: not_None_eq)

lemma handle_psci_returns: "handle_psci p tf fid s \<noteq> None"
  by (simp add: handle_psci_def psci_halt_def returns_simps del: not_None_eq)

lemma handle_hvc_returns:
  assumes "tf_x tf ! 0 = HVC_PUTS \<Longrightarrow> terminated p (tf_x tf ! 1)"
  shows "handle_hvc p tf esr s \<noteq> None"
proof (cases "tf_x tf ! 0 = HVC_PUTS")
  case True
  then have "uart_puts_ptr p (tf_x tf ! 1) tr \<noteq> None" for tr
    using uart_puts_ptr_returns assms by auto
  then show ?thesis
    by (simp add: handle_hvc_def handle_psci_returns returns_simps del: not_None_eq)
next
  case False
  then show ?thesis
    by (simp add: handle_hvc_def handle_psci_returns returns_simps del: not_None_eq)
qed

lemma handle_exception_returns:
  assumes "tf_x tf ! 0 = HVC_PUTS \<Longrightarrow> terminated p (tf_x tf ! 1)"
  shows "handle_exception p tf kind s \<noteq> None"
  using handle_hvc_returns [OF assms]
  by (simp add: handle_exception_def handle_stage2_abort_def dump_and_halt_def
      gic_handle_physical_irq_returns vgic_mmio_returns returns_simps del: not_None_eq)

end

section \<open>What a trapped instruction does to the guest\<close>

text \<open>At most one general register changes.\<close>

definition one_reg :: "u64 list \<Rightarrow> u64 list \<Rightarrow> bool" where
  "one_reg xs ys \<longleftrightarrow> (\<exists>i v. ys = xs[i := v])"

lemma one_reg_intros [simp]: "one_reg xs xs" "one_reg xs (xs[i := v])"
  by (auto simp: one_reg_def intro: list_update_id [symmetric])

lemma vgic_mmio_frame:
  assumes "vgic_mmio p tf ipa iss s = Some (b, tf', s')"
  shows "tf_elr_el2 tf' = tf_elr_el2 tf \<and> tf_spsr_el2 tf' = tf_spsr_el2 tf
    \<and> one_reg (tf_x tf) (tf_x tf')"
  using assms by (auto simp: vgic_mmio_def Let_def split_beta split: if_splits)

lemma handle_hvc_frame:
  assumes "handle_hvc p tf esr s = Some (Ret tf', s')"
  shows "\<exists>v. tf' = set_x 0 v tf"
  using assms by (auto simp: handle_hvc_def handle_psci_def psci_halt_def Let_def split: if_splits)

lemma sync_exit_effect:
  assumes "handle_exception p tf VEC_L64_SYNC s = Some (Ret tf', s')"
  shows "tf_elr_el2 tf' = tf_elr_el2 tf + (if esr_ec (mrs ESR_EL2 s) = 0x16 then 0 else 4)"
    and "tf_spsr_el2 tf' = tf_spsr_el2 tf" and "one_reg (tf_x tf) (tf_x tf')"
proof -
  have "tf_elr_el2 tf' = tf_elr_el2 tf + (if esr_ec (mrs ESR_EL2 s) = 0x16 then 0 else 4)
    \<and> tf_spsr_el2 tf' = tf_spsr_el2 tf \<and> one_reg (tf_x tf) (tf_x tf')"
    using assms
  proof (cases rule: handle_exception_cases)
    case irq
    then show ?thesis by (simp add: hyp_consts)
  next
    case hvc
    then show ?thesis using handle_hvc_frame [OF hvc(3)] by auto
  next
    case wfi
    then show ?thesis by simp
  next
    case sysreg
    then show ?thesis by (auto simp: handle_sysreg_def Let_def)
  next
    case (abort tf2)
    then show ?thesis
      by (auto simp: handle_stage2_abort_def Let_def dest!: vgic_mmio_frame split: if_splits)
  next
    case dump
    then show ?thesis by (auto simp: dump_and_halt_def Let_def)
  qed
  then show "tf_elr_el2 tf' = tf_elr_el2 tf + (if esr_ec (mrs ESR_EL2 s) = 0x16 then 0 else 4)"
    and "tf_spsr_el2 tf' = tf_spsr_el2 tf" and "one_reg (tf_x tf) (tf_x tf')" by simp_all
qed

definition guest_shuts_down :: "trap_frame \<Rightarrow> bool" where
  "guest_shuts_down tf \<longleftrightarrow> is_psci_fid (tf_x tf ! 0) \<and>
     ucast (tf_x tf ! 0) \<in> {PSCI_CPU_OFF_FN, PSCI_SYSTEM_OFF_FN, PSCI_SYSTEM_RESET_FN}"

definition handled_kind :: "u64 \<Rightarrow> u64 \<Rightarrow> bool" where
  "handled_kind kind esr \<longleftrightarrow> kind = VEC_L64_IRQ \<or> kind = VEC_EL2H_IRQ \<or>
     kind = VEC_L64_SYNC \<and> esr_ec esr \<in> {0x16, 0x01, 0x18, 0x24}"

lemma handle_hvc_halts:
  assumes "handle_hvc p tf esr s = Some (r, s')"
  shows "r = Halted \<longleftrightarrow> guest_shuts_down tf"
proof (cases "is_psci_fid (tf_x tf ! 0)")
  case True
  have "r = Halted \<longleftrightarrow> ucast (tf_x tf ! 0) \<in> {PSCI_CPU_OFF_FN, PSCI_SYSTEM_OFF_FN, PSCI_SYSTEM_RESET_FN}"
    if "handle_psci p tf (tf_x tf ! 0) s = Some (r, s')"
    using that unfolding handle_psci_def psci_halt_def Let_def
    by (auto simp: hyp_consts split: if_splits)
  then show ?thesis using assms True by (simp add: handle_hvc_def guest_shuts_down_def)
next
  case False
  then show ?thesis using assms by (auto simp: handle_hvc_def guest_shuts_down_def Let_def split: if_splits)
qed

lemma halts_iff:
  assumes "handle_exception p tf kind s = Some (r, s')"
  shows "r = Halted \<longleftrightarrow> \<not> handled_kind kind (mrs ESR_EL2 s) \<or>
    kind = VEC_L64_SYNC \<and> esr_ec (mrs ESR_EL2 s) = 0x16 \<and> guest_shuts_down tf"
  using assms
proof (cases rule: handle_exception_cases)
  case hvc
  then show ?thesis using handle_hvc_halts [OF hvc(3)] by (auto simp: handled_kind_def)
next
  case dump
  then show ?thesis by (auto simp: handled_kind_def dump_and_halt_def Let_def)
qed (auto simp: handled_kind_def hyp_consts)

lemma bit_FFF: "bit (0xFFF :: u64) n \<longleftrightarrow> n < 12" "bit (0xF :: u64) n \<longleftrightarrow> n < 4"
  using bit_mask_iff [of 12 n, where 'a = u64] bit_mask_iff [of 4 n, where 'a = u64]
  by (auto simp: mask_eq_exp_minus_1)

text \<open>
  The syndrome registers of a stage-2 abort: \<open>HPFAR_EL2\<close> holds bits 51:12 of the faulting
  address from bit 4 up, and \<open>FAR_EL2\<close> agrees with it in the page offset.
\<close>

lemma fault_ipa_recovers:
  assumes "unat ipa < 2 ^ 52" and "take_bit 12 far = take_bit 12 ipa"
  shows "fault_ipa (push_bit 4 (drop_bit 12 ipa)) far = ipa"
proof (rule bit_eqI)
  fix n assume "possible_bit TYPE(u64) n"
  then have n: "n < 64" by simp
  have lo: "bit far n = bit ipa n" if "n < 12"
    using arg_cong [OF assms(2), of "\<lambda>w. bit w n"] that by (simp add: bit_take_bit_iff)
  show "bit (fault_ipa (push_bit 4 (drop_bit 12 ipa)) far) n = bit ipa n"
  proof (cases "n < 12")
    case True
    then show ?thesis using n lo
      unfolding fault_ipa_def by (simp only: bit_or_iff bit_and_iff bit_FFF bit_push_bit_iff) auto
  next
    case False
    then have "n - 8 - 4 + 12 = n" by simp
    then show ?thesis using n False
      unfolding fault_ipa_def
      by (simp only: bit_or_iff bit_and_iff bit_FFF bit_push_bit_iff bit_not_iff bit_drop_bit_eq possible_bit_word o_def)
        (auto simp: add.commute)
  qed
qed

section \<open>Properties\<close>

text \<open>The ring after a sequence of exits.\<close>

definition push_record :: "exit_record \<Rightarrow> hyp \<Rightarrow> hyp" where
  "push_record r s = exit_ring_push (e_kind r) (e_esr r) (e_elr r) (e_far r) (e_vcpu r) s"

lemma ring_ok_fold:
  "ring_ok hist s \<Longrightarrow> length hist + length rs < 2 ^ 64 \<Longrightarrow> ring_ok (hist @ rs) (fold push_record rs s)"
proof (induction rs arbitrary: hist s)
  case (Cons r rs)
  have "ring_ok (hist @ [\<lparr>e_esr = e_esr r, e_elr = e_elr r, e_far = e_far r, e_kind = e_kind r,
      e_vcpu = e_vcpu r\<rparr>]) (push_record r s)"
    unfolding push_record_def using Cons.prems by (intro exit_ring_push_ok) simp_all
  then have "ring_ok (hist @ [r]) (push_record r s)" by (cases r) simp
  from Cons.IH [OF this] Cons.prems show ?case by simp
qed simp

text \<open>
  C25. The crash dump tells the recent past: after any sequence of exits, however often the ring
  has wrapped, the dump prints the total number of exits and the last 32 of them, or all when
  there are fewer, newest first.
\<close>

theorem crash_dump_recent_exits:
  assumes "ring_ok [] s" and "rs \<noteq> []" and "length rs < 2 ^ 64"
  shows "dump_exit_ring (fold push_record rs s) =
    [Str (NL @ ''--- last ''), Hex (of_nat (min 32 (length rs))), Str '' VM exits (newest first, of '',
     Hex (of_nat (length rs)), Str ('' total) ---'' @ NL)]
    @ concat (map (\<lambda>(j, r). entry_items (of_nat j) r) (enumerate 0 (take 32 (rev rs))))"
proof -
  have "ring_ok rs (fold push_record rs s)" using ring_ok_fold [OF assms(1), of rs] assms(3) by simp
  from dump_exit_ring_recent [OF this assms(2,3)] show ?thesis .
qed

lemma boot_ring_ok: "ring_ok [] (boot_state p regs)"
  by (simp add: boot_state_def ring_ok_def)

definition exit_rec :: "u64 \<Rightarrow> exit_record" where
  "exit_rec n = \<lparr>e_esr = 0x5A000000, e_elr = n, e_far = 0, e_kind = 8, e_vcpu = 0\<rparr>"

theorem crash_dump_recent_exits_witness:
  "dump_exit_ring (fold push_record (map exit_rec [1, 2]) (boot_state (board 1 0) (\<lambda>_. 0))) =
    [Str (NL @ ''--- last ''), Hex 2, Str '' VM exits (newest first, of '', Hex 2, Str ('' total) ---'' @ NL)]
    @ entry_items 0 (exit_rec 2) @ entry_items 1 (exit_rec 1)"
  using crash_dump_recent_exits [OF boot_ring_ok, of "map exit_rec [1, 2]" "board 1 0" "\<lambda>_. 0"]
  by simp


text \<open>A state trapped with the given syndrome.\<close>

definition trapped :: "u32 \<Rightarrow> u64 \<Rightarrow> hyp" where
  "trapped irq esr = boot_state (board 1 irq) (\<lambda>r. if r = ESR_EL2 then esr else 0)"

lemma trapped_sysreg:
  "handle_exception (board 1 0) some_frame VEC_L64_SYNC (trapped 0 0x62000061) =
     Some (Ret (handle_sysreg some_frame 0x62000061), log_exit some_frame VEC_L64_SYNC (trapped 0 0x62000061))"
  by (simp add: handle_exception_def trapped_def Let_def mrs_def esr_ec_def hyp_consts)




text \<open>
  Every exit is served: with a console that drains, the handler of any exception from any
  state comes back or halts, provided a guest that asks for a string to be printed points at one
  that ends.
\<close>

theorem handlers_terminate:
  assumes "pl011_console p" and "tf_x tf ! 0 = HVC_PUTS \<Longrightarrow> terminated p (tf_x tf ! 1)"
  shows "\<exists>r s'. handle_exception p tf kind s = Some (r, s')"
proof -
  have "handle_exception p tf kind s \<noteq> None"
    using assms by (rule pl011_console.handle_exception_returns)
  then show ?thesis by auto
qed

theorem handlers_terminate_witness:
  "\<exists>r s'. handle_exception (board 1 33) \<lparr>tf_x = HVC_PUTS # replicate 30 0, tf_elr_el2 = 0, tf_spsr_el2 = 0\<rparr>
     VEC_L64_SYNC (trapped 33 0x5A000000) = Some (r, s')"
  by (rule handlers_terminate [OF board_console.pl011_console_axioms]) (simp add: terminated_def)

text \<open>
  The address of a stage-2 abort is recovered exactly from the syndrome registers for every
  intermediate physical address the architecture can report.
\<close>

theorem fault_address_recovered:
  assumes "unat ipa < 2 ^ 52" and "take_bit 12 far = take_bit 12 ipa"
  shows "fault_ipa (push_bit 4 (drop_bit 12 ipa)) far = ipa"
  using fault_ipa_recovers [OF assms] .

theorem fault_address_recovered_witness:
  "fault_ipa (push_bit 4 (drop_bit 12 0x0801000C)) 0xFFFF00000000000C = 0x0801000C"
  using fault_address_recovered [of "0x0801000C" "0xFFFF00000000000C"]
  by (simp add: word_unat_eq_iff unat_take_bit)

text \<open>
  PSCI_FEATURES tells the truth: it reports success for a function identifier other than its
  own exactly when calling that function would not be answered with NOT_SUPPORTED.
\<close>

theorem psci_features_honest:
  assumes "tf_x tf \<noteq> []" and "fn \<noteq> PSCI_FEATURES_FN"
  shows "psci_features fn = PSCI_RET_SUCCESS \<longleftrightarrow>
     handle_psci p tf (ucast fn) s \<noteq> Some (Ret (set_x 0 PSCI_RET_NOT_SUPPORTED tf), s)"
proof -
  have u: "ucast (ucast fn :: u64) = fn" by (rule bit_eqI) (auto simp: bit_unsigned_iff)
  have x: "set_x 0 v tf = set_x 0 w tf \<longleftrightarrow> v = w" for v w
    using assms by (cases "tf_x tf") (auto simp: set_x_def dest!: arg_cong [where f = tf_x])
  have h: "psci_halt p why s \<noteq> Some (Ret t, s)" for why t
    by (auto simp: psci_halt_def)
  show ?thesis
  proof (cases "psci_features fn = PSCI_RET_SUCCESS")
    case True
    then have "fn \<in> {PSCI_VERSION_FN, PSCI_CPU_OFF_FN, PSCI_AFFINITY_INFO_32, PSCI_AFFINITY_INFO_64,
        PSCI_MIGRATE_INFO_TYPE, PSCI_SYSTEM_OFF_FN, PSCI_SYSTEM_RESET_FN}"
      using assms(2) by (auto simp: psci_features_def hyp_consts split: if_splits)
    then show ?thesis using True
      by (elim insertE) (simp_all add: handle_psci_def u h, simp_all add: hyp_consts x h)
  next
    case False
    then have "fn \<notin> {PSCI_VERSION_FN, PSCI_CPU_OFF_FN, PSCI_AFFINITY_INFO_32, PSCI_AFFINITY_INFO_64,
        PSCI_MIGRATE_INFO_TYPE, PSCI_SYSTEM_OFF_FN, PSCI_SYSTEM_RESET_FN, PSCI_FEATURES_FN}"
      by (auto simp: psci_features_def)
    then show ?thesis using False by (simp add: handle_psci_def u)
  qed
qed

theorem psci_features_honest_witness:
  "handle_psci (board 1 0) some_frame (ucast PSCI_CPU_ON_FN_64) (trapped 0 0) =
     Some (Ret (set_x 0 PSCI_RET_NOT_SUPPORTED some_frame), trapped 0 0)"
proof -
  have "psci_features PSCI_CPU_ON_FN_64 \<noteq> PSCI_RET_SUCCESS" by (simp add: psci_features_def hyp_consts)
  then show ?thesis
    using psci_features_honest [of some_frame PSCI_CPU_ON_FN_64 "board 1 0" "trapped 0 0"]
    by (simp add: some_frame_def hyp_consts)
qed

text \<open>The bytes a store writes, little-endian, and the last byte written to an address.\<close>

fun byte_writes :: "event \<Rightarrow> (u64 \<times> u8) list" where
  "byte_writes (Store W8 a v) = [(a, ucast v)]"
| "byte_writes (Store W16 a v) = [(a, ucast v), (a + 1, ucast (drop_bit 8 v))]"
| "byte_writes (Store W32 a v) = [(a, ucast v), (a + 1, ucast (drop_bit 8 v)),
     (a + 2, ucast (drop_bit 16 v)), (a + 3, ucast (drop_bit 24 v))]"
| "byte_writes _ = []"

definition last_byte :: "u64 \<Rightarrow> event list \<Rightarrow> u8 option" where
  "last_byte a tr = map_of (rev (concat (map byte_writes tr))) a"

lemma last_byte_append: "last_byte a (xs @ ys) = (case last_byte a ys of None \<Rightarrow> last_byte a xs | Some b \<Rightarrow> Some b)"
  by (auto simp: last_byte_def map_add_def split: option.splits)

text \<open>
  C26. The two word writes by which the WFI handler means to target interrupt 33 at this CPU with
  priority 0xA0 hit its neighbour: in the little-endian byte arrays of the distributor they leave
  zero in the target and priority bytes of interrupt 33 and the intended values in those of
  interrupt 34. The heartbeat's byte writes do set interrupt 33.
\<close>

theorem wfi_rearm_hits_neighbour:
  "last_byte (GICD_BASE_PA + 0x800 + 33) (io (wfi_rearm s)) = Some 0
   \<and> last_byte (GICD_BASE_PA + 0x400 + 33) (io (wfi_rearm s)) = Some 0
   \<and> last_byte (GICD_BASE_PA + 0x800 + 34) (io (wfi_rearm s)) = Some 1
   \<and> last_byte (GICD_BASE_PA + 0x400 + 34) (io (wfi_rearm s)) = Some 0xA0
   \<and> last_byte (GICD_BASE_PA + 0x800 + 33) (io (pl011_rx_reassert s)) = Some 1
   \<and> last_byte (GICD_BASE_PA + 0x400 + 33) (io (pl011_rx_reassert s)) = Some 0xA0"
  by (simp add: wfi_rearm_def pl011_rx_reassert_def Let_def last_byte_append hyp_consts)
     (simp add: last_byte_def)

lemma reassert_frame [simp]:
  "vgics (reassert_htimer_ppi s) = vgics s" "vgics (reassert_pl011_rx s) = vgics s"
  "sys (reassert_htimer_ppi s) = sys s" "sys (reassert_pl011_rx s) = sys s"
  by (simp_all add: reassert_htimer_ppi_def reassert_pl011_rx_def Let_def)

lemma abs_vgic_cong: "vgics s = vgics t \<Longrightarrow> sys s HCR_EL2 = sys t HCR_EL2 \<Longrightarrow> abs_vgic vid s = abs_vgic vid t"
  by (simp add: abs_vgic_def pending_set_def vgic_of_def)

lemma iss_bit: "n < 25 \<Longrightarrow> (drop_bit n (esr AND 0x1ffffff) AND 1 = (0 :: u64)) \<longleftrightarrow> \<not> bit esr n"
  by (simp add: and_mask_take_bit and_one_eq flip: even_iff_mod_2_eq_zero)
     (simp add: even_drop_bit_iff_not_bit bit_take_bit_iff)

lemma iss_srt: "drop_bit 16 (esr AND 0x1ffffff) AND 0x1F = (drop_bit 16 esr AND 0x1F :: u64)"
  unfolding and_mask_take_bit by (rule bit_eqI) (auto simp: bit_take_bit_iff bit_drop_bit_eq)

lemma guest_iar_abort:
  assumes ret: "handle_stage2_abort p tf esr s = Some (tf', s')" and inv: "hyp_inv q s"
    and ipa: "fault_ipa (mrs HPFAR_EL2 s) (mrs FAR_EL2 s) = GICC_EMU_BASE + 0x0C"
    and isv: "bit esr 24" and rd: "\<not> bit esr 6" and srt: "ucast (drop_bit 16 esr AND 0x1F) = (r :: u32)" "r < 31"
  shows "tf_x tf' = (tf_x tf)[unat r := of_nat (fst (a_ack (abs_vgic (current s) s)))]"
    and "abs_vgic (current s) s' = snd (a_ack (abs_vgic (current s) s))"
    and "tf_elr_el2 tf' = tf_elr_el2 tf + 4" and "hyp_inv q s'"
proof -
  let ?c = "current s"
  have v: "v_id (current_vcpu s) = ?c" by (rule hyp_inv_current [OF inv])
  have l: "unat ?c < length (vgics s)" using hyp_inv_current(2) [OF inv] by (simp add: vgic_inv_def)
  have r: "r \<noteq> 31" using srt(2) by auto
  have g: "GICD_EMU_BASE \<le> GICC_EMU_BASE + 0x0C" "GICC_EMU_BASE + 0x0C < GICC_EMU_LIMIT"
    "\<not> GICC_EMU_BASE + 0x0C < GICD_EMU_LIMIT" "ucast (GICC_EMU_BASE + 0x0C - GICC_EMU_BASE) = (0x0C :: u32)"
    by (simp_all add: hyp_consts)
  have m: "vgic_mmio p tf (GICC_EMU_BASE + 0x0C) (esr AND 0x1ffffff) s =
      Some (True, tf\<lparr>tf_x := (tf_x tf)[unat r := ucast (fst (read_iar ?c s))]\<rparr>,
        reassert_pl011_rx (reassert_htimer_ppi (snd (read_iar ?c s))))"
    using isv rd r unfolding vgic_mmio_def
    by (simp only: iss_bit iss_srt srt v g Let_def split_beta read_reg_def) simp
  have ab: "map_prod unat (abs_vgic ?c) (read_iar ?c s) = a_ack (abs_vgic ?c s)" by (rule read_iar_abs [OF l])
  then have f: "unat (fst (read_iar ?c s)) = fst (a_ack (abs_vgic ?c s))"
    "abs_vgic ?c (snd (read_iar ?c s)) = snd (a_ack (abs_vgic ?c s))"
    by (metis fst_map_prod, metis snd_map_prod)
  have h: "handle_stage2_abort p tf esr s = Some (skip_insn (tf\<lparr>tf_x := (tf_x tf)[unat r := ucast (fst (read_iar ?c s))]\<rparr>),
        reassert_pl011_rx (reassert_htimer_ppi (snd (read_iar ?c s))))"
    unfolding handle_stage2_abort_def read_far_el2_def read_hpfar_el2_def Let_def ipa m using g by simp
  have "ucast (fst (read_iar ?c s)) = (of_nat (fst (a_ack (abs_vgic ?c s))) :: u64)"
    by (simp flip: f(1))
  then show "tf_x tf' = (tf_x tf)[unat r := of_nat (fst (a_ack (abs_vgic ?c s)))]"
    "tf_elr_el2 tf' = tf_elr_el2 tf + 4"
    using ret h by (auto simp: skip_insn_def)
  have s': "s' = reassert_pl011_rx (reassert_htimer_ppi (snd (read_iar ?c s)))" using ret h by simp
  show "abs_vgic ?c s' = snd (a_ack (abs_vgic ?c s))"
    unfolding f(2) [symmetric] s' by (rule abs_vgic_cong) simp_all
  show "hyp_inv q s'" using handle_stage2_abort_inv [OF ret inv] by simp
qed

text \<open>
  C19. A guest load from the acknowledge register, trapped as a stage-2 abort, is an acknowledge
  of its software interface: the destination register receives the lowest pending interrupt, or
  1023, the interface moves as specified, and the instruction is stepped over.
\<close>

theorem guest_acknowledge_trapped:
  assumes "handle_stage2_abort p tf esr s = Some (tf', s')" and "hyp_inv q s"
    and "fault_ipa (mrs HPFAR_EL2 s) (mrs FAR_EL2 s) = GICC_EMU_BASE + 0x0C"
    and "bit esr 24" and "\<not> bit esr 6" and "ucast (drop_bit 16 esr AND 0x1F) = (r :: u32)" and "r < 31"
  shows "tf_x tf' = (tf_x tf)[unat r := of_nat (fst (a_ack (abs_vgic (current s) s)))]
    \<and> abs_vgic (current s) s' = snd (a_ack (abs_vgic (current s) s))
    \<and> tf_elr_el2 tf' = tf_elr_el2 tf + 4 \<and> hyp_inv q s'"
  using guest_iar_abort [OF assms] by simp

definition iar_read_state :: hyp where
  "iar_read_state = vgic_inject 0 27 (boot_state (board 1 0) ((\<lambda>_. 0)(HPFAR_EL2 := 0x80100, FAR_EL2 := 0xC)))"

theorem guest_acknowledge_trapped_witness:
  "\<exists>tf' s'. handle_stage2_abort (board 1 0) some_frame 0x93830007 iar_read_state = Some (tf', s')
     \<and> tf_x tf' ! 3 = 27"
proof -
  let ?s0 = "boot_state (board 1 0) ((\<lambda>_. 0)(HPFAR_EL2 := 0x80100, FAR_EL2 := 0xC))"
  have i0: "hyp_inv (board 1 0) ?s0" using boot_hyp_inv [of 0] by (simp add: hyp_inv_def sched_ok_def line_of_def)
  have i: "hyp_inv (board 1 0) iar_read_state"
    using hyp_inv_vgic_ops(1) [OF i0, of 27] by (simp add: iar_read_state_def)
  have c: "current iar_read_state = 0"
    by (simp add: iar_read_state_def vgic_inject_def)
  have ipa: "fault_ipa (mrs HPFAR_EL2 iar_read_state) (mrs FAR_EL2 iar_read_state) = GICC_EMU_BASE + 0x0C"
    by (simp add: iar_read_state_def mrs_def vgic_inject_def fault_ipa_def hyp_consts)
  have a: "fst (a_ack (abs_vgic 0 iar_read_state)) = 27"
    unfolding iar_read_state_def
    by (subst vgic_inject_abs) (simp_all add: a_inject_def a_ack_def abs_vgic_def pending_set_def vgic_of_def zero_vgic_def Let_def)
  obtain tf' s' where r: "handle_stage2_abort (board 1 0) some_frame 0x93830007 iar_read_state = Some (tf', s')"
    using ipa unfolding handle_stage2_abort_def Let_def vgic_mmio_def
    by (auto simp: split_beta Let_def hyp_consts)
  from guest_acknowledge_trapped [OF r i ipa, of 3] show ?thesis
    using r by (auto simp: c a some_frame_def bit_numeral_rec)
qed

end
