(* ===== verification/Boot.thy ===== *)
theory Boot
  imports Exceptions
begin

text \<open>
  The boot path (\<open>src/src/kmain.c\<close> over the zeroed BSS that \<open>boot.S\<close> leaves), what it
  establishes, and what every later operation of the hypervisor leaves alone: the stage-2
  tables, the translation base of each vCPU and its trap configuration.
\<close>


section \<open>Boot\<close>

text \<open>\<open>Ret xs\<close>: the first guest is entered with \<open>x0\<close> to \<open>x3\<close> holding \<open>xs\<close>.\<close>

definition kmain :: "platform \<Rightarrow> hyp \<Rightarrow> (u64 list outcome \<times> hyp) option" where
  "kmain p s =
     (let s = s\<lparr>io := uart_init (io s)\<rparr>;
          (cur, s) = mrs_dev p CurrentEL s;
          el = drop_bit 2 cur AND 0x3
      in do {
        s \<leftarrow> kprint p [Str ''Hello from EL'', Chr (48 + ucast el), Str NL] s;
        s \<leftarrow> gic_init_el2 p s;
        (r, s) \<leftarrow> sched_init p s;
        (if r \<noteq> Ret () then Some (Halted, s) else do {
           (xs, s) \<leftarrow> sched_start p s;
           Some (Ret xs, s) }) })"


section \<open>What each operation leaves alone\<close>

text \<open>
  The stage-2 tables, the translation control register, the vectors and the exit ring: after
  boot, only the logging of an exit changes any of them.
\<close>

definition keeps :: "hyp \<Rightarrow> hyp \<Rightarrow> bool" where
  "keeps s s' \<longleftrightarrow> s2_l1 s' = s2_l1 s \<and> s2_l2_low s' = s2_l2_low s \<and> s2_l3_gic s' = s2_l3_gic s
     \<and> s2_l3_priv s' = s2_l3_priv s \<and> vm_priv_page s' = vm_priv_page s
     \<and> sys s' VTCR_EL2 = sys s VTCR_EL2 \<and> sys s' VBAR_EL2 = sys s VBAR_EL2
     \<and> exit_ring s' = exit_ring s \<and> exit_ring_head s' = exit_ring_head s
     \<and> exit_ring_count s' = exit_ring_count s"

text \<open>
  In addition, the parked vCPUs, the translation base of the running one and every bit of its
  \<open>HCR_EL2\<close> but \<open>VI\<close>.
\<close>

definition hcr_base :: "u64 \<Rightarrow> u64" where
  "hcr_base w = unset_bit 7 w"

lemma hcr_base_bit: "bit (hcr_base w) n \<longleftrightarrow> n \<noteq> 7 \<and> bit w n"
  by (auto simp: hcr_base_def bit_unset_bit_iff)

lemma hcr_base_set_vi [simp]: "hcr_base (sys (set_vi on s) HCR_EL2) = hcr_base (sys s HCR_EL2)"
  by (rule bit_eqI) (auto simp: hcr_base_bit set_vi_other_bits)

definition keeps_vm :: "hyp \<Rightarrow> hyp \<Rightarrow> bool" where
  "keeps_vm s s' \<longleftrightarrow> keeps s s' \<and> vcpus s' = vcpus s \<and> current s' = current s
     \<and> sys s' VTTBR_EL2 = sys s VTTBR_EL2 \<and> hcr_base (sys s' HCR_EL2) = hcr_base (sys s HCR_EL2)"

lemma keeps_leaf [simp]:
  "keeps s (store w a v t) = keeps s t" "keeps s (upd_vgic vid f t) = keeps s t"
  "keeps s (set_vi on t) = keeps s t" "keeps s (t\<lparr>io := tr\<rparr>) = keeps s t"
  by (simp_all add: keeps_def store_def upd_vgic_def set_vi_def msr_def Let_def)

lemma keeps_refl [simp]: "keeps s s" "keeps_vm s s"
  by (simp_all add: keeps_def keeps_vm_def)

lemma keeps_trans: "keeps s t \<Longrightarrow> keeps t u \<Longrightarrow> keeps s u"
  by (simp add: keeps_def)

lemma keeps_vm_keeps: "keeps_vm s t \<Longrightarrow> keeps s t"
  by (simp add: keeps_vm_def)

lemma keeps_vm_basic [frame_simps]:
  "keeps_vm s (t\<lparr>io := tr\<rparr>) = keeps_vm s t"
  "keeps_vm s (store w a v t) = keeps_vm s t"
  "keeps_vm s (upd_vgic vid f t) = keeps_vm s t"
  "keeps_vm s (set_vi on t) = keeps_vm s t"
  "keeps_vm s (t\<lparr>htimer_ticks := n\<rparr>) = keeps_vm s t"
  "keeps_vm s (t\<lparr>vtimer_ticks := n\<rparr>) = keeps_vm s t"
  "keeps_vm s (t\<lparr>other_ticks := n\<rparr>) = keeps_vm s t"
  by (simp_all add: keeps_vm_def) (simp_all add: keeps_def)

lemma keeps_vm_msr [frame_simps]:
  "r \<noteq> VTCR_EL2 \<Longrightarrow> r \<noteq> VBAR_EL2 \<Longrightarrow> r \<noteq> VTTBR_EL2 \<Longrightarrow> r \<noteq> HCR_EL2 \<Longrightarrow>
    keeps_vm s (msr r v t) = keeps_vm s t"
  by (simp add: keeps_vm_def keeps_def msr_def)

lemma keeps_vm_arm_timer [frame_simps]: "keeps_vm s (arm_hyp_timer_ms p ms t) = keeps_vm s t"
  by (simp add: keeps_vm_def keeps_def arm_hyp_timer_ms_def Let_def mrs_dev_def msr_def)

lemma keeps_vm_vgic [frame_simps]:
  "keeps_vm s (vgic_inject vid i t) = keeps_vm s t"
  "keeps_vm s (vgic_forward_spi vid i iar t) = keeps_vm s t"
  "keeps_vm s (vgic_ack_all vid t) = keeps_vm s t"
  "keeps_vm s (write_reg vid off val t) = keeps_vm s t"
  "keeps_vm s (snd (read_reg vid off t)) = keeps_vm s t"
  "keeps_vm s (reassert_htimer_ppi t) = keeps_vm s t"
  "keeps_vm s (reassert_pl011_rx t) = keeps_vm s t"
  "keeps_vm s (pl011_rx_reassert t) = keeps_vm s t"
  "keeps_vm s (wfi_rearm t) = keeps_vm s t"
  "keeps_vm s (mmio_w b o' v t) = keeps_vm s t"
  "keeps_vm s (snd (gicd_access p wnr sas a v t)) = keeps_vm s t"
  by (simp_all add: vgic_inject_def vgic_forward_spi_def vgic_ack_all_def write_reg_def read_reg_def
      write_eoir_def read_iar_def reassert_htimer_ppi_def reassert_pl011_rx_def pl011_rx_reassert_def
      wfi_rearm_def mmio_w_def gicd_access_def Let_def frame_simps)

lemma keeps_vm_kprint: "kprint p is t = Some t' \<Longrightarrow> keeps_vm s t' = keeps_vm s t"
  by (erule kprint_frame) (simp add: frame_simps)

lemma vgic_mmio_keeps: "vgic_mmio p tf ipa iss s = Some (b, tf', s') \<Longrightarrow> keeps_vm s s'"
  by (auto simp: vgic_mmio_def Let_def split_beta frame_simps keeps_vm_kprint split: if_splits)

lemma handle_hvc_keeps: "handle_hvc p tf esr s = Some (r, s') \<Longrightarrow> keeps_vm s s'"
  by (auto simp: handle_hvc_def handle_psci_def psci_halt_def Let_def frame_simps keeps_vm_kprint
      split: if_splits)

lemma handle_wfi_keeps: "keeps_vm s (snd (handle_wfi p tf esr s))"
  by (simp add: handle_wfi_def Let_def split_beta frame_simps)

lemma handle_stage2_abort_keeps: "handle_stage2_abort p tf esr s = Some (tf', s') \<Longrightarrow> keeps_vm s s'"
  by (auto simp: handle_stage2_abort_def Let_def split_beta dest: vgic_mmio_keeps split: if_splits)

lemma dump_and_halt_keeps: "dump_and_halt p tf kind esr s = Some (r, s') \<Longrightarrow> keeps_vm s s'"
  by (auto simp: dump_and_halt_def Let_def keeps_vm_kprint)

lemma sched_tick_keeps: "keeps s (snd (sched_tick p tf s))"
  by (simp add: sched_tick_def load_vcpu_def load_writes_def keeps_def Let_def split_beta upd_vcpu_def
      arm_hyp_timer_ms_def mrs_dev_def tlbi_def msr_def)

text \<open>An interrupt either leaves the running VM in place or goes through one tick.\<close>

lemma gic_handle_physical_irq_keeps:
  assumes "gic_handle_physical_irq p tf s = Some (tf', s')"
  shows "keeps_vm s s' \<and> tf' = tf \<or>
    (\<exists>t. keeps_vm s t \<and> tf' = fst (sched_tick p tf t) \<and> keeps_vm (snd (sched_tick p tf t)) s')"
proof -
  obtain iar s1 where r: "mmio_r p GICC_BASE_PA GICC_IAR s = (iar, s1)" by (metis surj_pair)
  then have s1: "keeps_vm s s1" using load_snd by (fastforce simp: mmio_r_def frame_simps)
  let ?h = "pl011_rx_reassert (msr CNTHP_CTL_EL2 0 (s1\<lparr>htimer_ticks := htimer_ticks s1 + 1\<rparr>))"
  have h: "keeps_vm s ?h" using s1 by (simp add: frame_simps)
  have "iar AND 0x3ff = IRQ_HTIMER \<Longrightarrow> tf' = fst (sched_tick p tf ?h) \<and>
      keeps_vm (snd (sched_tick p tf ?h)) s'"
    using assms by (auto simp: gic_handle_physical_irq_def r Let_def split_beta irq_distinct
        sched_rearm_tick_def frame_simps)
  moreover have "iar AND 0x3ff \<noteq> IRQ_HTIMER \<Longrightarrow> keeps_vm s s' \<and> tf' = tf"
    using assms s1
    by (auto simp: gic_handle_physical_irq_def r Let_def split_beta frame_simps keeps_vm_kprint
        split: if_splits)
  ultimately show ?thesis using h by blast
qed


section \<open>What boot establishes\<close>

definition new_vcpu :: "platform \<Rightarrow> u32 \<Rightarrow> u32 \<Rightarrow> u64 \<Rightarrow> vcpu \<Rightarrow> vcpu" where
  "new_vcpu p i vmid stack v = v\<lparr>
     v_id := i, v_vmid := vmid, v_vttbr_el2 := vttbr_of p i vmid, v_sp_el1 := stack,
     v_elr_el2 := addr_guest_entry_common p, v_spsr_el2 := SPSR_EL1H_DAIF, v_hcr_el2 := HCR_FLAGS,
     v_cntv_cval := 0, v_cntv_ctl := 0, v_tpidr_el1 := addr_guest_states p + ucast i * 24,
     v_x := (replicate 31 0)[0 := ucast i]\<rparr>"

definition fresh_vgic :: vgic where
  "fresh_vgic = \<lparr>pending_mask = 0, g_ctlr = 0, g_pmr = 0, g_bpr = 0, g_active = NO_INTID, phys_iar = 0,
     has_phys_iar = 0\<rparr>"

lemma fresh_vgicI: "v\<lparr>pending_mask := 0, g_ctlr := 0, g_pmr := 0, g_bpr := 0, g_active := NO_INTID,
    phys_iar := 0, has_phys_iar := 0\<rparr> = fresh_vgic"
  by (rule vgic.equality) (simp_all add: fresh_vgic_def)

text \<open>A vCPU before its tables are allocated, and what is filled in afterwards.\<close>

definition vcpu_cleared :: "u32 \<Rightarrow> u32 \<Rightarrow> hyp \<Rightarrow> hyp" where
  "vcpu_cleared i vmid s = upd_vcpu (unat i) (\<lambda>v. v\<lparr>v_id := i, v_vmid := vmid\<rparr>)
     ((upd_vcpu (unat i) (\<lambda>v. v\<lparr>v_x := replicate 31 0\<rparr>) s)\<lparr>guest_states := (guest_states s)[unat i :=
        \<lparr>gs_id = i, gs_ticks = 0, gs_tick_period = 0\<rparr>]\<rparr>)"

definition vcpu_filled :: "platform \<Rightarrow> u32 \<Rightarrow> u64 \<Rightarrow> u64 \<Rightarrow> hyp \<Rightarrow> hyp" where
  "vcpu_filled p i vttbr st s = upd_vcpu (unat i) (\<lambda>v. v\<lparr>
     v_vttbr_el2 := vttbr, v_sp_el1 := st, v_elr_el2 := addr_guest_entry_common p,
     v_spsr_el2 := SPSR_EL1H_DAIF, v_hcr_el2 := HCR_FLAGS, v_cntv_cval := 0, v_cntv_ctl := 0,
     v_tpidr_el1 := addr_guest_states p + ucast i * 24, v_x := (v_x v)[0 := ucast i]\<rparr>) s"

lemma init_vcpu_run:
  assumes "init_vcpu p i vmid st s = Some (r, s')" and i: "i < MAX_VMS"
  obtains s1 where "stage2_alloc_vm p i vmid (vcpu_cleared i vmid s) = Some (Ret (vttbr_of p i vmid), s1)"
    and "r = Ret ()" and "s' = vgic_init i (vcpu_filled p i (vttbr_of p i vmid) st s1)"
proof -
  have e: "init_vcpu p i vmid st s = do {
        (r, s) \<leftarrow> stage2_alloc_vm p i vmid (vcpu_cleared i vmid s);
        (case r of Ret vttbr \<Rightarrow> Some (Ret (), vgic_init i (vcpu_filled p i vttbr st s))
         | Halted \<Rightarrow> Some (Halted, s) | Eret \<Rightarrow> Some (Eret, s)) }"
    unfolding init_vcpu_def Let_def vcpu_cleared_def vcpu_filled_def by (simp add: upd_vcpu_def)
  obtain r1 s1 where a: "stage2_alloc_vm p i vmid (vcpu_cleared i vmid s) = Some (r1, s1)"
    using assms(1) unfolding e by auto
  then show ?thesis
    using that [of s1] assms(1) stage2_alloc_vm_effect(1) [OF a i] unfolding e by simp
qed

lemma vcpu_filled_fields:
  "s2_l1 (vgic_init i (vcpu_filled p i b st s)) = s2_l1 s"
  "s2_l2_low (vgic_init i (vcpu_filled p i b st s)) = s2_l2_low s"
  "s2_l3_gic (vgic_init i (vcpu_filled p i b st s)) = s2_l3_gic s"
  "s2_l3_priv (vgic_init i (vcpu_filled p i b st s)) = s2_l3_priv s"
  "vm_priv_page (vgic_init i (vcpu_filled p i b st s)) = vm_priv_page s"
  "s2_l1 (vcpu_cleared i m s) = s2_l1 s" "s2_l2_low (vcpu_cleared i m s) = s2_l2_low s"
  "s2_l3_gic (vcpu_cleared i m s) = s2_l3_gic s" "s2_l3_priv (vcpu_cleared i m s) = s2_l3_priv s"
  "vm_priv_page (vcpu_cleared i m s) = vm_priv_page s"
  by (simp_all add: vcpu_filled_def vcpu_cleared_def upd_vcpu_def vgic_init_def upd_vgic_def)

lemma init_vcpu_effect:
  assumes ret: "init_vcpu p i vmid st s = Some (r, s')" and i: "i < MAX_VMS"
    and len: "unat i < length (vcpus s)" "unat i < length (vgics s)"
  shows "r = Ret ()"
    and "vcpus s' = (vcpus s)[unat i := new_vcpu p i vmid st (vcpus s ! unat i)]"
    and "vgics s' = (vgics s)[unat i := fresh_vgic]"
    and "current s' = current s" and "sys s' = sys s"
    and "exit_ring s' = exit_ring s" "exit_ring_head s' = exit_ring_head s"
      "exit_ring_count s' = exit_ring_count s"
    and "tables_ok s \<Longrightarrow> tables_ok s'" and "tables_ok s \<Longrightarrow> has_tables p i s'"
    and "tables_ok s \<Longrightarrow> vm' < MAX_VMS \<Longrightarrow> vm' \<noteq> i \<Longrightarrow> has_tables p vm' s \<Longrightarrow> has_tables p vm' s'"
    and "tables_ok s \<Longrightarrow> vm_priv_page s' ! unat i ! 0 = 65 + ucast i"
    and "tables_ok s \<Longrightarrow> vm' \<noteq> i \<Longrightarrow> vm_priv_page s' ! unat vm' = vm_priv_page s ! unat vm'"
proof -
  let ?s0 = "vcpu_cleared i vmid s"
  obtain s1 where a: "stage2_alloc_vm p i vmid ?s0 = Some (Ret (vttbr_of p i vmid), s1)"
    and rs: "r = Ret ()" "s' = vgic_init i (vcpu_filled p i (vttbr_of p i vmid) st s1)"
    using init_vcpu_run [OF ret i] by blast
  have "vcpus s1 = vcpus ?s0" "vgics s1 = vgics ?s0" "current s1 = current ?s0" "sys s1 = sys ?s0"
    "exit_ring s1 = exit_ring ?s0" "exit_ring_head s1 = exit_ring_head ?s0" "exit_ring_count s1 = exit_ring_count ?s0"
    using stage2_alloc_vm_effect(2) [OF a i] by auto
  note e = this rs
  show "r = Ret ()" by (rule rs)
  show "vcpus s' = (vcpus s)[unat i := new_vcpu p i vmid st (vcpus s ! unat i)]"
    using len by (simp add: e vcpu_cleared_def vcpu_filled_def upd_vcpu_def vgic_init_def new_vcpu_def)
  show "vgics s' = (vgics s)[unat i := fresh_vgic]"
    by (simp add: e vcpu_cleared_def vcpu_filled_def upd_vcpu_def vgic_init_def upd_vgic_def fresh_vgicI)
  show "current s' = current s" and "sys s' = sys s" and "exit_ring s' = exit_ring s"
    and "exit_ring_head s' = exit_ring_head s" and "exit_ring_count s' = exit_ring_count s"
    by (simp_all add: e vcpu_cleared_def vcpu_filled_def upd_vcpu_def vgic_init_def upd_vgic_def)
  have t: "tables_ok s' = tables_ok s1" "has_tables p vm s' = has_tables p vm s1"
    "tables_ok ?s0 = tables_ok s" "has_tables p vm ?s0 = has_tables p vm s"
    "vm_priv_page s' = vm_priv_page s1" "vm_priv_page ?s0 = vm_priv_page s" for vm
    by (simp_all add: rs(2) tables_ok_def has_tables_def vcpu_filled_fields)
  note tb = stage2_alloc_vm_tables [OF a i, unfolded t(3,4,6)]
  show "tables_ok s \<Longrightarrow> tables_ok s'" and "tables_ok s \<Longrightarrow> has_tables p i s'"
    and "tables_ok s \<Longrightarrow> vm' < MAX_VMS \<Longrightarrow> vm' \<noteq> i \<Longrightarrow> has_tables p vm' s \<Longrightarrow> has_tables p vm' s'"
    and "tables_ok s \<Longrightarrow> vm_priv_page s' ! unat i ! 0 = 65 + ucast i"
    and "tables_ok s \<Longrightarrow> vm' \<noteq> i \<Longrightarrow> vm_priv_page s' ! unat vm' = vm_priv_page s ! unat vm'"
    by (simp_all add: t(1,2,5) tb)
qed

section \<open>Isolation state of the virtual machines\<close>

text \<open>
  Translation base and hypervisor configuration a vCPU runs with: the hardware registers for
  the current one, the saved values for the others.
\<close>

definition reg_at :: "sysreg \<Rightarrow> (vcpu \<Rightarrow> u64) \<Rightarrow> hyp \<Rightarrow> nat \<Rightarrow> u64" where
  "reg_at r f s i = (if i = unat (current s) then sys s r else f (vcpus s ! i))"

definition vm_inv :: "platform \<Rightarrow> hyp \<Rightarrow> bool" where
  "vm_inv p s \<longleftrightarrow> tables_ok s \<and> sys s VTCR_EL2 = vtcr_value \<and> length (vcpus s) \<le> 2 \<and>
     (\<forall>i < length (vcpus s). has_tables p (of_nat i) s
        \<and> reg_at VTTBR_EL2 v_vttbr_el2 s i = vttbr_of p (of_nat i) (of_nat i + 1)
        \<and> hcr_base (reg_at HCR_EL2 v_hcr_el2 s i) = HCR_FLAGS)"

lemma keeps_tables: "keeps s s' \<Longrightarrow> tables_ok s' = tables_ok s \<and> has_tables p vm s' = has_tables p vm s"
  by (simp add: keeps_def tables_ok_def has_tables_def)

lemma vm_inv_keeps_vm: "keeps_vm s s' \<Longrightarrow> vm_inv p s' = vm_inv p s"
  by (auto simp: vm_inv_def keeps_vm_def keeps_tables reg_at_def) (simp_all add: keeps_def)

lemma reg_at_sched_tick:
  assumes ok: "sched_ok p s" and x: "length (tf_x tf) = 31" and i: "i < length (vcpus s)"
  shows "reg_at VTTBR_EL2 v_vttbr_el2 (snd (sched_tick p tf s)) i = reg_at VTTBR_EL2 v_vttbr_el2 s i
    \<and> reg_at HCR_EL2 v_hcr_el2 (snd (sched_tick p tf s)) i = reg_at HCR_EL2 v_hcr_el2 s i"
proof (cases "nvcpu p > 1")
  case True
  note e = sched_tick_effect [OF ok True x]
  have "sys (snd (sched_tick p tf s)) VTTBR_EL2 =
      v_vttbr_el2 (vcpus s ! ((unat (current s) + 1) mod unat (nvcpu p)))"
    using e(3) by (simp add: ctx_of_def ctx_regs_def vcpu_ctx_def)
  then show ?thesis using e(6) i
    by (auto simp: reg_at_def e(1,2,4) nth_list_update_if) (simp add: save_vcpu_def mrs_def)
qed (simp add: sched_tick_single)

lemma vm_inv_sched_tick:
  assumes ok: "sched_ok p s" and x: "length (tf_x tf) = 31" and inv: "vm_inv p s"
  shows "vm_inv p (snd (sched_tick p tf s))"
proof -
  have k: "keeps s (snd (sched_tick p tf s))" by (rule sched_tick_keeps)
  have l: "length (vcpus (snd (sched_tick p tf s))) = length (vcpus s)"
    using ok sched_tick_ok [OF ok x] by (simp add: sched_ok_def)
  have v: "sys (snd (sched_tick p tf s)) VTCR_EL2 = sys s VTCR_EL2" using k by (simp add: keeps_def)
  show ?thesis
    using inv by (simp add: vm_inv_def l v keeps_tables [OF k] reg_at_sched_tick [OF ok x])
qed

lemma vm_inv_log_exit [simp]: "vm_inv p (log_exit tf kind s) = vm_inv p s"
  by (simp add: vm_inv_def log_exit_def exit_ring_push_def tables_ok_def has_tables_def reg_at_def)

text \<open>No handler changes which translation tables or which trap configuration a vCPU runs with.\<close>

lemma handle_exception_vm_inv:
  assumes hyp: "hyp_inv p s" and x: "length (tf_x tf) = 31" and inv: "vm_inv p s"
    and ret: "handle_exception p tf kind s = Some (r, s')"
  shows "vm_inv p s'"
proof -
  have i: "vm_inv p (log_exit tf kind s)" "sched_ok p (log_exit tf kind s)"
    using inv hyp log_exit_inv [of p tf kind s] by (simp_all add: hyp_inv_def)
  from ret show ?thesis
  proof (cases rule: handle_exception_cases)
    case (irq tf2)
    from gic_handle_physical_irq_keeps [OF irq(3)] show ?thesis
    proof
      assume "keeps_vm (log_exit tf kind s) s' \<and> tf2 = tf"
      then show ?thesis using i vm_inv_keeps_vm by blast
    next
      assume "\<exists>t. keeps_vm (log_exit tf kind s) t \<and> tf2 = fst (sched_tick p tf t)
        \<and> keeps_vm (snd (sched_tick p tf t)) s'"
      then obtain t where t: "keeps_vm (log_exit tf kind s) t" "keeps_vm (snd (sched_tick p tf t)) s'"
        by blast
      have "sched_ok p t" using i(2) t(1) by (simp add: sched_ok_def keeps_vm_def)
      then show ?thesis using vm_inv_sched_tick x i(1) t vm_inv_keeps_vm by blast
    qed
  next
    case hvc
    then show ?thesis using handle_hvc_keeps vm_inv_keeps_vm i by blast
  next
    case wfi
    then show ?thesis using handle_wfi_keeps vm_inv_keeps_vm i by metis
  next
    case abort
    then show ?thesis using handle_stage2_abort_keeps vm_inv_keeps_vm i by blast
  next
    case sysreg
    then show ?thesis using i by auto
  next
    case dump
    then show ?thesis using dump_and_halt_keeps vm_inv_keeps_vm i by blast
  qed
qed


section \<open>Boot establishes the invariants\<close>

definition linux_vcpu :: "platform \<Rightarrow> vcpu \<Rightarrow> vcpu" where
  "linux_vcpu p v = (new_vcpu p 0 1 (guest_stack_top_a p) v)\<lparr>v_elr_el2 := LINUX_ENTRY_IPA,
     v_x := (replicate 31 0)[0 := LINUX_DTB_IPA]\<rparr>"

lemma stage2_global_init_effect:
  assumes "stage2_global_init p s = Some s'"
  shows "sys s' = (sys s)(CNTVOFF_EL2 := 0, VTCR_EL2 := vtcr_value)" "vcpus s' = vcpus s"
    "vgics s' = vgics s" "tables_ok s' = tables_ok s"
    "exit_ring s' = exit_ring s" "exit_ring_head s' = exit_ring_head s"
    "exit_ring_count s' = exit_ring_count s"
  using assms
  by (auto simp: stage2_global_init_def Let_def msr_def tables_ok_def elim!: kprint_frame)

text \<open>The first vCPU, once \<open>sched_init\<close> has pointed it at Linux.\<close>

definition aim_linux :: "hyp \<Rightarrow> hyp" where
  "aim_linux s = upd_vcpu 0 (\<lambda>v. v\<lparr>v_elr_el2 := LINUX_ENTRY_IPA,
     v_x := (v_x v)[0 := LINUX_DTB_IPA, 1 := 0, 2 := 0, 3 := 0]\<rparr>) s"

lemma first_vcpu_effect:
  assumes run: "init_vcpu p 0 1 (guest_stack_top_a p) s = Some (r, s')" and tab: "tables_ok s"
    and pos: "vcpus s \<noteq> []" "vgics s \<noteq> []"
  shows "r = Ret ()" and "vcpus (aim_linux s') = (vcpus s)[0 := linux_vcpu p (vcpus s ! 0)]"
    and "vgics (aim_linux s') = (vgics s)[0 := fresh_vgic]" "sys (aim_linux s') = sys s"
    and "exit_ring (aim_linux s') = exit_ring s" "exit_ring_head (aim_linux s') = exit_ring_head s"
      "exit_ring_count (aim_linux s') = exit_ring_count s"
    and "tables_ok (aim_linux s')" "has_tables p 0 (aim_linux s')" "vm_priv_page (aim_linux s') ! 0 ! 0 = 65"
proof -
  have "(0 :: u32) < MAX_VMS" by (simp add: MAX_VMS_def)
  note e = init_vcpu_effect [OF run this, simplified, OF pos]
  have x0: "(replicate 31 (0 :: u64))[0 := LINUX_DTB_IPA, Suc 0 := 0, 2 := 0, 3 := 0] =
      (replicate 31 0)[0 := LINUX_DTB_IPA]"
    by (simp add: numeral_eq_Suc)
  show "r = Ret ()" by (rule e)
  show "vcpus (aim_linux s') = (vcpus s)[0 := linux_vcpu p (vcpus s ! 0)]"
    using pos by (simp add: aim_linux_def upd_vcpu_def e linux_vcpu_def new_vcpu_def x0)
  show "tables_ok (aim_linux s')" "has_tables p 0 (aim_linux s')" "vm_priv_page (aim_linux s') ! 0 ! 0 = 65"
    using e(9,10,12) tab by (simp_all add: aim_linux_def upd_vcpu_def tables_ok_def has_tables_def)
  show "vgics (aim_linux s') = (vgics s)[0 := fresh_vgic]" "sys (aim_linux s') = sys s"
    "exit_ring (aim_linux s') = exit_ring s" "exit_ring_head (aim_linux s') = exit_ring_head s"
    "exit_ring_count (aim_linux s') = exit_ring_count s"
    by (simp_all add: aim_linux_def upd_vcpu_def e)
qed

text \<open>What holds once every vCPU is initialised, relative to the state \<open>s\<close> before the first.\<close>

definition vcpus_made :: "platform \<Rightarrow> hyp \<Rightarrow> hyp \<Rightarrow> bool" where
  "vcpus_made p s t \<longleftrightarrow> vcpus t = linux_vcpu p (vcpus s ! 0) #
      (if nvcpu p = 2 then [new_vcpu p 1 2 (guest_stack_top_b p) (vcpus s ! 1)] else [])
    \<and> tables_ok t \<and> sys t = sys s \<and> length (vgics t) = 4
    \<and> (\<forall>i < unat (nvcpu p). vgics t ! i = fresh_vgic \<and> has_tables p (of_nat i) t
          \<and> vm_priv_page t ! i ! 0 = 65 + of_nat i)
    \<and> exit_ring t = exit_ring s \<and> exit_ring_head t = exit_ring_head s \<and> exit_ring_count t = exit_ring_count s"

lemma second_vcpu_effect:
  assumes one: "init_vcpu p 0 1 (guest_stack_top_a p) s = Some (r0, s0)" and tab: "tables_ok s"
    and len: "length (vcpus s) = 2" "length (vgics s) = 4" and n: "nvcpu p = 2"
    and two: "init_vcpu p 1 2 (guest_stack_top_b p) (aim_linux s0) = Some (r, t)"
  shows "r = Ret () \<and> vcpus_made p s t"
proof -
  have pos: "vcpus s \<noteq> []" "vgics s \<noteq> []" using len by auto
  note f = first_vcpu_effect [OF one tab pos]
  obtain a b where ab: "vcpus s = [a, b]" using len(1) by (auto simp: length_Suc_conv numeral_2_eq_2)
  have vms: "(0 :: u32) < MAX_VMS" "(1 :: u32) < MAX_VMS" by (simp_all add: MAX_VMS_def)
  have "unat (1 :: u32) < length (vcpus (aim_linux s0))" "unat (1 :: u32) < length (vgics (aim_linux s0))"
    using len by (simp_all add: f)
  note e = init_vcpu_effect [OF two vms(2) this]
  have "r = Ret ()" "vcpus t = [linux_vcpu p a, new_vcpu p 1 2 (guest_stack_top_b p) b]"
    "vgics t = (vgics s)[0 := fresh_vgic, 1 := fresh_vgic]" "sys t = sys s" "exit_ring t = exit_ring s"
    "exit_ring_head t = exit_ring_head s" "exit_ring_count t = exit_ring_count s"
    "tables_ok t" "has_tables p 1 t" "has_tables p 0 t" "vm_priv_page t ! 1 ! 0 = 66" "vm_priv_page t ! 0 ! 0 = 65"
    using e(12) [OF f(8)] e(13) [OF f(8), of 0] by (simp_all add: e f vms ab)
  then show ?thesis using n len(2) by (auto simp: vcpus_made_def ab less_2_cases_iff)
qed

lemma sched_init_run:
  assumes "sched_init p s = Some (r, s')"
  obtains s1 r2 s2 where "stage2_global_init p s = Some s1"
    and "init_vcpu p 0 1 (guest_stack_top_a p) s1 = Some (r2, s2)"
    and "r2 = Ret () \<Longrightarrow> \<exists>r4 s4. (if nvcpu p > 1 then init_vcpu p 1 2 (guest_stack_top_b p) (aim_linux s2)
          else Some (Ret (), aim_linux s2)) = Some (r4, s4)
        \<and> (r4 = Ret () \<longrightarrow> r = Ret () \<and> (\<exists>es. s' = s4\<lparr>current := 0, io := io s4 @ es\<rparr>))"
proof -
  from assms obtain s1 where s1: "stage2_global_init p s = Some s1" by (auto simp: sched_init_def)
  with assms obtain r2 s2 where s2: "init_vcpu p 0 1 (guest_stack_top_a p) s1 = Some (r2, s2)"
    by (auto simp: sched_init_def)
  show ?thesis
  proof (rule that [OF s1 s2])
    assume "r2 = Ret ()"
    with assms show "\<exists>r4 s4. (if nvcpu p > 1 then init_vcpu p 1 2 (guest_stack_top_b p) (aim_linux s2)
          else Some (Ret (), aim_linux s2)) = Some (r4, s4)
        \<and> (r4 = Ret () \<longrightarrow> r = Ret () \<and> (\<exists>es. s' = s4\<lparr>current := 0, io := io s4 @ es\<rparr>))"
      unfolding aim_linux_def
      by (auto simp: sched_init_def s1 s2 Let_def simp del: One_nat_def elim!: kprint_frame split: if_splits)
        (rule exI, rule refl)
  qed
qed

lemma sched_init_effect:
  assumes ret: "sched_init p s = Some (r, s')"
    and n: "nvcpu p = 1 \<or> nvcpu p = 2" and len: "length (vcpus s) = unat (nvcpu p)"
    and g: "length (vgics s) = 4" and tab: "tables_ok s"
  shows "r = Ret ()"
    and "vcpus s' = linux_vcpu p (vcpus s ! 0) #
      (if nvcpu p = 2 then [new_vcpu p 1 2 (guest_stack_top_b p) (vcpus s ! 1)] else [])"
    and "current s' = 0" and "tables_ok s'" and "sys s' VTCR_EL2 = vtcr_value"
    and "length (vgics s') = 4"
    and "i < unat (nvcpu p) \<Longrightarrow> vgics s' ! i = fresh_vgic \<and> has_tables p (of_nat i) s'
      \<and> vm_priv_page s' ! i ! 0 = 65 + of_nat i"
    and "exit_ring s' = exit_ring s" "exit_ring_head s' = exit_ring_head s"
      "exit_ring_count s' = exit_ring_count s" "sys s' VBAR_EL2 = sys s VBAR_EL2"
proof -
  obtain s1 r2 s2 where s1: "stage2_global_init p s = Some s1"
    and s2: "init_vcpu p 0 1 (guest_stack_top_a p) s1 = Some (r2, s2)"
    and more: "r2 = Ret () \<Longrightarrow> \<exists>r4 s4. (if nvcpu p > 1 then init_vcpu p 1 2 (guest_stack_top_b p) (aim_linux s2)
          else Some (Ret (), aim_linux s2)) = Some (r4, s4)
        \<and> (r4 = Ret () \<longrightarrow> r = Ret () \<and> (\<exists>es. s' = s4\<lparr>current := 0, io := io s4 @ es\<rparr>))"
    using sched_init_run [OF ret] by metis
  note g1 = stage2_global_init_effect [OF s1]
  have tab1: "tables_ok s1" and pos: "vcpus s1 \<noteq> []" "vgics s1 \<noteq> []" using n len g tab by (auto simp: g1)
  note f = first_vcpu_effect [OF s2 tab1 pos]
  obtain r4 s4 where s4: "(if nvcpu p > 1 then init_vcpu p 1 2 (guest_stack_top_b p) (aim_linux s2)
        else Some (Ret (), aim_linux s2)) = Some (r4, s4)"
    and r4: "r4 = Ret () \<Longrightarrow> r = Ret () \<and> (\<exists>es. s' = s4\<lparr>current := 0, io := io s4 @ es\<rparr>)"
    using more [OF f(1)] by blast
  have made: "r4 = Ret () \<and> vcpus_made p s1 s4"
  proof (cases "nvcpu p = 2")
    case True
    then show ?thesis using second_vcpu_effect [OF s2 tab1] s4 len g by (simp add: g1)
  next
    case False
    then have one: "nvcpu p = 1" using n by simp
    then obtain a where "vcpus s1 = [a]" using len by (auto simp: length_Suc_conv g1)
    then show ?thesis using s4 f g one by (simp add: vcpus_made_def g1)
  qed
  then obtain es where "r = Ret ()" and s': "s' = s4\<lparr>current := 0, io := io s4 @ es\<rparr>" using r4 by blast
  then show "r = Ret ()" by simp
  show "vcpus s' = linux_vcpu p (vcpus s ! 0) #
      (if nvcpu p = 2 then [new_vcpu p 1 2 (guest_stack_top_b p) (vcpus s ! 1)] else [])"
    and "current s' = 0" and "tables_ok s'" and "sys s' VTCR_EL2 = vtcr_value" and "length (vgics s') = 4"
    and "exit_ring s' = exit_ring s" "exit_ring_head s' = exit_ring_head s" "exit_ring_count s' = exit_ring_count s"
    and "sys s' VBAR_EL2 = sys s VBAR_EL2"
    using made by (simp_all add: s' tables_ok_def vcpus_made_def g1)
  show "vgics s' ! i = fresh_vgic \<and> has_tables p (of_nat i) s' \<and> vm_priv_page s' ! i ! 0 = 65 + of_nat i"
    if "i < unat (nvcpu p)"
    using made that by (simp add: s' has_tables_def vcpus_made_def)
qed

lemma gic_init_el2_frame:
  assumes "gic_init_el2 p s = Some s'"
  obtains es where "s' = s\<lparr>io := io s @ es\<rparr>"
  using assms by (auto simp: gic_init_el2_def mmio_w_def store_def Let_def elim!: kprint_frame)

lemma sched_start_effect:
  assumes "sched_start p s = Some (xs, s')"
  defines "v \<equiv> current_vcpu s"
  shows "xs = [v_x v ! 0, v_x v ! 1, v_x v ! 2, v_x v ! 3]"
    and "vcpus s' = vcpus s" "vgics s' = vgics s" "current s' = current s" "keeps s s'"
    and "sys s' ELR_EL2 = v_elr_el2 v" "sys s' SPSR_EL2 = v_spsr_el2 v"
      "sys s' VTTBR_EL2 = v_vttbr_el2 v" "sys s' HCR_EL2 = v_hcr_el2 v"
      "sys s' TPIDR_EL1 = v_tpidr_el1 v" "sys s' SP_EL1 = v_sp_el1 v"
      "sys s' CNTHP_CTL_EL2 = 1"
proof -
  let ?t = "arm_hyp_timer_ms p SLICE_MS (msrs [(HCR_EL2, v_hcr_el2 v), (SP_EL1, v_sp_el1 v),
      (VTTBR_EL2, v_vttbr_el2 v), (CNTV_CVAL_EL0, v_cntv_cval v), (CNTV_CTL_EL0, v_cntv_ctl v),
      (TPIDR_EL1, v_tpidr_el1 v), (ELR_EL2, v_elr_el2 v), (SPSR_EL2, v_spsr_el2 v)] s)"
  obtain es where s': "s' = ?t\<lparr>io := io ?t @ es\<rparr>"
      and x: "xs = [v_x v ! 0, v_x v ! 1, v_x v ! 2, v_x v ! 3]"
    using assms by (auto simp: sched_start_def Let_def elim!: kprint_frame)
  show "xs = [v_x v ! 0, v_x v ! 1, v_x v ! 2, v_x v ! 3]" by (rule x)
  show "vcpus s' = vcpus s" "vgics s' = vgics s" "current s' = current s"
    "sys s' ELR_EL2 = v_elr_el2 v" "sys s' SPSR_EL2 = v_spsr_el2 v"
      "sys s' VTTBR_EL2 = v_vttbr_el2 v" "sys s' HCR_EL2 = v_hcr_el2 v"
      "sys s' TPIDR_EL1 = v_tpidr_el1 v" "sys s' SP_EL1 = v_sp_el1 v"
    by (simp_all add: s' sys_msrs)
  show "keeps s s'"
    by (simp add: s' keeps_def arm_hyp_timer_ms_def mrs_dev_def msr_def Let_def)
  show "sys s' CNTHP_CTL_EL2 = 1"
    by (simp add: s' arm_hyp_timer_ms_def mrs_dev_def msr_def Let_def)
qed

lemma boot_state_ok:
  "length (vcpus (boot_state p regs)) = unat (nvcpu p)" "length (vgics (boot_state p regs)) = 4"
  "tables_ok (boot_state p regs)" "ring_ok [] (boot_state p regs)"
  by (simp_all add: boot_state_def tables_ok_def ring_ok_def list_all_iff)

lemma new_vcpu_fields [simp]:
  "v_id (new_vcpu p i m st v) = i" "length (v_x (new_vcpu p i m st v)) = 31"
  "v_vttbr_el2 (new_vcpu p i m st v) = vttbr_of p i m" "v_hcr_el2 (new_vcpu p i m st v) = HCR_FLAGS"
  by (simp_all add: new_vcpu_def)

lemma linux_vcpu_fields [simp]:
  "v_id (linux_vcpu p v) = 0" "v_x (linux_vcpu p v) = LINUX_DTB_IPA # replicate 30 0"
  "v_vttbr_el2 (linux_vcpu p v) = vttbr_of p 0 1" "v_hcr_el2 (linux_vcpu p v) = HCR_FLAGS"
  "v_elr_el2 (linux_vcpu p v) = LINUX_ENTRY_IPA" "v_spsr_el2 (linux_vcpu p v) = SPSR_EL1H_DAIF"
  by (simp_all add: linux_vcpu_def numeral_eq_Suc) (simp_all add: new_vcpu_def)

lemma hcr_base_FLAGS [simp]: "hcr_base HCR_FLAGS = HCR_FLAGS" "\<not> vi_of HCR_FLAGS"
  by (simp_all add: hcr_base_def hyp_consts vi_of_def unset_bit_eq_and_not bit_simps) 

lemma fresh_vgic_wf [simp]: "vgic_wf fresh_vgic" "pending_mask fresh_vgic = 0"
  by (simp_all add: fresh_vgic_def vgic_wf_def)

lemma sched_init_inv:
  assumes "sched_init p s = Some (r, s1)" and "sched_start p s1 = Some (xs, s')"
    and "nvcpu p = 1 \<or> nvcpu p = 2" and "length (vcpus s) = unat (nvcpu p)"
    and "length (vgics s) = 4" and "tables_ok s"
  shows "hyp_inv p s'" and "vm_inv p s'"
    and "xs = [LINUX_DTB_IPA, 0, 0, 0]" "sys s' ELR_EL2 = LINUX_ENTRY_IPA"
      "sys s' SPSR_EL2 = SPSR_EL1H_DAIF" "sys s' CNTHP_CTL_EL2 = 1"
    and "ring_ok hist s \<Longrightarrow> ring_ok hist s'"
    and "i < unat (nvcpu p) \<Longrightarrow> vm_priv_page s' ! i ! 0 = 65 + of_nat i"
    and "sys s' VBAR_EL2 = sys s VBAR_EL2"
proof -
  note i = sched_init_effect [OF assms(1,3-6)]
  note b = sched_start_effect [OF assms(2)]
  have cur: "current_vcpu s1 = linux_vcpu p (vcpus s ! 0)"
    by (simp add: current_vcpu_def i(2,3))
  have k: "keeps s1 s'" by (rule b)
  then show "sys s' VBAR_EL2 = sys s VBAR_EL2" by (simp add: keeps_def i)
  show "xs = [LINUX_DTB_IPA, 0, 0, 0]" "sys s' ELR_EL2 = LINUX_ENTRY_IPA"
      "sys s' SPSR_EL2 = SPSR_EL1H_DAIF" "sys s' CNTHP_CTL_EL2 = 1"
    by (simp_all add: b cur)
  show "ring_ok hist s'" if "ring_ok hist s"
    using that k by (simp add: ring_ok_def keeps_def i)
  have t: "tables_ok s'" "sys s' VTCR_EL2 = vtcr_value"
    "\<forall>i < unat (nvcpu p). vgics s' ! i = fresh_vgic \<and> has_tables p (of_nat i) s'"
    using i(4,5,7) k by (simp_all add: keeps_tables [OF k] b(3)) (simp add: keeps_def)
  show "vm_priv_page s' ! i ! 0 = 65 + of_nat i" if "i < unat (nvcpu p)"
    using i(7) [OF that] k by (simp add: keeps_def)
  show "hyp_inv p s'"
    using assms(3)
    by (elim disjE) (use t i(6) in \<open>auto simp: hyp_inv_def sched_ok_def b i line_of_def cur less_Suc_eq\<close>)
  show "vm_inv p s'"
    using assms(3)
    by (elim disjE) (use t in \<open>auto simp: vm_inv_def reg_at_def b i cur less_Suc_eq dest: spec [of _ 0] spec [of _ 1]\<close>)
qed

lemma kmain_effect:
  assumes ret: "kmain p (boot_state p regs) = Some (r, s)" and n: "nvcpu p = 1 \<or> nvcpu p = 2"
  shows "r = Ret [LINUX_DTB_IPA, 0, 0, 0]" "hyp_inv p s" "vm_inv p s" "ring_ok [] s"
    "sys s ELR_EL2 = LINUX_ENTRY_IPA" "sys s SPSR_EL2 = SPSR_EL1H_DAIF" "sys s CNTHP_CTL_EL2 = 1"
    "i < unat (nvcpu p) \<Longrightarrow> vm_priv_page s ! i ! 0 = 65 + of_nat i" "sys s VBAR_EL2 = regs VBAR_EL2"
proof -
  obtain es r2 s1 where i: "sched_init p (boot_state p regs\<lparr>io := es\<rparr>) = Some (r2, s1)"
      and st: "(if r2 \<noteq> Ret () then Some (Halted, s1)
        else sched_start p s1 \<bind> (\<lambda>(xs, s). Some (Ret xs, s))) = Some (r, s)"
    using ret
    by (auto simp: kmain_def Let_def mrs_dev_def elim!: kprint_frame gic_init_el2_frame)
  have b: "length (vcpus (boot_state p regs\<lparr>io := es\<rparr>)) = unat (nvcpu p)"
    "length (vgics (boot_state p regs\<lparr>io := es\<rparr>)) = 4" "tables_ok (boot_state p regs\<lparr>io := es\<rparr>)"
    "ring_ok [] (boot_state p regs\<lparr>io := es\<rparr>)"
    using boot_state_ok [of p regs] by (simp_all add: ring_ok_def)
  have "r2 = Ret ()" by (rule sched_init_effect(1) [OF i n b(1-3)])
  with st obtain xs where r: "r = Ret xs" and "sched_start p s1 = Some (xs, s)" by auto
  note e = sched_init_inv [OF i this(2) n b(1-3)]
  show "r = Ret [LINUX_DTB_IPA, 0, 0, 0]" "hyp_inv p s" "vm_inv p s" "ring_ok [] s"
    "sys s ELR_EL2 = LINUX_ENTRY_IPA" "sys s SPSR_EL2 = SPSR_EL1H_DAIF" "sys s CNTHP_CTL_EL2 = 1" "sys s VBAR_EL2 = regs VBAR_EL2"
    by (simp_all add: r e b(4))
  show "vm_priv_page s ! i ! 0 = 65 + of_nat i" if "i < unat (nvcpu p)" using that by (rule e(8))
qed

end
