(* ===== verification/System.thy ===== *)
theory System
  imports Boot
begin

text \<open>
  The hypervisor as a transition system: after the first \<open>eret\<close>, guest execution and traps into
  \<open>handle_exception\<close> alternate for ever. The reachable configurations carry the
  hypervisor-wide invariants of the other theories, and \<open>own\<close> bounds what handling one exit changes.
\<close>


section \<open>The hypervisor as a transition system\<close>

text \<open>
  After the first \<open>eret\<close> the CPU runs a guest until an exception takes it to EL2. What the guest
  did in between is any change of the registers EL1 may write, of the syndrome registers the
  exception itself writes, and of the devices the guest reached directly (it extends the trace);
  the EL2 control registers and the variables of the hypervisor are not the guest's to write.
  The last point is an assumption on the guest and not a consequence of the stage-2 tables,
  which map all of RAM.
\<close>

definition el2_regs :: "sysreg list" where
  "el2_regs = [VTTBR_EL2, HCR_EL2, VTCR_EL2, VBAR_EL2, CNTVOFF_EL2, CNTHP_CVAL_EL2, CNTHP_CTL_EL2]"

definition guest_runs :: "hyp \<Rightarrow> hyp \<Rightarrow> bool" where
  "guest_runs s s' \<longleftrightarrow> (\<exists>f es gs. s' = s\<lparr>sys := f, io := io s @ es, guest_states := gs\<rparr>
     \<and> (\<forall>r \<in> set el2_regs. f r = sys s r))"

datatype config =
    In_guest "exit_record list" hyp
  | In_handler "exit_record list" trap_frame u64 hyp
  | Stopped "exit_record list" hyp

definition exit_of :: "trap_frame \<Rightarrow> u64 \<Rightarrow> hyp \<Rightarrow> exit_record" where
  "exit_of tf kind s = \<lparr>e_esr = mrs ESR_EL2 s, e_elr = tf_elr_el2 tf, e_far = mrs FAR_EL2 s, e_kind = kind,
     e_vcpu = v_id (current_vcpu s)\<rparr>"

text \<open>The list of exit records is the full history of exits, oldest first.\<close>

inductive hyp_step :: "platform \<Rightarrow> config \<Rightarrow> config \<Rightarrow> bool" for p where
  trap: "guest_runs s s' \<Longrightarrow> length (tf_x tf) = 31 \<Longrightarrow>
    hyp_step p (In_guest hist s) (In_handler hist tf kind s')"
| resume: "handle_exception p tf kind s = Some (Ret tf', s') \<Longrightarrow>
    hyp_step p (In_handler hist tf kind s) (In_guest (hist @ [exit_of tf kind s]) s')"
| stop: "handle_exception p tf kind s = Some (Halted, s') \<Longrightarrow>
    hyp_step p (In_handler hist tf kind s) (Stopped (hist @ [exit_of tf kind s]) s')"

inductive reachable :: "platform \<Rightarrow> config \<Rightarrow> bool" for p where
  boot: "kmain p (boot_state p regs) = Some (Ret xs, s) \<Longrightarrow> reachable p (In_guest [] s)"
| step: "reachable p c \<Longrightarrow> hyp_step p c c' \<Longrightarrow> reachable p c'"

inductive_cases guest_stepE: "hyp_step p (In_guest hist s) c"
inductive_cases handler_stepE: "hyp_step p (In_handler hist tf kind s) c"
inductive_simps stopped_step [simp]: "hyp_step p (Stopped hist s) c"

fun config_inv :: "platform \<Rightarrow> config \<Rightarrow> bool" where
  "config_inv p (In_guest hist s) \<longleftrightarrow> hyp_inv p s \<and> vm_inv p s \<and> (length hist < 2 ^ 64 \<longrightarrow> ring_ok hist s)"
| "config_inv p (In_handler hist tf kind s) \<longleftrightarrow>
     hyp_inv p s \<and> vm_inv p s \<and> length (tf_x tf) = 31 \<and> (length hist < 2 ^ 64 \<longrightarrow> ring_ok hist s)"
| "config_inv p (Stopped hist s) \<longleftrightarrow> hyp_inv p s \<and> vm_inv p s \<and> (length hist < 2 ^ 64 \<longrightarrow> ring_ok hist s)"

lemma guest_runs_inv:
  assumes "guest_runs s s'"
  shows "hyp_inv p s' = hyp_inv p s" "vm_inv p s' = vm_inv p s" "ring_ok hist s' = ring_ok hist s"
proof -
  obtain f es gs where s': "s' = s\<lparr>sys := f, io := io s @ es, guest_states := gs\<rparr>"
    and "f VTTBR_EL2 = sys s VTTBR_EL2" "f HCR_EL2 = sys s HCR_EL2" "f VTCR_EL2 = sys s VTCR_EL2"
    using assms by (auto simp: guest_runs_def el2_regs_def)
  then show "hyp_inv p s' = hyp_inv p s" "vm_inv p s' = vm_inv p s" "ring_ok hist s' = ring_ok hist s"
    by (simp_all add: hyp_inv_def sched_ok_def line_of_def vm_inv_def tables_ok_def has_tables_def
        reg_at_def ring_ok_def)
qed

lemma ring_ok_keeps: "keeps s s' \<Longrightarrow> ring_ok hist s' = ring_ok hist s"
  by (simp add: ring_ok_def keeps_def)

lemma handle_exception_keeps:
  assumes "handle_exception p tf kind s = Some (r, s')"
  shows "keeps (log_exit tf kind s) s'"
  using assms
proof (cases rule: handle_exception_cases)
  case (irq tf')
  from gic_handle_physical_irq_keeps [OF irq(3)] show ?thesis
    using keeps_vm_keeps keeps_trans sched_tick_keeps by blast
next
  case wfi
  then show ?thesis using handle_wfi_keeps keeps_vm_keeps by metis
qed (auto dest: handle_hvc_keeps handle_stage2_abort_keeps dump_and_halt_keeps keeps_vm_keeps)

lemma handle_exception_ring:
  assumes "handle_exception p tf kind s = Some (r, s')" and "length hist < 2 ^ 64 \<Longrightarrow> ring_ok hist s"
    and "length (hist @ [exit_of tf kind s]) < 2 ^ 64"
  shows "ring_ok (hist @ [exit_of tf kind s]) s'"
  using exit_ring_push_ok [of hist s] assms(2,3)
  by (simp add: ring_ok_keeps [OF handle_exception_keeps [OF assms(1)]] log_exit_def exit_of_def)

lemma handle_exception_config:
  assumes "handle_exception p tf kind s = Some (r, s')" and "config_inv p (In_handler hist tf kind s)"
  shows "config_inv p (In_guest (hist @ [exit_of tf kind s]) s')"
proof -
  have i: "hyp_inv p s" "vm_inv p s" "length (tf_x tf) = 31" "length hist < 2 ^ 64 \<Longrightarrow> ring_ok hist s"
    using assms(2) by simp_all
  have "hyp_inv p s'" using handle_exception_inv [OF i(1,3) assms(1)] by simp
  moreover have "vm_inv p s'" by (rule handle_exception_vm_inv [OF i(1,3,2) assms(1)])
  ultimately show ?thesis using handle_exception_ring [OF assms(1) i(4)] by simp
qed

lemma step_config_inv: "hyp_step p c c' \<Longrightarrow> config_inv p c \<Longrightarrow> config_inv p c'"
proof (induction rule: hyp_step.induct)
  case (trap s s' tf hist kind)
  then show ?case by (simp add: guest_runs_inv)
next
  case (resume tf kind s tf' s' hist)
  then show ?case by (rule handle_exception_config)
next
  case (stop tf kind s s' hist)
  then show ?case using handle_exception_config by fastforce
qed

lemma reachable_config_inv:
  assumes "reachable p c" and "nvcpu p = 1 \<or> nvcpu p = 2"
  shows "config_inv p c"
  using assms
proof (induction rule: reachable.induct)
  case (boot regs xs s)
  then show ?case using kmain_effect [OF boot.hyps] by simp
qed (blast intro: step_config_inv)

text \<open>What the invariants say of the running guest.\<close>

lemma inv_confined:
  assumes "hyp_inv p s" and inv: "vm_inv p s" and "layout_ok p"
  shows "s2_walk p s (sys s VTTBR_EL2) ipa = s2_spec p (current s) ipa \<and> sys s VTCR_EL2 = vtcr_value
    \<and> bit (sys s HCR_EL2) 0 \<and> bit (sys s HCR_EL2) 4 \<and> bit (sys s HCR_EL2) 13 \<and> bit (sys s HCR_EL2) 31"
proof -
  have c: "unat (current s) < length (vcpus s)"
    using assms(1) by (simp add: hyp_inv_def sched_ok_def word_less_nat_alt)
  then have vm: "current s < MAX_VMS" using inv by (simp add: vm_inv_def MAX_VMS_def word_less_nat_alt)
  have i: "tables_ok s" "has_tables p (current s) s" "sys s VTTBR_EL2 = vttbr_of p (current s) (current s + 1)"
    "sys s VTCR_EL2 = vtcr_value" "hcr_base (sys s HCR_EL2) = HCR_FLAGS"
    using inv c by (auto simp: vm_inv_def reg_at_def dest!: spec [of _ "unat (current s)"])
  have "bit (sys s HCR_EL2) n" if "n \<noteq> 7" "bit HCR_FLAGS n" for n
    using that i(5) by (metis hcr_base_bit)
  moreover have "bit HCR_FLAGS 0" "bit HCR_FLAGS 4" "bit HCR_FLAGS 13" "bit HCR_FLAGS 31"
    by (simp_all add: hyp_consts bit_or_iff)
  ultimately show ?thesis
    using s2_walk_spec [OF assms(3) i(1,2) vm] i(3,4) by (simp add: vttbr_of_def)
qed

lemma handle_exception_no_eret: "handle_exception p tf kind s \<noteq> Some (Eret, s')"
proof
  assume "handle_exception p tf kind s = Some (Eret, s')"
  then show False
    by (cases rule: handle_exception_cases)
      (auto simp: handle_hvc_def handle_psci_def psci_halt_def dump_and_halt_def Let_def split: if_splits)
qed

text \<open>Progress: with a console that drains, boot reaches the guest and every exit is served.\<close>

context pl011_console
begin

lemma kmain_returns: 
  assumes "nvcpu p = 1 \<or> nvcpu p = 2"
  shows "\<exists>s. kmain p (boot_state p regs) = Some (Ret [LINUX_DTB_IPA, 0, 0, 0], s)"
proof -
  have "init_vcpu p i m st t \<noteq> None" for i m st t
    by (simp add: init_vcpu_def stage2_alloc_vm_returns returns_simps split: outcome.splits del: not_None_eq)
  then have "sched_init p t \<noteq> None" for t
    by (simp add: sched_init_def stage2_global_init_def returns_simps del: not_None_eq)
  then have "kmain p (boot_state p regs) \<noteq> None"
    by (simp add: kmain_def gic_init_el2_def sched_start_def returns_simps del: not_None_eq)
  then show ?thesis using kmain_effect(1) [OF _ assms] by fastforce
qed

lemma handler_steps:
  assumes "tf_x tf ! 0 = HVC_PUTS \<Longrightarrow> terminated p (tf_x tf ! 1)"
  shows "\<exists>c'. hyp_step p (In_handler hist tf kind s) c'"
proof -
  obtain r s' where r: "handle_exception p tf kind s = Some (r, s')"
    using handle_exception_returns [OF assms, of kind s] by auto
  show ?thesis
  proof (cases r)
    case (Ret tf')
    then show ?thesis using hyp_step.resume [of p tf kind s tf'] r by blast
  next
    case Halted
    then show ?thesis using hyp_step.stop [of p tf kind s] r by blast
  next
    case Eret
    then show ?thesis using handle_exception_no_eret r by blast
  qed
qed

end

lemma board_boots:
  "n = 1 \<or> n = 2 \<Longrightarrow> \<exists>s. kmain (board n irq) (boot_state (board n irq) (\<lambda>_. 0)) =
     Some (Ret [LINUX_DTB_IPA, 0, 0, 0], s)"
  using pl011_console.kmain_returns [OF board_console.pl011_console_axioms [of n irq]] by simp

section \<open>An exit touches only the VM that caused it\<close>

text \<open>The interrupt interface and the parked state of every vCPU but \<open>vid\<close> are as they were.\<close>

definition own :: "u32 \<Rightarrow> hyp \<Rightarrow> hyp \<Rightarrow> bool" where
  "own vid s s' \<longleftrightarrow> (\<forall>i. i \<noteq> unat vid \<longrightarrow> vgics s' ! i = vgics s ! i \<and> vcpus s' ! i = vcpus s ! i)"

lemma own_refl [simp]: "own vid s s"
  by (simp add: own_def)

lemma own_basic [frame_simps]:
  "own vid s (t\<lparr>io := tr\<rparr>) = own vid s t"
  "own vid s (store w a v t) = own vid s t"
  "own vid s (msr r rv t) = own vid s t"
  "own vid s (set_vi on t) = own vid s t"
  "own vid s (upd_vgic vid f t) = own vid s t"
  "own vid s (t\<lparr>htimer_ticks := n\<rparr>) = own vid s t"
  "own vid s (t\<lparr>vtimer_ticks := n\<rparr>) = own vid s t"
  "own vid s (t\<lparr>other_ticks := n\<rparr>) = own vid s t"
  by (auto simp: own_def vgics_upd_vgic_other)

lemma own_vgic [frame_simps]:
  "own vid s (vgic_inject vid i t) = own vid s t"
  "own vid s (vgic_forward_spi vid i iar t) = own vid s t"
  "own vid s (vgic_ack_all vid t) = own vid s t"
  "own vid s (write_reg vid off val t) = own vid s t"
  "own vid s (snd (read_reg vid off t)) = own vid s t"
  "own vid s (reassert_htimer_ppi t) = own vid s t"
  "own vid s (reassert_pl011_rx t) = own vid s t"
  "own vid s (pl011_rx_reassert t) = own vid s t"
  "own vid s (wfi_rearm t) = own vid s t"
  "own vid s (mmio_w b o' v t) = own vid s t"
  "own vid s (snd (gicd_access p wnr sas a v t)) = own vid s t"
  "own vid s (arm_hyp_timer_ms p ms t) = own vid s t"
  by (simp_all add: vgic_inject_def vgic_forward_spi_def vgic_ack_all_def write_reg_def read_reg_def
      write_eoir_def read_iar_def reassert_htimer_ppi_def reassert_pl011_rx_def pl011_rx_reassert_def
      wfi_rearm_def mmio_w_def gicd_access_def arm_hyp_timer_ms_def mrs_dev_def Let_def frame_simps)

lemma own_kprint: "kprint p is t = Some t' \<Longrightarrow> own vid s t' = own vid s t"
  by (erule kprint_frame) (simp add: frame_simps)

lemma current_vcpu_kprint: "kprint p is t = Some t' \<Longrightarrow> current_vcpu t' = current_vcpu t"
  by (erule kprint_frame) simp

lemma vgic_mmio_own:
  "vgic_mmio p tf ipa iss s = Some (b, tf', s') \<Longrightarrow> own (v_id (current_vcpu s)) s s'"
  by (auto simp: vgic_mmio_def Let_def split_beta frame_simps own_kprint split: if_splits)

lemma handle_hvc_own: "handle_hvc p tf esr s = Some (r, s') \<Longrightarrow> own (v_id (current_vcpu s)) s s'"
  by (auto simp: handle_hvc_def handle_psci_def psci_halt_def Let_def frame_simps own_kprint
      split: if_splits)

lemma current_vcpu_wfi_rearm: "current_vcpu (wfi_rearm t) = current_vcpu t"
  by (simp add: current_vcpu_def wfi_rearm_def store_def Let_def)

lemma handle_wfi_own: "own (v_id (current_vcpu s)) s (snd (handle_wfi p tf esr s))"
  by (simp add: handle_wfi_def Let_def split_beta frame_simps current_vcpu_wfi_rearm)

lemma handle_stage2_abort_own:
  "handle_stage2_abort p tf esr s = Some (tf', s') \<Longrightarrow> own (v_id (current_vcpu s)) s s'"
  by (auto simp: handle_stage2_abort_def Let_def split_beta dest: vgic_mmio_own split: if_splits)

lemma dump_and_halt_own: "dump_and_halt p tf kind esr s = Some (r, s') \<Longrightarrow> own vid s s'"
  by (auto simp: dump_and_halt_def Let_def own_kprint)

lemma sched_tick_own: "own vid s t \<Longrightarrow> current t = vid \<Longrightarrow> own vid s (snd (sched_tick p tf t))"
  by (simp add: sched_tick_def load_vcpu_def load_writes_def Let_def split_beta frame_simps)
    (simp add: own_def upd_vcpu_def tlbi_def msr_def)

lemma gic_handle_physical_irq_own:
  assumes "gic_handle_physical_irq p tf s = Some (tf', s')" and v: "v_id (current_vcpu s) = current s"
  shows "own (current s) s s'"
proof -
  obtain iar s1 where r: "mmio_r p GICC_BASE_PA GICC_IAR s = (iar, s1)" by (metis surj_pair)
  then obtain es where s1: "s1 = s\<lparr>io := io s @ es\<rparr>"
    by (auto simp: mmio_r_def load_def load_io_def Let_def)
  let ?h = "pl011_rx_reassert (msr CNTHP_CTL_EL2 0 (s1\<lparr>htimer_ticks := htimer_ticks s1 + 1\<rparr>))"
  have "own (current s) s ?h" "current ?h = current s"
    by (simp_all add: frame_simps s1) (simp add: pl011_rx_reassert_def store_def msr_def Let_def)
  then have t: "own (current s) s (snd (sched_tick p tf ?h))" by (rule sched_tick_own)
  show ?thesis
    using assms(1) t v
    by (auto simp: gic_handle_physical_irq_def r Let_def split_beta frame_simps own_kprint s1
        sched_rearm_tick_def current_vcpu_kprint split: if_splits)
qed

lemma handle_exception_own:
  assumes ret: "handle_exception p tf kind s = Some (r, s')" and inv: "hyp_inv p s"
  shows "own (current s) s s'"
proof -
  let ?s = "log_exit tf kind s"
  have c: "v_id (current_vcpu ?s) = current ?s" "current ?s = current s"
    using hyp_inv_current(1) [OF inv] by (simp_all add: current_vcpu_def log_exit_def exit_ring_push_def)
  have "own (current s) ?s s'"
    using ret
  proof (cases rule: handle_exception_cases)
    case (irq tf')
    then show ?thesis using gic_handle_physical_irq_own c by metis
  next
    case wfi
    then show ?thesis using handle_wfi_own [of ?s] c by metis
  qed (use c handle_hvc_own handle_stage2_abort_own dump_and_halt_own in \<open>fastforce+\<close>)
  then show ?thesis by (simp add: own_def log_exit_def exit_ring_push_def)
qed

end
