(* ===== verification/Isolation.thy ===== *)
theory Isolation
  imports System
begin

text \<open>
  Separation of the virtual machines, in the shape of the unwinding conditions of a separation
  kernel. \<open>System\<close> shows that an exit of one VM leaves the others alone; this theory shows the other
  direction: what an exit does to the VM that caused it, and what its guest gets to see, does not depend on the state
  of the others.
\<close>

named_theorems view_simps \<open>replacing the other VMs' state commutes with the operations\<close>


section \<open>The view of one VM\<close>

text \<open>
  Two states look the same to the running VM: the same CPU registers, the same devices, the same
  interrupt interface and the same record of its vCPU. They may differ in everything that belongs to
  the others, in the translation tables and private pages, which the handlers do not touch, and in the
  log of past exits.
\<close>

definition same_view :: "hyp \<Rightarrow> hyp \<Rightarrow> bool" where
  "same_view s t \<longleftrightarrow> current t = current s \<and> sys t = sys s \<and> io t = io s
     \<and> vgic_of (current s) t = vgic_of (current s) s \<and> current_vcpu t = current_vcpu s
     \<and> htimer_ticks t = htimer_ticks s \<and> vtimer_ticks t = vtimer_ticks s \<and> other_ticks t = other_ticks s"

text \<open>The state \<open>t\<close> with the view of VM \<open>u\<close> replaced by the one of \<open>s\<close>.\<close>

definition seen_by :: "u32 \<Rightarrow> hyp \<Rightarrow> hyp \<Rightarrow> hyp" where
  "seen_by u t s = t\<lparr>sys := sys s, io := io s, current := current s,
     vgics := (vgics t)[unat u := vgics s ! unat u], vcpus := (vcpus t)[unat u := vcpus s ! unat u],
     htimer_ticks := htimer_ticks s, vtimer_ticks := vtimer_ticks s, other_ticks := other_ticks s\<rparr>"

definition seat :: "u32 \<Rightarrow> hyp \<Rightarrow> bool" where
  "seat u s \<longleftrightarrow> unat u < length (vgics s) \<and> unat u < length (vcpus s)"

definition runs_on :: "u32 \<Rightarrow> hyp \<Rightarrow> bool" where
  "runs_on u s \<longleftrightarrow> seat u s \<and> current s = u \<and> v_id (vcpus s ! unat u) = u"

lemma same_view_seen_by:
  assumes "same_view s t" and "seat (current s) t"
  shows "t = seen_by (current s) t s"
proof -
  have v: "vgics t ! unat (current s) = vgics s ! unat (current s)" "vcpus t ! unat (current s) = vcpus s ! unat (current s)"
    "current t = current s"
    using assms by (auto simp: same_view_def vgic_of_def current_vcpu_def)
  have "(vgics t)[unat (current s) := vgics s ! unat (current s)] = vgics t"
    "(vcpus t)[unat (current s) := vcpus s ! unat (current s)] = vcpus t"
    unfolding v(1,2) [symmetric] by (simp_all only: list_update_id)
  then show ?thesis using assms v(3) by (simp add: same_view_def seen_by_def)
qed

lemma seen_by_same_view:
  assumes "runs_on u s" and "seat u t"
  shows "same_view s (seen_by u t s)"
  using assms by (simp add: same_view_def seen_by_def vgic_of_def current_vcpu_def runs_on_def seat_def)


section \<open>Operations under a replaced environment\<close>

lemma seen_by_basic [view_simps]:
  "store w a v (seen_by u t s) = seen_by u t (store w a v s)"
  "msr r x (seen_by u t s) = seen_by u t (msr r x s)"
  "set_vi on (seen_by u t s) = seen_by u t (set_vi on s)"
  "(seen_by u t s)\<lparr>io := tr\<rparr> = seen_by u t (s\<lparr>io := tr\<rparr>)"
  "(seen_by u t s)\<lparr>htimer_ticks := n\<rparr> = seen_by u t (s\<lparr>htimer_ticks := n\<rparr>)"
  "(seen_by u t s)\<lparr>vtimer_ticks := n\<rparr> = seen_by u t (s\<lparr>vtimer_ticks := n\<rparr>)"
  "(seen_by u t s)\<lparr>other_ticks := n\<rparr> = seen_by u t (s\<lparr>other_ticks := n\<rparr>)"
  "sys (seen_by u t s) = sys s" "io (seen_by u t s) = io s" "current (seen_by u t s) = current s"
  "htimer_ticks (seen_by u t s) = htimer_ticks s" "vtimer_ticks (seen_by u t s) = vtimer_ticks s"
  "other_ticks (seen_by u t s) = other_ticks s" "mrs r (seen_by u t s) = mrs r s"
  by (simp_all add: seen_by_def store_def msr_def set_vi_def mrs_def Let_def)

lemma seen_by_vgic [view_simps]:
  "seat u t \<Longrightarrow> vgic_of u (seen_by u t s) = vgic_of u s"
  "seat u t \<Longrightarrow> seat u s \<Longrightarrow> upd_vgic u f (seen_by u t s) = seen_by u t (upd_vgic u f s)"
  by (simp_all add: seen_by_def vgic_of_def upd_vgic_def seat_def)

lemma seat_simps [simp]:
  "seat u (store w a v s) = seat u s" "seat u (msr r x s) = seat u s" "seat u (set_vi on s) = seat u s"
  "seat u (upd_vgic vid f s) = seat u s" "seat u (s\<lparr>io := tr\<rparr>) = seat u s"
  "seat u (s\<lparr>htimer_ticks := n\<rparr>) = seat u s" "seat u (s\<lparr>vtimer_ticks := n\<rparr>) = seat u s"
  "seat u (s\<lparr>other_ticks := n\<rparr>) = seat u s"
  by (simp_all add: seat_def)

lemma seen_by_load [view_simps]: "load p w a (seen_by u t s) = map_prod id (seen_by u t) (load p w a s)"
  by (simp add: load_def load_io_def Let_def view_simps)

lemma seen_by_kprint [view_simps]: "kprint p is (seen_by u t s) = map_option (seen_by u t) (kprint p is s)"
  by (cases "print_items p is (io s)") (simp_all add: kprint_def view_simps)

lemma seen_by_write_eoir:
  assumes "seat u t" and "seat u s"
  shows "write_eoir u val (seen_by u t s) = seen_by u t (write_eoir u val s)"
proof -
  let ?retire = "\<lambda>x. if val AND 0x3FF = g_active (vgic_of u x) then upd_vgic u (\<lambda>v. v\<lparr>g_active := NO_INTID\<rparr>) x else x"
  let ?complete = "\<lambda>x. if has_phys_iar (vgic_of u x) \<noteq> 0 \<and> phys_iar (vgic_of u x) AND 0x3FF = val AND 0x3FF
    then upd_vgic u (\<lambda>v. v\<lparr>has_phys_iar := 0\<rparr>) (store W32 (GICC_BASE_PA + 0x10) (phys_iar (vgic_of u x)) x) else x"
  have c: "?complete (seen_by u t x) = seen_by u t (?complete x)" if "seat u x" for x
    using assms(1) that by (simp add: view_simps)
  have "?retire (seen_by u t s) = seen_by u t (?retire s)" "seat u (?retire s)"
    using assms by (simp_all add: view_simps)
  then have "?complete (?retire (seen_by u t s)) = seen_by u t (?complete (?retire s))" using c by (simp only:)
  then show ?thesis by (simp only: write_eoir_def Let_def)
qed

lemma seen_by_vgic_ops [view_simps]:
  assumes "seat u t" and "seat u s"
  shows "vgic_inject u i (seen_by u t s) = seen_by u t (vgic_inject u i s)"
    and "vgic_forward_spi u i iar (seen_by u t s) = seen_by u t (vgic_forward_spi u i iar s)"
    and "vgic_ack_all u (seen_by u t s) = seen_by u t (vgic_ack_all u s)"
    and "read_iar u (seen_by u t s) = map_prod id (seen_by u t) (read_iar u s)"
    and "read_reg u off (seen_by u t s) = map_prod id (seen_by u t) (read_reg u off s)"
    and "write_reg u off val (seen_by u t s) = seen_by u t (write_reg u off val s)"
    and "vgic_has_pending_phys_iar u (seen_by u t s) = vgic_has_pending_phys_iar u s"
proof -
  show i: "vgic_inject u i (seen_by u t s) = seen_by u t (vgic_inject u i s)" for i
    using assms by (simp add: vgic_inject_def view_simps)
  show "vgic_forward_spi u i iar (seen_by u t s) = seen_by u t (vgic_forward_spi u i iar s)"
    using assms by (simp add: vgic_forward_spi_def vgic_inject_def view_simps)
  show "vgic_ack_all u (seen_by u t s) = seen_by u t (vgic_ack_all u s)"
    using assms by (simp add: vgic_ack_all_def Let_def view_simps)
  show r: "read_iar u (seen_by u t s) = map_prod id (seen_by u t) (read_iar u s)"
    using assms by (simp add: read_iar_def Let_def view_simps)
  show "read_reg u off (seen_by u t s) = map_prod id (seen_by u t) (read_reg u off s)"
    using assms by (simp add: read_reg_def r Let_def view_simps)
  show "write_reg u off val (seen_by u t s) = seen_by u t (write_reg u off val s)"
    using assms seen_by_write_eoir [OF assms] by (simp add: write_reg_def view_simps)
  show "vgic_has_pending_phys_iar u (seen_by u t s) = vgic_has_pending_phys_iar u s"
    using assms by (simp add: vgic_has_pending_phys_iar_def view_simps)
qed

lemma seen_by_plain [view_simps]:
  "reassert_htimer_ppi (seen_by u t s) = seen_by u t (reassert_htimer_ppi s)"
  "reassert_pl011_rx (seen_by u t s) = seen_by u t (reassert_pl011_rx s)"
  "pl011_rx_reassert (seen_by u t s) = seen_by u t (pl011_rx_reassert s)"
  "wfi_rearm (seen_by u t s) = seen_by u t (wfi_rearm s)"
  "mmio_w b off v (seen_by u t s) = seen_by u t (mmio_w b off v s)"
  "gicd_access p wnr sas a v (seen_by u t s) = map_prod id (seen_by u t) (gicd_access p wnr sas a v s)"
  "mrs_dev p r (seen_by u t s) = map_prod id (seen_by u t) (mrs_dev p r s)"
  "arm_hyp_timer_ms p ms (seen_by u t s) = seen_by u t (arm_hyp_timer_ms p ms s)"
  by (simp_all add: reassert_htimer_ppi_def reassert_pl011_rx_def pl011_rx_reassert_def wfi_rearm_def mmio_w_def
      gicd_access_def mrs_dev_def arm_hyp_timer_ms_def Let_def view_simps)

text \<open>The number of the running vCPU is part of its view.\<close>

lemma runs_on_simps [simp]:
  "runs_on u (store w a v s) = runs_on u s" "runs_on u (msr r x s) = runs_on u s" "runs_on u (set_vi on s) = runs_on u s"
  "runs_on u (upd_vgic vid f s) = runs_on u s" "runs_on u (s\<lparr>io := tr\<rparr>) = runs_on u s"
  "runs_on u (s\<lparr>htimer_ticks := n\<rparr>) = runs_on u s" "runs_on u (s\<lparr>vtimer_ticks := n\<rparr>) = runs_on u s"
  "runs_on u (s\<lparr>other_ticks := n\<rparr>) = runs_on u s"
  by (simp_all add: runs_on_def)

lemma runs_on_seat [simp]: "runs_on u s \<Longrightarrow> seat u s"
  by (simp add: runs_on_def)

lemma running_id [view_simps]:
  "runs_on u s \<Longrightarrow> v_id (current_vcpu s) = u"
  "runs_on u s \<Longrightarrow> seat u t \<Longrightarrow> v_id (current_vcpu (seen_by u t s)) = u"
  by (simp_all add: runs_on_def current_vcpu_def seen_by_def seat_def)

lemma runs_on_kprint: "kprint p is s = Some s' \<Longrightarrow> runs_on u s' = runs_on u s"
  by (erule kprint_frame) simp

lemma runs_on_wfi_rearm [simp]: "runs_on u (wfi_rearm s) = runs_on u s"
  by (simp add: wfi_rearm_def Let_def)


section \<open>The handlers\<close>

lemma view_vgic_mmio [view_simps]:
  assumes "runs_on u s" and "seat u t"
  shows "vgic_mmio p tf ipa iss (seen_by u t s) =
    map_option (map_prod id (map_prod id (seen_by u t))) (vgic_mmio p tf ipa iss s)"
proof (cases "drop_bit 24 iss AND 1 = 0")
  case True
  then show ?thesis by (simp add: vgic_mmio_def view_simps option.map_comp bind_map_option comp_def
      split: bind_split)
next
  case False
  then show ?thesis
    using assms by (simp add: vgic_mmio_def Let_def view_simps split_beta)
qed

lemma view_psci [view_simps]:
  "handle_psci p tf num (seen_by u t s) = map_option (map_prod id (seen_by u t)) (handle_psci p tf num s)"
proof -
  have h: "psci_halt p msg (seen_by u t s) = map_option (map_prod id (seen_by u t)) (psci_halt p msg s)" for msg
    by (simp add: psci_halt_def view_simps bind_map_option comp_def split: bind_split)
  show ?thesis
    by (simp add: handle_psci_def h if_distrib [of "map_option (map_prod id (seen_by u t))"] Let_def split del: if_split cong: if_cong)
qed

lemma view_hvc [view_simps]:
  assumes "runs_on u s" and "seat u t"
  shows "handle_hvc p tf esr (seen_by u t s) = map_option (map_prod id (seen_by u t)) (handle_hvc p tf esr s)"
proof -
  have k: "map_option (seen_by u t) (kprint p is s) \<bind> (\<lambda>s. uart_puts_ptr p a (io s) \<bind> (\<lambda>tr. Some (Ret f, s\<lparr>io := tr\<rparr>))) =
      map_option (map_prod id (seen_by u t))
        (kprint p is s \<bind> (\<lambda>s. uart_puts_ptr p a (io s) \<bind> (\<lambda>tr. Some (Ret f, s\<lparr>io := tr\<rparr>))))" for "is" a f
    by (auto simp: view_simps bind_map_option comp_def split: bind_split)
  show ?thesis
    using assms by (simp add: handle_hvc_def Let_def view_simps k if_distrib [of "map_option (map_prod id (seen_by u t))"]
        split del: if_split cong: if_cong)
qed

lemma view_wfi [view_simps]:
  assumes "runs_on u s" and "seat u t"
  shows "handle_wfi p tf esr (seen_by u t s) = map_prod id (seen_by u t) (handle_wfi p tf esr s)"
  using assms by (simp add: handle_wfi_def Let_def view_simps split_beta)

lemma view_abort [view_simps]:
  assumes "runs_on u s" and "seat u t"
  shows "handle_stage2_abort p tf esr (seen_by u t s) =
    map_option (map_prod id (seen_by u t)) (handle_stage2_abort p tf esr s)"
  using assms
  by (simp add: handle_stage2_abort_def Let_def view_simps bind_map_option comp_def split_beta split: bind_split)

text \<open>Interrupts that do not switch to another vCPU.\<close>

lemma view_irq:
  assumes "runs_on u s" and "seat u t" and "gic_handle_physical_irq p tf s = Some (tf', s')"
    and "\<not> nvcpu p > 1 \<or> dev_load p (io s) W32 (GICC_BASE_PA + GICC_IAR) AND 0x3ff \<noteq> IRQ_HTIMER"
  shows "gic_handle_physical_irq p tf (seen_by u t s) = Some (tf', seen_by u t s')"
proof -
  let ?iar = "dev_load p (io s) W32 (GICC_BASE_PA + GICC_IAR)"
  let ?s = "s\<lparr>io := io s @ [Load W32 (GICC_BASE_PA + GICC_IAR) ?iar]\<rparr>"
  have r: "mmio_r p GICC_BASE_PA GICC_IAR s = (?iar, ?s)"
    "mmio_r p GICC_BASE_PA GICC_IAR (seen_by u t s) = (?iar, seen_by u t ?s)"
    by (simp_all add: mmio_r_def load_def load_io_def Let_def view_simps)
  show ?thesis
    using assms
    by (auto simp: gic_handle_physical_irq_def r Let_def view_simps sched_tick_single sched_rearm_tick_def irq_distinct irq_distinct [THEN not_sym]
        runs_on_kprint split: if_splits)
qed

text \<open>A tick that switches does not come back to the vCPU that was running.\<close>

lemma tick_switches_away:
  assumes "gic_handle_physical_irq p tf s = Some (tf', s')" and inv: "hyp_inv p s" and x: "length (tf_x tf) = 31"
    and "nvcpu p > 1" and "dev_load p (io s) W32 (GICC_BASE_PA + GICC_IAR) AND 0x3ff = IRQ_HTIMER"
  shows "current s' \<noteq> current s"
proof -
  let ?iar = "dev_load p (io s) W32 (GICC_BASE_PA + GICC_IAR)"
  let ?s = "pl011_rx_reassert (msr CNTHP_CTL_EL2 0 (s\<lparr>io := io s @ [Load W32 (GICC_BASE_PA + GICC_IAR) ?iar],
    htimer_ticks := htimer_ticks s + 1\<rparr>))"
  have f: "sched_ok p ?s = sched_ok p s" "current ?s = current s"
    by (simp_all add: sched_ok_def pl011_rx_reassert_def store_def msr_def Let_def)
  have "s' = mmio_w GICC_BASE_PA GICC_EOIR ?iar (sched_rearm_tick p (snd (sched_tick p tf ?s)))"
    using assms(1,5)
    by (simp add: gic_handle_physical_irq_def mmio_r_def load_def load_io_def Let_def irq_distinct split_beta)
  then have "current s' = current (snd (sched_tick p tf ?s))"
    by (simp add: mmio_w_def sched_rearm_tick_def arm_hyp_timer_ms_def mrs_dev_def store_def msr_def Let_def)
  moreover have "sched_ok p ?s" using inv f by (simp add: hyp_inv_def)
  ultimately show ?thesis
    using sched_tick_effect(1,6) [OF _ assms(4) x, of ?s] f(2) by metis
qed

text \<open>Logging an exit changes only what is outside the view.\<close>

lemma view_log_exit:
  assumes "runs_on u s" and "seat u t"
  shows "\<exists>t'. log_exit tf kind (seen_by u t s) = seen_by u t' (log_exit tf kind s) \<and> seat u t'"
proof -
  let ?l = "log_exit tf kind (seen_by u t s)"
  let ?t = "t\<lparr>exit_ring := exit_ring ?l, exit_ring_head := exit_ring_head ?l, exit_ring_count := exit_ring_count ?l\<rparr>"
  have "?l = seen_by u ?t (log_exit tf kind s)"
    by (simp add: log_exit_def exit_ring_push_def Let_def seen_by_def)
  moreover have "seat u ?t" using assms(2) by (simp add: seat_def)
  ultimately show ?thesis by blast
qed

lemma runs_on_log_exit [simp]: "runs_on u (log_exit tf kind s) = runs_on u s"
  by (simp add: log_exit_def exit_ring_push_def runs_on_def seat_def Let_def)

lemma hyp_inv_runs_on: "hyp_inv p s \<Longrightarrow> runs_on (current s) s"
  by (auto simp: hyp_inv_def sched_ok_def runs_on_def seat_def word_less_nat_alt word_le_nat_alt)

lemma dump_halts: "dump_and_halt p tf kind esr s = Some (r, s') \<Longrightarrow> r = Halted"
  by (auto simp: dump_and_halt_def Let_def)

lemma view_handle_exception:
  assumes inv: "hyp_inv p s" and x: "length (tf_x tf) = 31" and t: "seat (current s) t"
    and h: "handle_exception p tf kind s = Some (Ret tf', s')" and cur: "current s' = current s"
  shows "\<exists>t'. handle_exception p tf kind (seen_by (current s) t s) = Some (Ret tf', seen_by (current s) t' s')
    \<and> seat (current s) t'"
proof -
  let ?u = "current s" and ?s = "log_exit tf kind s"
  have r: "runs_on ?u ?s" using hyp_inv_runs_on [OF inv] by simp
  obtain t' where l: "log_exit tf kind (seen_by ?u t s) = seen_by ?u t' ?s" and t': "seat ?u t'"
    using view_log_exit [OF hyp_inv_runs_on [OF inv] t] by blast
  have e: "mrs ESR_EL2 (seen_by ?u t s) = mrs ESR_EL2 s" by (simp add: view_simps)
  have "hyp_inv p ?s" and c: "current ?s = current s" "io ?s = io s"
    using inv log_exit_inv by (auto simp: log_exit_def exit_ring_push_def Let_def)
  from h have "handle_exception p tf kind (seen_by ?u t s) = Some (Ret tf', seen_by ?u t' s')"
  proof (cases rule: handle_exception_cases)
    case (irq tf2)
    have "\<not> nvcpu p > 1 \<or> dev_load p (io ?s) W32 (GICC_BASE_PA + GICC_IAR) AND 0x3ff \<noteq> IRQ_HTIMER"
      using tick_switches_away [OF irq(3) \<open>hyp_inv p ?s\<close> x] cur c(1) by auto
    with irq show ?thesis using view_irq [OF r t' irq(3)]
      by (auto simp: handle_exception_def l Let_def)
  qed (unfold handle_exception_def read_esr_el2_def Let_def e l, use r t' in
      \<open>auto simp: view_simps hyp_consts split_beta dest: dump_halts\<close>)
  then show ?thesis using t' by blast
qed


section \<open>Properties\<close>


text \<open>Two machines that differ in the pending interrupts and the registers of the VM that waits.\<close>

definition busy_neighbour :: "hyp \<Rightarrow> hyp" where
  "busy_neighbour s = s\<lparr>vgics := (vgics s)[1 := (vgics s ! 1)\<lparr>pending_mask := 0x20\<rparr>],
     vcpus := (vcpus s)[1 := (vcpus s ! 1)\<lparr>v_x := replicate 31 99, v_hcr_el2 := 0x80\<rparr>]\<rparr>"

lemma busy_neighbour_ok:
  assumes "hyp_inv p s" and "nvcpu p = 2" and "current s = 0"
  shows "hyp_inv p (busy_neighbour s)" and "same_view s (busy_neighbour s)"
  using assms
  by (auto simp: hyp_inv_def sched_ok_def busy_neighbour_def line_of_def nth_list_update vgic_wf_def vi_of_def bit_simps
      less_2_cases_iff same_view_def vgic_of_def current_vcpu_def)

definition two_vms :: "u64 \<Rightarrow> hyp" where
  "two_vms esr = (boot_state (board 2 0) (\<lambda>r. if r = ESR_EL2 then esr else 0))
     \<lparr>vcpus := [zero_vcpu, zero_vcpu\<lparr>v_id := 1\<rparr>]\<rparr>"

lemma two_vms_inv: "hyp_inv (board 2 0) (two_vms esr)" "current (two_vms esr) = 0"
  by (auto simp: two_vms_def hyp_inv_def sched_ok_def zero_vcpu_def zero_vgic_def vgic_wf_def line_of_def vi_of_def
      less_Suc_eq)


end
