(* ===== verification/Guest.thy ===== *)
theory Guest
  imports System
begin

text \<open>
  The bare-metal guest (\<open>src/src/guest.c\<close>), one image run as two VMs. It runs at EL1 on the
  same machine: its UART accesses are passed through by stage 2 and appear in the same trace,
  and its hypercall is an exception taken by \<open>handle_exception\<close>. Each VM finds its mutable
  state through \<open>TPIDR_EL1\<close>.
\<close>


section \<open>Console of the guest\<close>

definition UART_DR :: u64 where [hyp_consts]: "UART_DR = 0x09000000"
definition UART_FR :: u64 where [hyp_consts]: "UART_FR = 0x09000018"

partial_function (option) guest_wait :: "platform \<Rightarrow> event list \<Rightarrow> event list option" where
  "guest_wait p tr =
     (if fst (load_io p W32 UART_FR tr) AND push_bit 5 1 \<noteq> 0
      then guest_wait p (snd (load_io p W32 UART_FR tr))
      else Some (snd (load_io p W32 UART_FR tr)))"

definition guest_putc :: "platform \<Rightarrow> u8 \<Rightarrow> event list \<Rightarrow> event list option" where
  "guest_putc p c tr = do {
     tr \<leftarrow> guest_wait p tr;
     Some (tr @ [Store W32 UART_DR (ucast c)]) }"

fun guest_puts :: "platform \<Rightarrow> u8 list \<Rightarrow> event list \<Rightarrow> event list option" where
  "guest_puts p [] tr = Some tr"
| "guest_puts p (c # cs) tr = (if c = 0 then Some tr else do {
     tr \<leftarrow> guest_putc p c tr;
     guest_puts p cs tr })"

text \<open>The first loop of \<open>guest_put_dec\<close>: the digits in \<open>buf\<close>, least significant first.\<close>

function dec_loop :: "u64 \<Rightarrow> u8 list \<Rightarrow> u8 list" where
  "dec_loop v buf = (if v = 0 then buf else dec_loop (v div 10) (buf @ [48 + ucast (v mod 10)]))"
  by pat_completeness auto
termination
  by (relation "measure (\<lambda>(v, buf). unat v)") (auto simp: unat_div_distrib unat_gt_0)

text \<open>\<open>while (i--) guest_putc(buf[i])\<close>\<close>

fun put_back :: "platform \<Rightarrow> u8 list \<Rightarrow> nat \<Rightarrow> event list \<Rightarrow> event list option" where
  "put_back p buf 0 tr = Some tr"
| "put_back p buf (Suc i) tr = do {
     tr \<leftarrow> guest_putc p (buf ! i) tr;
     put_back p buf i tr }"

definition guest_put_dec :: "platform \<Rightarrow> u64 \<Rightarrow> event list \<Rightarrow> event list option" where
  "guest_put_dec p v tr =
     (if v = 0 then guest_putc p 48 tr
      else let buf = dec_loop v [] in put_back p buf (length buf) tr)"


section \<open>Timer, hypercall, handlers\<close>

text \<open>The slot \<open>TPIDR_EL1\<close> points at: an index into \<open>guest_states\<close>, whose elements are 24 bytes.\<close>

definition gs :: "platform \<Rightarrow> hyp \<Rightarrow> nat" where
  "gs p s = unat (mrs TPIDR_EL1 s - addr_guest_states p) div 24"

definition upd_gs :: "nat \<Rightarrow> (guest_state \<Rightarrow> guest_state) \<Rightarrow> hyp \<Rightarrow> hyp" where
  "upd_gs i f s = s\<lparr>guest_states := (guest_states s)[i := f (guest_states s ! i)]\<rparr>"

definition timer_rearm :: "platform \<Rightarrow> nat \<Rightarrow> hyp \<Rightarrow> hyp" where
  "timer_rearm p i s =
     (let (now, s) = mrs_dev p CNTVCT_EL0 s;
          s = msr CNTV_CVAL_EL0 (now + gs_tick_period (guest_states s ! i)) s
      in msr CNTV_CTL_EL0 1 s)"

text \<open>
  \<open>hvc #0\<close> traps to EL2 with exception class 0x16, a 32-bit instruction and a zero immediate;
  \<open>tf\<close> holds the guest's registers at the call.
\<close>

definition hvc3 ::
  "platform \<Rightarrow> u64 \<Rightarrow> u64 \<Rightarrow> u64 \<Rightarrow> trap_frame \<Rightarrow> hyp \<Rightarrow> (trap_frame outcome \<times> hyp) option" where
  "hvc3 p num a1 a2 tf s =
     (let tf = tf\<lparr>tf_x := (tf_x tf)[0 := num, 1 := a1, 2 := a2]\<rparr>;
          s = s\<lparr>sys := (sys s)(ESR_EL2 := 0x5A000000)\<rparr>
      in handle_exception p tf VEC_L64_SYNC s)"

definition guest_print :: "platform \<Rightarrow> (event list \<Rightarrow> event list option) \<Rightarrow> hyp \<Rightarrow> hyp option" where
  "guest_print p f s = do { tr \<leftarrow> f (io s); Some (s\<lparr>io := tr\<rparr>) }"

definition str :: "string \<Rightarrow> u8 list" where
  "str cs = map of_char cs"

definition guest_irq_handler ::
  "platform \<Rightarrow> trap_frame \<Rightarrow> hyp \<Rightarrow> (trap_frame outcome \<times> hyp) option" where
  "guest_irq_handler p tf s =
     (let i = gs p s;
          s = upd_gs i (\<lambda>g. g\<lparr>gs_ticks := gs_ticks g + 1\<rparr>) s;
          g = guest_states s ! i
      in do {
        s \<leftarrow> guest_print p (\<lambda>tr. do {
               tr \<leftarrow> guest_puts p (str ''[guest '') tr;
               tr \<leftarrow> guest_putc p (65 + ucast (gs_id g)) tr;
               tr \<leftarrow> guest_puts p (str ''] tick '') tr;
               tr \<leftarrow> guest_put_dec p (gs_ticks g) tr;
               guest_putc p 10 tr }) s;
        hvc3 p HVC_IRQ_DONE 0 0 tf (timer_rearm p i s) })"

text \<open>A byte the guest reads through stage 2; \<open>None\<close> is an abort.\<close>

definition phys_byte :: "platform \<Rightarrow> hyp \<Rightarrow> u64 \<Rightarrow> u8" where
  "phys_byte p s a =
     (let off = unat (a - addr_vm_priv_page p)
      in if off < 8192 then vm_priv_page s ! (off div 4096) ! (off mod 4096) else ram_byte p a)"

definition guest_load8 :: "platform \<Rightarrow> hyp \<Rightarrow> u64 \<Rightarrow> u8 option" where
  "guest_load8 p s ipa =
     (case s2_walk p s (sys s VTTBR_EL2) ipa of Mapped pa _ \<Rightarrow> Some (phys_byte p s pa) | _ \<Rightarrow> None)"

definition VM_PRIVATE_IPA :: u64 where [hyp_consts]: "VM_PRIVATE_IPA = 0x0A000000"

text \<open>
  Everything up to the idle loop; \<open>vectors\<close> is the address of the guest's vector table. The
  final \<open>msr daifclr\<close> only unmasks interrupts.
\<close>

definition guest_entry_common :: "platform \<Rightarrow> u64 \<Rightarrow> u64 \<Rightarrow> hyp \<Rightarrow> hyp option" where
  "guest_entry_common p vectors gid s =
     (let i = gs p s;
          (frq, s) = mrs_dev p CNTFRQ_EL0 (upd_gs i (\<lambda>g. g\<lparr>gs_id := ucast gid, gs_ticks := 0\<rparr>) s);
          s = upd_gs i (\<lambda>g. g\<lparr>gs_tick_period := frq div 10\<rparr>) s
      in do {
        priv \<leftarrow> guest_load8 p s VM_PRIVATE_IPA;
        s \<leftarrow> guest_print p (\<lambda>tr. do {
               tr \<leftarrow> guest_puts p (str ''[guest '') tr;
               tr \<leftarrow> guest_putc p (65 + ucast gid) tr;
               tr \<leftarrow> guest_puts p (str ''] booted, priv='') tr;
               tr \<leftarrow> guest_putc p priv tr;
               tr \<leftarrow> guest_puts p (str '', cntfrq/10='') tr;
               tr \<leftarrow> guest_put_dec p (gs_tick_period (guest_states s ! i)) tr;
               guest_putc p 10 tr }) (msr VBAR_EL1 vectors s);
        Some (timer_rearm p i s) })"

declare dec_loop.simps [simp del]

section \<open>The guest prints what it means to\<close>

lemma guest_wait_uart_wait: "guest_wait p tr = uart_wait p tr"
proof -
  have a: "UART_FR = UARTFR" "FR_TXFF = 32" by (simp_all add: hyp_consts)
  have 1: "uart_wait p tr = Some x" if "guest_wait p tr = Some x" for x
  proof (rule guest_wait.raw_induct [OF _ that])
    fix f p tr x
    assume IH: "\<And>p tr x. f p tr = Some x \<Longrightarrow> uart_wait p tr = Some x"
      and eq: "(if fst (load_io p W32 UART_FR tr) AND push_bit 5 1 \<noteq> 0
        then f p (snd (load_io p W32 UART_FR tr)) else Some (snd (load_io p W32 UART_FR tr))) = Some x"
    then show "uart_wait p tr = Some x"
      by (subst uart_wait.simps) (auto simp: a split: if_splits)
  qed
  have 2: "guest_wait p tr = Some x" if "uart_wait p tr = Some x" for x
  proof (rule uart_wait.raw_induct [OF _ that])
    fix f p tr x
    assume IH: "\<And>p tr x. f p tr = Some x \<Longrightarrow> guest_wait p tr = Some x"
      and eq: "(if fst (load_io p W32 UARTFR tr) AND FR_TXFF \<noteq> 0
        then f p (snd (load_io p W32 UARTFR tr)) else Some (snd (load_io p W32 UARTFR tr))) = Some x"
    then show "guest_wait p tr = Some x"
      by (subst guest_wait.simps) (auto simp: a split: if_splits)
  qed
  show ?thesis using 1 2 by (metis option.exhaust)
qed

lemma guest_putc_uart_putc: "guest_putc p c tr = uart_putc p c tr"
  by (simp add: guest_putc_def uart_putc_def guest_wait_uart_wait hyp_consts)

lemma guest_putc_prints: "guest_putc p c tr = Some tr' \<Longrightarrow> prints tr [c] tr'"
  unfolding guest_putc_uart_putc by (rule uart_putc_prints)

lemma guest_puts_prints: "0 \<notin> set cs \<Longrightarrow> guest_puts p cs tr = Some tr' \<Longrightarrow> prints tr cs tr'"
proof (induction cs arbitrary: tr)
  case (Cons c cs)
  then obtain t1 where "guest_putc p c tr = Some t1" "guest_puts p cs t1 = Some tr'" by auto
  then show ?case using prints_trans [OF guest_putc_prints] Cons by fastforce
qed simp

lemma put_back_prints:
  "put_back p buf i tr = Some tr' \<Longrightarrow> i \<le> length buf \<Longrightarrow> prints tr (rev (take i buf)) tr'"
proof (induction i arbitrary: tr)
  case (Suc i)
  then obtain t1 where "guest_putc p (buf ! i) tr = Some t1" "put_back p buf i t1 = Some tr'" by auto
  then show ?case using prints_trans [OF guest_putc_prints] Suc by (fastforce simp: take_Suc_conv_app_nth)
qed simp

fun ndigits :: "nat \<Rightarrow> nat list" where
  "ndigits n = (if n = 0 then [] else n mod 10 # ndigits (n div 10))"

declare ndigits.simps [simp del]

lemma dec_loop_ndigits: "dec_loop v buf = buf @ map (\<lambda>d. of_nat (48 + d)) (ndigits (unat v))"
proof (induction v buf rule: dec_loop.induct)
  case (1 v buf)
  show ?case
  proof (cases "v = 0")
    case True
    then show ?thesis by (simp add: dec_loop.simps ndigits.simps)
  next
    case False
    have "(48 + ucast (v mod 10) :: u8) = of_nat (48 + unat (v mod 10))" by simp
    then have "(48 + ucast (v mod 10) :: u8) = of_nat (48 + unat v mod 10)"
      by (simp only: unat_mod_distrib) simp
    then show ?thesis using 1 [OF False] False
      by (subst dec_loop.simps, subst ndigits.simps) (simp add: unat_div_distrib unat_eq_zero)
  qed
qed


lemma ndigits_value: "foldr (\<lambda>d n. d + 10 * n) (ndigits n) 0 = n"
  by (induction n rule: ndigits.induct) (subst ndigits.simps, auto)

lemma ndigits_lt: "d \<in> set (ndigits n) \<Longrightarrow> d < 10"
  by (induction n rule: ndigits.induct) (subst (asm) ndigits.simps, auto split: if_splits)

lemma ndigits_length: "n < 10 ^ k \<Longrightarrow> length (ndigits n) \<le> k"
proof (induction k arbitrary: n)
  case 0
  then show ?case by (simp add: ndigits.simps)
next
  case (Suc k)
  then have "n div 10 < 10 ^ k" by (simp add: div_less_iff_less_mult)
  then show ?case using Suc.IH [of "n div 10"] by (subst ndigits.simps) simp
qed

lemma ndigits_last: "n \<noteq> 0 \<Longrightarrow> ndigits n \<noteq> [] \<and> last (ndigits n) \<noteq> 0"
proof (induction n rule: ndigits.induct)
  case (1 n)
  show ?case
  proof (cases "n div 10 = 0")
    case True
    then show ?thesis using 1(2) by (subst (1 2) ndigits.simps) (auto simp: ndigits.simps [of 0])
  next
    case False
    then show ?thesis using 1 by (subst (1 2) ndigits.simps) auto
  qed
qed

text \<open>The decimal numeral of a number, and reading one back.\<close>

definition dec_text :: "u64 \<Rightarrow> u8 list" where
  "dec_text v = (if v = 0 then [48] else rev (dec_loop v []))"

definition read_dec :: "u8 list \<Rightarrow> nat" where
  "read_dec cs = foldl (\<lambda>n c. 10 * n + (unat c - 48)) 0 cs"

lemma dec_loop_length: "length (dec_loop v []) \<le> 20"
proof -
  have "unat v < 2 ^ 64" using unsigned_less [of v, where 'a = nat] by simp
  also have "\<dots> < (10::nat) ^ 20" by simp
  finally show ?thesis by (simp add: dec_loop_ndigits ndigits_length)
qed

lemma digit_char: "d < 10 \<Longrightarrow> unat (of_nat (48 + d) :: u8) = 48 + d"
  by (subst unat_of_nat) simp

lemma read_dec_text: "read_dec (dec_text v) = unat v"
proof -
  have "foldr (\<lambda>c n. 10 * n + (unat c - 48)) (map (\<lambda>d. of_nat (48 + d) :: u8) ds) 0
      = foldr (\<lambda>d n. d + 10 * n) ds 0" if "\<forall>d \<in> set ds. d < 10" for ds
    using that by (induction ds) (simp_all add: digit_char del: of_nat_add)
  then show ?thesis
    using ndigits_lt ndigits_value [of "unat v"]
    by (auto simp: read_dec_def dec_text_def foldl_conv_foldr dec_loop_ndigits simp del: of_nat_add)
qed

lemma dec_text_shape:
  "list_all (\<lambda>c. 48 \<le> c \<and> c \<le> 57) (dec_text v)" "1 \<le> length (dec_text v)" "length (dec_text v) \<le> 20"
  "v \<noteq> 0 \<Longrightarrow> hd (dec_text v) \<noteq> 48"
proof -
  have "c = 48 \<or> (\<exists>d \<in> set (ndigits (unat v)). c = of_nat (48 + d))" if "c \<in> set (dec_text v)" for c
    using that by (auto simp: dec_text_def dec_loop_ndigits split: if_splits)
  then have c: "\<exists>d < 10. c = of_nat (48 + d)" if "c \<in> set (dec_text v)" for c
    using that ndigits_lt by (metis add_0_right of_nat_numeral zero_less_numeral)
  have "48 \<le> c \<and> c \<le> 57" if c': "c \<in> set (dec_text v)" for c
  proof -
    obtain d where d: "d < 10" "c = of_nat (48 + d)" using c [OF c'] by blast
    then have "unat c = 48 + d" by (simp only: digit_char)
    then show ?thesis using d(1) by (simp add: word_le_nat_alt)
  qed
  then show "list_all (\<lambda>c. 48 \<le> c \<and> c \<le> 57) (dec_text v)" by (simp add: list_all_iff)
  show "length (dec_text v) \<le> 20" using dec_loop_length by (simp add: dec_text_def)
  have l: "ndigits (unat v) \<noteq> []" "last (ndigits (unat v)) \<noteq> 0" if "v \<noteq> 0"
    using that ndigits_last [of "unat v"] by (simp_all add: unat_eq_zero)
  then show "1 \<le> length (dec_text v)"
    by (auto simp: dec_text_def dec_loop_ndigits Suc_le_eq)
  show "hd (dec_text v) \<noteq> 48" if v: "v \<noteq> 0"
  proof -
    let ?d = "last (ndigits (unat v))"
    have "hd (dec_text v) = of_nat (48 + ?d)"
      using l [OF v] v by (simp add: dec_text_def dec_loop_ndigits hd_rev last_map)
    moreover have "?d < 10" using ndigits_lt last_in_set l(1) [OF v] by blast
    ultimately have "unat (hd (dec_text v)) = 48 + ?d" by (simp only: digit_char)
    then show ?thesis using l(2) [OF v] by auto
  qed
qed

lemma guest_put_dec_prints: "guest_put_dec p v tr = Some tr' \<Longrightarrow> prints tr (dec_text v) tr'"
  using put_back_prints [of p "dec_loop v []" "length (dec_loop v [])" tr tr'] guest_putc_prints
  by (auto simp: guest_put_dec_def dec_text_def Let_def split: if_splits)

section \<open>A timer tick, from injection to completion\<close>

lemma hvc3_irq_done:
  "hvc3 p HVC_IRQ_DONE a1 a2 tf s =
     (let tf1 = tf\<lparr>tf_x := (tf_x tf)[0 := HVC_IRQ_DONE, 1 := a1, 2 := a2]\<rparr>;
          s1 = s\<lparr>sys := (sys s)(ESR_EL2 := 0x5A000000)\<rparr>
      in Some (Ret (set_x 0 0 tf1), vgic_ack_all (v_id (current_vcpu s)) (log_exit tf1 VEC_L64_SYNC s1)))"
  if "tf_x tf \<noteq> []"
  using that
  by (simp add: hvc3_def handle_exception_def Let_def hyp_consts esr_ec_def mrs_def log_exit_def handle_hvc_def
      is_psci_fid_def current_vcpu_def exit_ring_push_def)

lemma timer_rearm_fields [simp]:
  "guest_states (timer_rearm p i s) = guest_states s" "vgics (timer_rearm p i s) = vgics s"
  "vcpus (timer_rearm p i s) = vcpus s" "current (timer_rearm p i s) = current s"
  "sys (timer_rearm p i s) HCR_EL2 = sys s HCR_EL2" "sys (timer_rearm p i s) CNTV_CTL_EL0 = 1"
  "sys (timer_rearm p i s) CNTV_CVAL_EL0 =
     dev_mrs p (io s) CNTVCT_EL0 + gs_tick_period (guest_states s ! i)"
  "hyp_inv q (timer_rearm p i s) = hyp_inv q s"
  by (simp_all add: timer_rearm_def Let_def split_beta mrs_dev_def msr_def hyp_inv_def sched_ok_def line_of_def)

definition tick_text :: "guest_state \<Rightarrow> u8 list" where
  "tick_text g = str ''[guest '' @ [65 + ucast (gs_id g)] @ str ''] tick '' @ dec_text (gs_ticks g) @ [10]"

lemma guest_tick_prints:
  assumes "(do { tr \<leftarrow> guest_puts p (str ''[guest '') tr;
               tr \<leftarrow> guest_putc p (65 + ucast (gs_id g)) tr;
               tr \<leftarrow> guest_puts p (str ''] tick '') tr;
               tr \<leftarrow> guest_put_dec p (gs_ticks g) tr;
               guest_putc p 10 tr }) = Some tr'"
  shows "prints tr (tick_text g) tr'"
proof -
  have z: "0 \<notin> set (str ''[guest '')" "0 \<notin> set (str ''] tick '')" by (simp_all add: str_def)
  obtain t1 t2 t3 t4 where t: "guest_puts p (str ''[guest '') tr = Some t1"
      "guest_putc p (65 + ucast (gs_id g)) t1 = Some t2" "guest_puts p (str ''] tick '') t2 = Some t3"
      "guest_put_dec p (gs_ticks g) t3 = Some t4" "guest_putc p 10 t4 = Some tr'"
    using assms by auto
  show ?thesis
    using prints_trans [OF guest_puts_prints [OF z(1) t(1)] prints_trans [OF guest_putc_prints [OF t(2)]
      prints_trans [OF guest_puts_prints [OF z(2) t(3)] prints_trans [OF guest_put_dec_prints [OF t(4)]
        guest_putc_prints [OF t(5)]]]]]
    by (simp add: tick_text_def)
qed

lemma guest_irq_handler_effect:
  assumes run: "guest_irq_handler p tf s = Some (r, s')" and inv: "hyp_inv q s"
    and x: "length (tf_x tf) = 31" and i: "gs p s < length (guest_states s)"
  defines "g \<equiv> (guest_states s ! gs p s)\<lparr>gs_ticks := gs_ticks (guest_states s ! gs p s) + 1\<rparr>"
  shows "\<exists>es. console es = tick_text g \<and> list_all uart_ev es
      \<and> (let s1 = s\<lparr>guest_states := (guest_states s)[gs p s := g], io := io s @ es\<rparr>;
             tf1 = tf\<lparr>tf_x := (tf_x tf)[0 := HVC_IRQ_DONE, 1 := 0, 2 := 0]\<rparr>;
             s2 = timer_rearm p (gs p s) s1
         in r = Ret (set_x 0 0 tf1) \<and> s' = vgic_ack_all (current s)
              (log_exit tf1 VEC_L64_SYNC (s2\<lparr>sys := (sys s2)(ESR_EL2 := 0x5A000000)\<rparr>)))"
proof -
  let ?s0 = "s\<lparr>guest_states := (guest_states s)[gs p s := g]\<rparr>"
  have g: "guest_states ?s0 ! gs p s = g" using i by simp
  have v: "v_id (current_vcpu s) = current s" by (rule hyp_inv_current [OF inv])
  from run obtain tr where t: "(do { tr \<leftarrow> guest_puts p (str ''[guest '') (io s);
               tr \<leftarrow> guest_putc p (65 + ucast (gs_id g)) tr;
               tr \<leftarrow> guest_puts p (str ''] tick '') tr;
               tr \<leftarrow> guest_put_dec p (gs_ticks g) tr;
               guest_putc p 10 tr }) = Some tr"
    and h: "hvc3 p HVC_IRQ_DONE 0 0 tf (timer_rearm p (gs p s) (?s0\<lparr>io := tr\<rparr>)) = Some (r, s')"
    using i unfolding guest_irq_handler_def guest_print_def Let_def upd_gs_def g_def
    by (fastforce simp del: guest_puts.simps)
  from guest_tick_prints [OF t] obtain es where es: "tr = io s @ es" "list_all uart_ev es"
      "console es = tick_text g" by (auto simp: prints_def)
  have ne: "tf_x tf \<noteq> []" using x by auto
  have cv: "v_id (current_vcpu (timer_rearm p (gs p s) (?s0\<lparr>io := tr\<rparr>))) = current s"
    using v by (simp add: current_vcpu_def)
  show ?thesis
    using es h unfolding hvc3_irq_done [OF ne] Let_def cv by auto
qed

lemma hyp_inv_cong:
  "vcpus t = vcpus s \<Longrightarrow> current t = current s \<Longrightarrow> vgics t = vgics s \<Longrightarrow> sys t HCR_EL2 = sys s HCR_EL2 \<Longrightarrow>
   hyp_inv p t = hyp_inv p s"
  by (simp add: hyp_inv_def sched_ok_def line_of_def)

lemma guest_tick_completes:
  assumes run: "guest_irq_handler p tf s = Some (r, s')" and inv: "hyp_inv q s"
    and x: "length (tf_x tf) = 31" and i: "gs p s < length (guest_states s)"
  defines "g \<equiv> (guest_states s ! gs p s)\<lparr>gs_ticks := gs_ticks (guest_states s ! gs p s) + 1\<rparr>"
  shows "r = Ret (tf\<lparr>tf_x := (tf_x tf)[0 := 0, 1 := 0, 2 := 0]\<rparr>)" and "hyp_inv q s'"
    and "pending_set (current s) s' = {}" and "\<not> vi_of (sys s' HCR_EL2)"
    and "guest_states s' = (guest_states s)[gs p s := g]"
    and "sys s' CNTV_CTL_EL0 = 1"
    and "\<exists>es. console es = tick_text g \<and>
      sys s' CNTV_CVAL_EL0 = dev_mrs p (io s @ es) CNTVCT_EL0 + gs_tick_period g"
proof -
  obtain es where es: "console es = tick_text g"
    and r: "r = Ret (set_x 0 0 (tf\<lparr>tf_x := (tf_x tf)[0 := HVC_IRQ_DONE, 1 := 0, 2 := 0]\<rparr>))"
    and s': "s' = vgic_ack_all (current s) (log_exit (tf\<lparr>tf_x := (tf_x tf)[0 := HVC_IRQ_DONE, 1 := 0, 2 := 0]\<rparr>)
       VEC_L64_SYNC ((timer_rearm p (gs p s) (s\<lparr>guest_states := (guest_states s)[gs p s := g], io := io s @ es\<rparr>))
         \<lparr>sys := (sys (timer_rearm p (gs p s) (s\<lparr>guest_states := (guest_states s)[gs p s := g], io := io s @ es\<rparr>)))
            (ESR_EL2 := 0x5A000000)\<rparr>))" (is "_ = vgic_ack_all _ (log_exit _ _ (?t\<lparr>sys := _\<rparr>))")
    using guest_irq_handler_effect [OF assms(1-4)] unfolding g_def Let_def by blast
  show "r = Ret (tf\<lparr>tf_x := (tf_x tf)[0 := 0, 1 := 0, 2 := 0]\<rparr>)"
    by (simp add: r set_x_def list_update_swap)
  define u where "u = log_exit (tf\<lparr>tf_x := (tf_x tf)[0 := HVC_IRQ_DONE, 1 := 0, 2 := 0]\<rparr>)
       VEC_L64_SYNC (?t\<lparr>sys := (sys ?t)(ESR_EL2 := 0x5A000000)\<rparr>)"
  have "hyp_inv q u"
    using inv by (subst hyp_inv_cong [of _ s]) (simp_all add: u_def log_exit_def exit_ring_push_def)
  moreover have c: "current u = current s" by (simp add: u_def log_exit_def exit_ring_push_def)
  ultimately have u: "hyp_inv q (vgic_ack_all (current s) u)" "vgic_inv (current s) u"
    using hyp_inv_vgic_ops(3) hyp_inv_current(2) by metis+
  then show "hyp_inv q s'" by (simp add: s' u_def)
  have "abs_vgic (current s) s' = fst (a_ack_all (abs_vgic (current s) u))"
    using u(2) vgic_ack_all_abs(1) by (simp add: s' u_def vgic_inv_def)
  then show "pending_set (current s) s' = {}" and "\<not> vi_of (sys s' HCR_EL2)"
    by (simp_all add: abs_vgic_def a_ack_all_def)
  have f: "guest_states (vgic_ack_all v w) = guest_states w" "r \<noteq> HCR_EL2 \<Longrightarrow> sys (vgic_ack_all v w) r = sys w r"
    for v w r
    by (simp_all add: vgic_ack_all_def Let_def set_vi_def msr_def store_def upd_vgic_def)
  show "guest_states s' = (guest_states s)[gs p s := g]" "sys s' CNTV_CTL_EL0 = 1"
    by (simp_all add: s' f log_exit_def exit_ring_push_def)
  show "\<exists>es. console es = tick_text g \<and>
      sys s' CNTV_CVAL_EL0 = dev_mrs p (io s @ es) CNTVCT_EL0 + gs_tick_period g"
    using es i by (intro exI [of _ es]) (simp add: s' f log_exit_def exit_ring_push_def)
qed


section \<open>The private page\<close>

lemma guest_private_byte:
  assumes lay: "layout_ok p" and inv: "vm_inv p s" and c: "unat (current s) < length (vcpus s)"
  shows "guest_load8 p s VM_PRIVATE_IPA = Some (vm_priv_page s ! unat (current s) ! 0)"
proof -
  let ?c = "current s"
  have two: "unat ?c < 2" using inv c by (simp add: vm_inv_def)
  have vm: "?c < MAX_VMS" using two by (simp add: MAX_VMS_def word_less_nat_alt)
  have i: "tables_ok s" "has_tables p ?c s" "sys s VTTBR_EL2 = vttbr_of p ?c (?c + 1)"
    using inv c by (auto simp: vm_inv_def reg_at_def dest!: spec [of _ "unat ?c"])
  have w: "s2_walk p s (sys s VTTBR_EL2) VM_PRIVATE_IPA = Mapped (row_addr (addr_vm_priv_page p) ?c) ram_attr"
    unfolding i(3) vttbr_of_def s2_walk_spec [OF lay i(1,2) vm]
    by (simp add: s2_spec_def VM_PRIVATE_IPA_def)
  have "unat (row_addr (addr_vm_priv_page p) ?c - addr_vm_priv_page p) = 4096 * unat ?c"
    using two by (simp add: row_addr_def unat_word_ariths mult.commute unsigned_ucast_eq take_bit_nat_eq_self)
  then show ?thesis using two by (simp add: guest_load8_def w phys_byte_def Let_def)
qed

definition boot_text :: "u64 \<Rightarrow> u8 \<Rightarrow> u64 \<Rightarrow> u8 list" where
  "boot_text gid priv period = str ''[guest '' @ [65 + ucast gid] @ str ''] booted, priv='' @ [priv]
     @ str '', cntfrq/10='' @ dec_text period @ [10]"

lemma guest_boot_prints:
  assumes "(do { tr \<leftarrow> guest_puts p (str ''[guest '') tr;
               tr \<leftarrow> guest_putc p (65 + ucast gid) tr;
               tr \<leftarrow> guest_puts p (str ''] booted, priv='') tr;
               tr \<leftarrow> guest_putc p priv tr;
               tr \<leftarrow> guest_puts p (str '', cntfrq/10='') tr;
               tr \<leftarrow> guest_put_dec p period tr;
               guest_putc p 10 tr }) = Some tr'"
  shows "prints tr (boot_text gid priv period) tr'"
proof -
  have z: "0 \<notin> set (str ''[guest '')" "0 \<notin> set (str ''] booted, priv='')" "0 \<notin> set (str '', cntfrq/10='')"
    by (simp_all add: str_def)
  obtain t1 t2 t3 t4 t5 t6 where t: "guest_puts p (str ''[guest '') tr = Some t1"
      "guest_putc p (65 + ucast gid) t1 = Some t2" "guest_puts p (str ''] booted, priv='') t2 = Some t3"
      "guest_putc p priv t3 = Some t4" "guest_puts p (str '', cntfrq/10='') t4 = Some t5"
      "guest_put_dec p period t5 = Some t6" "guest_putc p 10 t6 = Some tr'"
    using assms by auto
  show ?thesis
    using prints_trans [OF guest_puts_prints [OF z(1) t(1)] prints_trans [OF guest_putc_prints [OF t(2)]
      prints_trans [OF guest_puts_prints [OF z(2) t(3)] prints_trans [OF guest_putc_prints [OF t(4)]
      prints_trans [OF guest_puts_prints [OF z(3) t(5)] prints_trans [OF guest_put_dec_prints [OF t(6)]
        guest_putc_prints [OF t(7)]]]]]]]
    by (simp add: boot_text_def)
qed

lemma guest_entry_effect:
  assumes run: "guest_entry_common p vectors gid s = Some s'" and i: "gs p s < length (guest_states s)"
    and lay: "layout_ok p" and inv: "vm_inv p s" and c: "unat (current s) < length (vcpus s)"
  defines "frq \<equiv> dev_mrs p (io s) CNTFRQ_EL0"
  shows "\<exists>es. io s' = io s @ [Mrs CNTFRQ_EL0 frq, Msr VBAR_EL1 vectors] @ es
    \<and> console es = boot_text gid (vm_priv_page s ! unat (current s) ! 0) (frq div 10)"
    and "guest_states s' = (guest_states s)[gs p s := \<lparr>gs_id = ucast gid, gs_ticks = 0, gs_tick_period = frq div 10\<rparr>]"
    and "sys s' VBAR_EL1 = vectors" and "sys s' CNTV_CTL_EL0 = 1"
proof -
  let ?g = "\<lparr>gs_id = ucast gid, gs_ticks = 0, gs_tick_period = frq div 10\<rparr>"
  have rec: "(g :: guest_state)\<lparr>gs_id := ucast gid, gs_ticks := 0, gs_tick_period := frq div 10\<rparr> = ?g" for g
    by (rule guest_state.equality) simp_all
  define s1 where "s1 = s\<lparr>guest_states := (guest_states s)[gs p s := ?g], io := io s @ [Mrs CNTFRQ_EL0 frq]\<rparr>"
  have "keeps_vm s s1" by (simp add: s1_def keeps_vm_def keeps_def)
  then have inv1: "vm_inv p s1" "current s1 = current s" "vcpus s1 = vcpus s" "vm_priv_page s1 = vm_priv_page s"
    using inv vm_inv_keeps_vm by (auto simp: s1_def)
  have priv: "guest_load8 p s1 VM_PRIVATE_IPA = Some (vm_priv_page s ! unat (current s) ! 0)"
    using guest_private_byte [OF lay inv1(1)] c by (simp add: inv1)
  have u: "upd_gs (gs p s) (\<lambda>g. g\<lparr>gs_tick_period := frq div 10\<rparr>)
      (snd (mrs_dev p CNTFRQ_EL0 (upd_gs (gs p s) (\<lambda>g. g\<lparr>gs_id := ucast gid, gs_ticks := 0\<rparr>) s))) = s1"
    "fst (mrs_dev p CNTFRQ_EL0 (upd_gs (gs p s) (\<lambda>g. g\<lparr>gs_id := ucast gid, gs_ticks := 0\<rparr>) s)) = frq"
    using i by (simp_all add: upd_gs_def mrs_dev_def Let_def s1_def frq_def [symmetric] rec)
  have g1: "gs_tick_period (guest_states s1 ! gs p s) = frq div 10" using i by (simp add: s1_def)
  from run obtain tr where t: "(do { tr \<leftarrow> guest_puts p (str ''[guest '') (io (msr VBAR_EL1 vectors s1));
               tr \<leftarrow> guest_putc p (65 + ucast gid) tr;
               tr \<leftarrow> guest_puts p (str ''] booted, priv='') tr;
               tr \<leftarrow> guest_putc p (vm_priv_page s ! unat (current s) ! 0) tr;
               tr \<leftarrow> guest_puts p (str '', cntfrq/10='') tr;
               tr \<leftarrow> guest_put_dec p (frq div 10) tr;
               guest_putc p 10 tr }) = Some tr"
    and s': "s' = timer_rearm p (gs p s) ((msr VBAR_EL1 vectors s1)\<lparr>io := tr\<rparr>)"
    unfolding guest_entry_common_def guest_print_def
    by (simp only: split_beta u Let_def priv g1 Option.bind.bind_lunit) (auto simp del: guest_puts.simps)
  obtain es where es: "tr = io (msr VBAR_EL1 vectors s1) @ es"
      "console es = boot_text gid (vm_priv_page s ! unat (current s) ! 0) (frq div 10)"
    using guest_boot_prints [OF t] by (auto simp: prints_def)
  have io': "io s' = tr @ [Mrs CNTVCT_EL0 (dev_mrs p tr CNTVCT_EL0),
      Msr CNTV_CVAL_EL0 (dev_mrs p tr CNTVCT_EL0 + frq div 10), Msr CNTV_CTL_EL0 1]"
    using g1 by (simp add: s' timer_rearm_def mrs_dev_def msr_def Let_def)
  show "\<exists>es. io s' = io s @ [Mrs CNTFRQ_EL0 frq, Msr VBAR_EL1 vectors] @ es
    \<and> console es = boot_text gid (vm_priv_page s ! unat (current s) ! 0) (frq div 10)"
    using es by (intro exI [of _ "es @ drop (length tr) (io s')"]) (simp add: io' msr_def s1_def)
  show "guest_states s' = (guest_states s)[gs p s := ?g]" "sys s' CNTV_CTL_EL0 = 1"
    by (simp_all add: s' msr_def s1_def)
  show "sys s' VBAR_EL1 = vectors"
    by (simp add: s' timer_rearm_def mrs_dev_def msr_def Let_def)
qed

section \<open>The guest's output always completes\<close>

context pl011_console
begin

lemma guest_putc_returns: "\<exists>tr'. guest_putc p c tr = Some tr'"
  unfolding guest_putc_uart_putc by (rule uart_putc_returns)

lemma guest_puts_returns: "\<exists>tr'. guest_puts p cs tr = Some tr'"
proof (induction cs arbitrary: tr)
  case (Cons c cs)
  obtain t1 where "guest_putc p c tr = Some t1" using guest_putc_returns by blast
  with Cons.IH [of t1] show ?case by auto
qed simp

lemma put_back_returns: "\<exists>tr'. put_back p buf i tr = Some tr'"
proof (induction i arbitrary: tr)
  case (Suc i)
  obtain t1 where "guest_putc p (buf ! i) tr = Some t1" using guest_putc_returns by blast
  with Suc.IH [of t1] show ?case by auto
qed simp

lemma guest_put_dec_returns: "\<exists>tr'. guest_put_dec p v tr = Some tr'"
  using guest_putc_returns put_back_returns by (simp add: guest_put_dec_def Let_def)

lemma guest_returns_simps:
  "guest_putc p c tr \<noteq> None" "guest_puts p cs tr \<noteq> None" "guest_put_dec p v tr \<noteq> None"
  using guest_putc_returns [of c tr] guest_puts_returns [of cs tr] guest_put_dec_returns [of v tr] by auto

lemma guest_irq_handler_returns:
  assumes "tf_x tf \<noteq> []"
  shows "\<exists>r s'. guest_irq_handler p tf s = Some (r, s')"
proof -
  have "guest_irq_handler p tf s \<noteq> None"
    using assms
    by (simp add: guest_irq_handler_def guest_print_def Let_def hvc3_irq_done bind_eq_None_conv
        guest_returns_simps del: not_None_eq guest_puts.simps)
  then show ?thesis by auto
qed

lemma guest_entry_common_returns:
  assumes "layout_ok p" and "vm_inv p s" and "unat (current s) < length (vcpus s)"
  shows "\<exists>s'. guest_entry_common p vectors gid s = Some s'"
proof -
  let ?t = "upd_gs (gs p s) (\<lambda>g. g\<lparr>gs_tick_period := dev_mrs p (io s) CNTFRQ_EL0 div 10\<rparr>)
      (snd (mrs_dev p CNTFRQ_EL0 (upd_gs (gs p s) (\<lambda>g. g\<lparr>gs_id := ucast gid, gs_ticks := 0\<rparr>) s)))"
  have "keeps_vm s ?t" by (simp add: upd_gs_def mrs_dev_def Let_def keeps_vm_def keeps_def)
  then have "vm_inv p ?t" "current ?t = current s" "vcpus ?t = vcpus s"
    using assms(2) vm_inv_keeps_vm by (auto simp: upd_gs_def mrs_dev_def Let_def)
  then have "guest_load8 p ?t VM_PRIVATE_IPA \<noteq> None"
    using guest_private_byte [OF assms(1), of ?t] assms(3) by simp
  then have "guest_entry_common p vectors gid s \<noteq> None"
    by (simp add: guest_entry_common_def guest_print_def Let_def split_beta bind_eq_None_conv
        guest_returns_simps mrs_dev_def upd_gs_def del: not_None_eq guest_puts.simps)
  then show ?thesis by auto
qed

end


section \<open>Properties\<close>

text \<open>
  C29. Printing a number in decimal, on a console that drains: the digits fit the 24-byte buffer of
  \<open>guest_put_dec\<close>, what appears is a decimal numeral with no leading zero, and reading it back
  gives the number.
\<close>

theorem guest_put_dec_roundtrip:
  assumes "pl011_console p"
  shows "\<exists>es. guest_put_dec p v tr = Some (tr @ es) \<and> list_all uart_ev es
    \<and> length (dec_loop v []) \<le> 24 \<and> list_all (\<lambda>c. 48 \<le> c \<and> c \<le> 57) (console es)
    \<and> (hd (console es) = 48 \<longleftrightarrow> v = 0) \<and> read_dec (console es) = unat v"
proof -
  obtain tr' where "guest_put_dec p v tr = Some tr'"
    using pl011_console.guest_put_dec_returns [OF assms] by blast
  then obtain es where es: "guest_put_dec p v tr = Some (tr @ es)" "list_all uart_ev es" "console es = dec_text v"
    using guest_put_dec_prints by (fastforce simp: prints_def)
  have "hd (dec_text v) = 48 \<longleftrightarrow> v = 0" using dec_text_shape(4) [of v] by (auto simp: dec_text_def)
  then show ?thesis using es dec_text_shape [of v] read_dec_text [of v] dec_loop_length [of v] by auto
qed

theorem guest_put_dec_roundtrip_witness:
  "\<exists>es. guest_put_dec (board 1 0) 1234567890 [] = Some es \<and> read_dec (console es) = 1234567890"
  using guest_put_dec_roundtrip [OF board_console.pl011_console_axioms [of 1 0], of 1234567890 "[]"] by auto

text \<open>
  A virtual timer tick in the guest, from its interrupt handler to the hypercall that ends
  it: with a console that drains the handler returns to the interrupted code with only
  \<open>x0\<close> to \<open>x2\<close> changed, has counted and printed the tick under the VM's own letter, has
  rearmed the timer one period ahead, and leaves no virtual interrupt pending and the
  invariants intact.
\<close>

theorem guest_tick_end_to_end:
  assumes "pl011_console p" and "hyp_inv p s" and "length (tf_x tf) = 31" and "gs p s < length (guest_states s)"
  defines "g \<equiv> (guest_states s ! gs p s)\<lparr>gs_ticks := gs_ticks (guest_states s ! gs p s) + 1\<rparr>"
  shows "\<exists>s'. guest_irq_handler p tf s = Some (Ret (tf\<lparr>tf_x := (tf_x tf)[0 := 0, 1 := 0, 2 := 0]\<rparr>), s')
    \<and> hyp_inv p s' \<and> pending_set (current s) s' = {} \<and> \<not> vi_of (sys s' HCR_EL2)
    \<and> guest_states s' = (guest_states s)[gs p s := g] \<and> sys s' CNTV_CTL_EL0 = 1
    \<and> (\<exists>es. console es = tick_text g
        \<and> sys s' CNTV_CVAL_EL0 = dev_mrs p (io s @ es) CNTVCT_EL0 + gs_tick_period g)"
proof -
  have "tf_x tf \<noteq> []" using assms(3) by auto
  then obtain r s' where run: "guest_irq_handler p tf s = Some (r, s')"
    using pl011_console.guest_irq_handler_returns [OF assms(1)] by blast
  show ?thesis
    using run guest_tick_completes [OF run assms(2-4)] unfolding g_def by blast
qed


theorem guest_tick_end_to_end_witness:
  "\<exists>s'. guest_irq_handler (board 1 0) some_frame (boot_state (board 1 0) ((\<lambda>_. 0)(TPIDR_EL1 := 0x4010A000))) =
       Some (Ret (some_frame\<lparr>tf_x := (replicate 31 7)[0 := 0, 1 := 0, 2 := 0]\<rparr>), s')
     \<and> gs_ticks (guest_states s' ! 0) = 1"
proof -
  let ?s = "boot_state (board 1 0) ((\<lambda>_. 0)(TPIDR_EL1 := 0x4010A000))"
  have "hyp_inv (board 1 0) ?s"
    using boot_hyp_inv [of 0] by (subst hyp_inv_cong [of _ "boot_state (board 1 0) (\<lambda>_. 0)"]) simp_all
  moreover have i: "gs (board 1 0) ?s = 0" by (simp add: gs_def mrs_def)
  moreover have g: "guest_states ?s = [\<lparr>gs_id = 0, gs_ticks = 0, gs_tick_period = 0\<rparr>]"
    by (simp add: boot_state_def)
  ultimately obtain s' where "guest_irq_handler (board 1 0) some_frame ?s =
       Some (Ret (some_frame\<lparr>tf_x := (tf_x some_frame)[0 := 0, 1 := 0, 2 := 0]\<rparr>), s')"
    "guest_states s' = (guest_states ?s)[0 := (guest_states ?s ! 0)\<lparr>gs_ticks := gs_ticks (guest_states ?s ! 0) + 1\<rparr>]"
    using guest_tick_end_to_end [OF board_console.pl011_console_axioms [of 1 0], of ?s some_frame] i
    by (auto simp: some_frame_def)
  then show ?thesis by (intro exI [of _ s']) (simp add: g some_frame_def)
qed

text \<open>
  C28. A guest that starts up reports the byte it finds in its private page, and that byte is the
  one of its own VM's page, whatever the other VM holds: with a console that drains, entry
  returns, prints the VM's letter, its private byte and the tick period, and initialises only its
  own slot of \<open>guest_states\<close>.
\<close>

theorem guest_entry_private_page:
  assumes "pl011_console p" and "layout_ok p" and "vm_inv p s" and "unat (current s) < length (vcpus s)"
    and "gs p s < length (guest_states s)"
  defines "frq \<equiv> dev_mrs p (io s) CNTFRQ_EL0"
  shows "\<exists>s' es. guest_entry_common p vectors gid s = Some s'
    \<and> io s' = io s @ [Mrs CNTFRQ_EL0 frq, Msr VBAR_EL1 vectors] @ es
    \<and> console es = boot_text gid (vm_priv_page s ! unat (current s) ! 0) (frq div 10)
    \<and> guest_states s' = (guest_states s)
        [gs p s := \<lparr>gs_id = ucast gid, gs_ticks = 0, gs_tick_period = frq div 10\<rparr>]
    \<and> sys s' VBAR_EL1 = vectors \<and> sys s' CNTV_CTL_EL0 = 1"
proof -
  obtain s' where run: "guest_entry_common p vectors gid s = Some s'"
    using pl011_console.guest_entry_common_returns [OF assms(1-4)] by blast
  show ?thesis
    using run guest_entry_effect [OF run assms(5,2-4)] unfolding frq_def by blast
qed

theorem guest_entry_private_page_witness:
  "\<exists>s s' es. guest_entry_common (board 1 0) 0x40091000 0 s = Some s' \<and> io s' = io s @ es
     \<and> vm_priv_page s ! 0 ! 0 = 65 \<and> console es = boot_text 0 65 (dev_mrs (board 1 0) (io s) CNTFRQ_EL0 div 10)"
proof -
  obtain b where b: "kmain (board 1 0) (boot_state (board 1 0) (\<lambda>_. 0)) = Some (Ret [LINUX_DTB_IPA, 0, 0, 0], b)"
    using board_boots [of 1 0] by blast
  have inv: "hyp_inv (board 1 0) b" "vm_inv (board 1 0) b" "vm_priv_page b ! 0 ! 0 = 65"
    using kmain_effect [OF b] by auto
  let ?s = "b\<lparr>sys := (sys b)(TPIDR_EL1 := 0x4010A000),
    guest_states := [\<lparr>gs_id = 0, gs_ticks = 0, gs_tick_period = 0\<rparr>]\<rparr>"
  have "keeps_vm b ?s" by (simp add: keeps_vm_def keeps_def)
  then have v: "vm_inv (board 1 0) ?s" using inv(2) vm_inv_keeps_vm by blast
  have c: "unat (current ?s) < length (vcpus ?s)" "length (vcpus ?s) = 1"
    using inv(1) by (simp_all add: hyp_inv_def sched_ok_def word_less_nat_alt)
  then have c0: "current ?s = 0" by (simp add: unat_eq_zero)
  have i: "gs (board 1 0) ?s = 0" by (simp add: gs_def mrs_def)
  obtain s' es where "guest_entry_common (board 1 0) 0x40091000 0 ?s = Some s'"
    "io s' = io ?s @ [Mrs CNTFRQ_EL0 (dev_mrs (board 1 0) (io ?s) CNTFRQ_EL0), Msr VBAR_EL1 0x40091000] @ es"
    "console es = boot_text 0 (vm_priv_page ?s ! unat (current ?s) ! 0) (dev_mrs (board 1 0) (io ?s) CNTFRQ_EL0 div 10)"
    using guest_entry_private_page [OF board_console.pl011_console_axioms [of 1 0] board_layout v c(1),
      of "0x40091000" 0] i by auto
  then show ?thesis using inv(3) c0 by (intro exI [of _ ?s] exI [of _ s']) auto
qed

end
