(* ===== verification/Hvf.thy ===== *)
theory Hvf
  imports Uart
begin

text \<open>
  The macOS launcher (\<open>src/host/hvf_main.c\<close>): the ELF loader, the PL011 it emulates for the
  hypervisor, the decoder for the load and store instructions that fault on that PL011, and
  the exit loop.

  Hypervisor.framework is not part of the sources. Its calls are the parameter \<open>hv\<close>: a
  function from the framework's state (including guest RAM, which a running vCPU writes) and
  a call to the status (\<open>None\<close> for \<open>HV_SUCCESS\<close>), the out-parameter and the next state. The file named on the command
  line is a parameter too.

  A function of the launcher yields \<open>Inr\<close> of its result, or \<open>Inl\<close> of the way the process
  ended: with an exit status, or with an access outside the memory it owns.
\<close>

unbundle bit_operations_syntax


section \<open>Host state\<close>

record pl011 =
  u_cr :: u32
  u_lcr_h :: u32
  u_ibrd :: u32
  u_fbrd :: u32
  u_imsc :: u32
  u_ris :: u32
  u_icr :: u32

definition pl011_reset :: pl011 where
  "pl011_reset = \<lparr>u_cr = 0x0300, u_lcr_h = 0, u_ibrd = 0, u_fbrd = 0, u_imsc = 0, u_ris = 0, u_icr = 0\<rparr>"

datatype hv_reg = HV_REG_X nat | HV_REG_PC | HV_REG_CPSR

datatype hv_op =
    Config_get_el2_supported
  | Config_set_el2_enabled bool
  | Vm_create
  | Vm_map u64 u64
  | Gic_get_distributor_size
  | Gic_get_redistributor_size
  | Gic_set_distributor_base u64
  | Gic_set_redistributor_base u64
  | Gic_create
  | Vcpu_create
  | Set_mpidr u64
  | Gic_get_redistributor_base
  | Get_reg hv_reg
  | Set_reg hv_reg u64
  | Set_pending_irq
  | Vcpu_run

text \<open>
  \<open>exit_info\<close> after a run; an exception carries its syndrome and the physical address. The
  numbers of the reasons are constants of the framework's headers.
\<close>

datatype exit_reason = Canceled | Exception u64 u64 | Vtimer_activated | Other_reason u32

record 'v hv_api =
  hv :: "'v \<Rightarrow> hv_op \<Rightarrow> u32 option \<times> u64 \<times> 'v"
  exit_info :: "'v \<Rightarrow> exit_reason"
  reason_no :: "exit_reason \<Rightarrow> u32"
  ram_of :: "'v \<Rightarrow> nat \<Rightarrow> u8"
  ram_put :: "'v \<Rightarrow> (nat \<Rightarrow> u8) \<Rightarrow> 'v"

datatype host_msg =
    Usage | No_el2 | Perror
  | Hvf_failed u32
  | Gic_sizes u64 u64
  | Gic_created
  | Not_aarch64
  | Segment_outside nat u64 u64
  | Loaded_segment nat u64 u64 u64
  | Entry_pc u64
  | Redistributor_mismatch u64
  | Redistributor_ok u64
  | Starting
  | First_exit u32
  | Pc_outside u64
  | Cannot_decode u32 u64 u64
  | Stopped_at_gic u64 u64 u64 u64
  | Unhandled_exit u64 u64 u64 u64 u64 u64
  | Vtimer_count u64
  | Unknown_reason u32

record 'v host =
  vm :: 'v
  uart :: pl011
  out :: "u8 list"
  err :: "host_msg list"
  seen :: u64
  vt_count :: u64

datatype ending = Exit int | Crash

type_synonym ('a, 'v) run = "(ending + 'a) \<times> 'v host"

definition ok :: "'a \<Rightarrow> 'v host \<Rightarrow> ('a, 'v) run" where
  "ok a h = (Inr a, h)"

definition die :: "int \<Rightarrow> host_msg \<Rightarrow> 'v host \<Rightarrow> ('a, 'v) run" where
  "die n m h = (Inl (Exit n), h\<lparr>err := err h @ [m]\<rparr>)"

definition seq :: "('a, 'v) run \<Rightarrow> ('a \<Rightarrow> 'v host \<Rightarrow> ('b, 'v) run) \<Rightarrow> ('b, 'v) run" where
  "seq r f = (case fst r of Inl e \<Rightarrow> (Inl e, snd r) | Inr a \<Rightarrow> f a (snd r))"

definition say :: "host_msg \<Rightarrow> 'v host \<Rightarrow> 'v host" where
  "say m h = h\<lparr>err := err h @ [m]\<rparr>"

text \<open>A framework call, unchecked, and inside the \<open>HVC\<close> macro.\<close>

definition call :: "'v hv_api \<Rightarrow> hv_op \<Rightarrow> 'v host \<Rightarrow> u32 option \<times> u64 \<times> 'v host" where
  "call a c h = (let (r, x, v) = hv a (vm h) c in (r, x, h\<lparr>vm := v\<rparr>))"

definition HVC :: "'v hv_api \<Rightarrow> hv_op \<Rightarrow> 'v host \<Rightarrow> (u64, 'v) run" where
  "HVC a c h = (let (r, x, h) = call a c h
     in case r of Some e \<Rightarrow> die 1 (Hvf_failed e) h | None \<Rightarrow> ok x h)"


section \<open>Memory layout\<close>

definition GUEST_RAM_BASE :: u64 where [hyp_consts]: "GUEST_RAM_BASE = 0x40000000"
definition GUEST_RAM_SIZE :: u64 where [hyp_consts]: "GUEST_RAM_SIZE = 512 * 1024 * 1024"
definition HYP_ENTRY_IPA :: u64 where [hyp_consts]: "HYP_ENTRY_IPA = 0x40080000"
definition PL011_BASE :: u64 where [hyp_consts]: "PL011_BASE = 0x09000000"
definition PL011_SIZE :: u64 where [hyp_consts]: "PL011_SIZE = 0x00001000"
definition GICD_BASE_IPA :: u64 where [hyp_consts]: "GICD_BASE_IPA = 0x08000000"
definition GICR_BASE_IPA :: u64 where [hyp_consts]: "GICR_BASE_IPA = 0x080A0000"
definition GIC_WINDOW_BASE :: u64 where [hyp_consts]: "GIC_WINDOW_BASE = 0x08000000"
definition GIC_WINDOW_LIMIT :: u64 where [hyp_consts]: "GIC_WINDOW_LIMIT = 0x08020000"

definition PL011_UARTDR :: u32 where [hyp_consts]: "PL011_UARTDR = 0x000"
definition PL011_UARTFR :: u32 where [hyp_consts]: "PL011_UARTFR = 0x018"
definition PL011_UARTIBRD :: u32 where [hyp_consts]: "PL011_UARTIBRD = 0x024"
definition PL011_UARTFBRD :: u32 where [hyp_consts]: "PL011_UARTFBRD = 0x028"
definition PL011_UARTLCR_H :: u32 where [hyp_consts]: "PL011_UARTLCR_H = 0x02C"
definition PL011_UARTCR :: u32 where [hyp_consts]: "PL011_UARTCR = 0x030"
definition PL011_UARTIMSC :: u32 where [hyp_consts]: "PL011_UARTIMSC = 0x038"
definition PL011_UARTRIS :: u32 where [hyp_consts]: "PL011_UARTRIS = 0x03C"
definition PL011_UARTMIS :: u32 where [hyp_consts]: "PL011_UARTMIS = 0x040"
definition PL011_UARTICR :: u32 where [hyp_consts]: "PL011_UARTICR = 0x044"


section \<open>PL011 emulation\<close>

definition pl011_read :: "pl011 \<Rightarrow> u32 \<Rightarrow> u32" where
  "pl011_read u off =
     (if off = PL011_UARTFR then 0
      else if off = PL011_UARTCR then u_cr u
      else if off = PL011_UARTLCR_H then u_lcr_h u
      else if off = PL011_UARTIBRD then u_ibrd u
      else if off = PL011_UARTFBRD then u_fbrd u
      else if off = PL011_UARTIMSC then u_imsc u
      else if off = PL011_UARTRIS then u_ris u
      else if off = PL011_UARTMIS then u_ris u AND u_imsc u
      else 0)"

text \<open>A write also yields the bytes it puts on the standard output.\<close>

definition pl011_write :: "u32 \<Rightarrow> u32 \<Rightarrow> pl011 \<Rightarrow> u8 list \<times> pl011" where
  "pl011_write off val u =
     (if off = PL011_UARTDR then ([ucast (val AND 0xFF)], u)
      else if off = PL011_UARTCR then ([], u\<lparr>u_cr := val\<rparr>)
      else if off = PL011_UARTLCR_H then ([], u\<lparr>u_lcr_h := val\<rparr>)
      else if off = PL011_UARTIBRD then ([], u\<lparr>u_ibrd := val\<rparr>)
      else if off = PL011_UARTFBRD then ([], u\<lparr>u_fbrd := val\<rparr>)
      else if off = PL011_UARTIMSC then ([], u\<lparr>u_imsc := val\<rparr>)
      else if off = PL011_UARTICR then ([], u\<lparr>u_ris := u_ris u AND NOT val\<rparr>)
      else ([], u))"

definition in_pl011_range :: "u64 \<Rightarrow> bool" where
  "in_pl011_range ipa \<longleftrightarrow> ipa \<ge> PL011_BASE \<and> ipa < PL011_BASE + PL011_SIZE"

section \<open>Decoding a faulting load or store\<close>

definition read_gpr :: "'v hv_api \<Rightarrow> u32 \<Rightarrow> 'v host \<Rightarrow> (u64, 'v) run" where
  "read_gpr a srt h = (if srt = 31 then ok 0 h else HVC a (Get_reg (HV_REG_X (unat srt))) h)"

definition write_gpr :: "'v hv_api \<Rightarrow> u32 \<Rightarrow> u64 \<Rightarrow> 'v host \<Rightarrow> (u64, 'v) run" where
  "write_gpr a srt v h = (if srt = 31 then ok 0 h else HVC a (Set_reg (HV_REG_X (unat srt)) v) h)"

record ldst_decoded =
  size_log2 :: u32
  rt :: u32
  wnr :: bool
  writeback :: bool
  rn :: u32
  wb_offset :: u32

text \<open>The arithmetic shift right of a 32-bit signed value; the result is its two's complement.\<close>

definition sext9 :: "u32 \<Rightarrow> u32" where
  "sext9 v = signed_drop_bit 23 (push_bit 23 (v AND 0x1FF))"

definition decode_ldst :: "u32 \<Rightarrow> ldst_decoded option" where
  "decode_ldst insn =
     (if drop_bit 26 insn AND 0xF \<noteq> 0xE then None
      else
        let op24 = drop_bit 24 insn AND 0x3;
            op = drop_bit 22 insn AND 0x3
        in if op > 1 then None
           else
             let d = \<lparr>size_log2 = drop_bit 30 insn AND 0x3, rt = insn AND 0x1F, wnr = (op = 0),
                      writeback = False, rn = drop_bit 5 insn AND 0x1F, wb_offset = 0\<rparr>
             in if op24 = 0x1 then Some d
                else if op24 = 0x0 then
                  if drop_bit 21 insn AND 1 \<noteq> 0 then None
                  else
                    let idx = drop_bit 10 insn AND 0x3;
                        imm9 = sext9 (drop_bit 12 insn AND 0x1FF)
                    in if idx = 0 then Some d
                       else if idx = 1 \<or> idx = 3 then Some (d\<lparr>writeback := True, wb_offset := imm9\<rparr>)
                       else None
                else None)"

definition mask_for_size :: "u32 \<Rightarrow> u32" where
  "mask_for_size n =
     (if n = 0 then 0x000000FF
      else if n = 1 then 0x0000FFFF
      else 0xFFFFFFFF)"

text \<open>Four bytes of guest RAM, little-endian.\<close>

definition ram_u32 :: "(nat \<Rightarrow> u8) \<Rightarrow> nat \<Rightarrow> u32" where
  "ram_u32 ram i = ucast (ram i) OR push_bit 8 (ucast (ram (i + 1)))
     OR push_bit 16 (ucast (ram (i + 2))) OR push_bit 24 (ucast (ram (i + 3)))"

text \<open>The instruction's description: from the syndrome when it is valid, else from the code in RAM.\<close>

definition abort_insn :: "'v hv_api \<Rightarrow> u64 \<Rightarrow> u64 \<Rightarrow> 'v host \<Rightarrow> (ldst_decoded option, 'v) run" where
  "abort_insn a esr ipa h =
     (let iss = esr AND 0x1FFFFFF
      in if drop_bit 24 iss AND 1 \<noteq> 0
         then ok (Some \<lparr>size_log2 = ucast (drop_bit 22 iss AND 3), rt = ucast (drop_bit 16 iss AND 0x1F),
                        wnr = (drop_bit 6 iss AND 1 \<noteq> 0), writeback = False, rn = 0, wb_offset = 0\<rparr>) h
         else seq (HVC a (Get_reg HV_REG_PC) h) (\<lambda>pc h.
           if pc < GUEST_RAM_BASE \<or> pc + 4 > GUEST_RAM_BASE + GUEST_RAM_SIZE
           then ok None (say (Pc_outside pc) h)
           else
             let insn = ram_u32 (ram_of a (vm h)) (unat (pc - GUEST_RAM_BASE))
             in case decode_ldst insn of
                  None \<Rightarrow> ok None (say (Cannot_decode insn pc ipa) h)
                | Some d \<Rightarrow> ok (Some d) h))"

definition mmio_access :: "'v hv_api \<Rightarrow> ldst_decoded \<Rightarrow> u32 \<Rightarrow> 'v host \<Rightarrow> (u64, 'v) run" where
  "mmio_access a d off h =
     (if wnr d
      then seq (read_gpr a (rt d) h) (\<lambda>v h.
        let (bs, u) = pl011_write off (ucast (v AND ucast (mask_for_size (size_log2 d)))) (uart h)
        in ok 0 (h\<lparr>out := out h @ bs, uart := u\<rparr>))
      else write_gpr a (rt d) (ucast (pl011_read (uart h) off AND mask_for_size (size_log2 d))) h)"

definition base_writeback :: "'v hv_api \<Rightarrow> ldst_decoded \<Rightarrow> 'v host \<Rightarrow> (u64, 'v) run" where
  "base_writeback a d h =
     (if writeback d \<and> rn d \<noteq> 31
      then seq (HVC a (Get_reg (HV_REG_X (unat (rn d)))) h) (\<lambda>v h.
        HVC a (Set_reg (HV_REG_X (unat (rn d))) (v + scast (wb_offset d))) h)
      else ok 0 h)"

definition handle_data_abort :: "'v hv_api \<Rightarrow> u64 \<Rightarrow> u64 \<Rightarrow> 'v host \<Rightarrow> (bool, 'v) run" where
  "handle_data_abort a esr ipa h =
     seq (abort_insn a esr ipa h) (\<lambda>od h.
       case od of
         None \<Rightarrow> ok False h
       | Some d \<Rightarrow>
           if \<not> in_pl011_range ipa then ok False h
           else
             seq (mmio_access a d (ucast (ipa - PL011_BASE)) h) (\<lambda>_ h.
             seq (base_writeback a d h) (\<lambda>_ h.
             ok True h)))"


section \<open>The exit loop\<close>

definition dump_state :: "'v hv_api \<Rightarrow> u64 \<Rightarrow> u64 \<Rightarrow> 'v host \<Rightarrow> 'v host" where
  "dump_state a esr ipa h =
     (let (_, pc, h) = call a (Get_reg HV_REG_PC) h;
          (_, lr, h) = call a (Get_reg (HV_REG_X 30)) h;
          (_, cpsr, h) = call a (Get_reg HV_REG_CPSR) h;
          ec = drop_bit 26 esr AND 0x3f
      in if ipa \<ge> GIC_WINDOW_BASE \<and> ipa < GIC_WINDOW_LIMIT
         then say (Stopped_at_gic ipa pc esr ec) h
         else say (Unhandled_exit esr ec ipa pc lr cpsr) h)"

definition log_first :: "u32 \<Rightarrow> 'v host \<Rightarrow> 'v host" where
  "log_first r h =
     (if r < 64 \<and> drop_bit (unat r) (seen h) AND 1 = 0
      then say (First_exit r) (h\<lparr>seen := seen h OR push_bit (unat r) 1\<rparr>)
      else h)"

text \<open>One round of \<open>for (;;)\<close> in \<open>main\<close>: \<open>Inr ()\<close> is \<open>continue\<close>.\<close>

definition run_once :: "'v hv_api \<Rightarrow> 'v host \<Rightarrow> (unit, 'v) run" where
  "run_once a h =
     (let (_, _, h) = call a Set_pending_irq h
      in seq (HVC a Vcpu_run h) (\<lambda>_ h.
        let h = log_first (reason_no a (exit_info a (vm h))) h
        in case exit_info a (vm h) of
             Exception esr ipa \<Rightarrow>
               let ec = drop_bit 26 esr AND 0x3f
               in if ec = 0x24 \<or> ec = 0x25 then
                    seq (handle_data_abort a esr ipa h) (\<lambda>handled h.
                      if handled then
                        seq (HVC a (Get_reg HV_REG_PC) h) (\<lambda>pc h.
                        seq (HVC a (Set_reg HV_REG_PC (pc + 4)) h) (\<lambda>_ h.
                        ok () h))
                      else (Inl (Exit 1), dump_state a esr ipa h))
                  else (Inl (Exit 1), dump_state a esr ipa h)
           | Vtimer_activated \<Rightarrow>
               let h = h\<lparr>vt_count := vt_count h + 1\<rparr>
               in ok () (if vt_count h AND 0xFF = 1 then say (Vtimer_count (vt_count h)) h else h)
           | Canceled \<Rightarrow> ok () h
           | Other_reason r \<Rightarrow> die 1 (Unknown_reason r) h))"

partial_function (option) run_loop :: "'v hv_api \<Rightarrow> 'v host \<Rightarrow> (ending \<times> 'v host) option" where
  "run_loop a h =
     (case run_once a h of
        (Inl e, h') \<Rightarrow> Some (e, h')
      | (Inr _, h') \<Rightarrow> run_loop a h')"


section \<open>The decoder inverts the instruction encodings\<close>

lemma bit_sext9: "n < 32 \<Longrightarrow> bit (sext9 v) n \<longleftrightarrow> bit v (min n 8)"
proof -
  assume n: "n < 32"
  have "bit (sext9 v) n \<longleftrightarrow> bit (push_bit 23 (take_bit 9 v)) (if 9 \<le> n then 31 else 23 + n)"
    using n by (simp add: sext9_def and_mask_take_bit bit_signed_drop_bit_iff)
  also have "\<dots> \<longleftrightarrow> bit v (min n 8)"
    using n by (auto simp: bit_push_bit_iff bit_take_bit_iff min_def not_le less_Suc_eq_le)
  finally show ?thesis .
qed

lemma sext9_eq: "sext9 v = scast (ucast v :: 9 word)"
proof (rule bit_eqI)
  fix n assume "possible_bit TYPE(u32) n"
  then have n: "n < 32" by simp
  have "bit (scast (ucast v :: 9 word) :: u32) n \<longleftrightarrow> bit (ucast v :: 9 word) (min 8 n)"
    using n by (simp add: bit_signed_iff)
  also have "\<dots> \<longleftrightarrow> bit v (min n 8)" by (auto simp add: bit_unsigned_iff min_def)
  finally show "bit (sext9 v) n \<longleftrightarrow> bit (scast (ucast v :: 9 word) :: u32) n"
    using bit_sext9 [OF n] by simp
qed

definition ldst_word :: "2 word \<Rightarrow> nat \<Rightarrow> nat \<Rightarrow> nat \<Rightarrow> 12 word \<Rightarrow> 5 word \<Rightarrow> 5 word \<Rightarrow> u32" where
  "ldst_word sz op29 op24 op imm base t = of_nat (unat t + 2 ^ 5 * (unat base + 2 ^ 5 *
     (unat imm + 2 ^ 12 * (op + 2 ^ 2 * (op24 + 2 ^ 2 * (op29 + 2 ^ 4 * unat sz))))))"

lemma div_chain: "n div (2::nat) ^ (a + b) = n div 2 ^ a div 2 ^ b"
  by (simp add: power_add div_mult2_eq)

lemma peel: "a < m \<Longrightarrow> n = a + m * x \<Longrightarrow> n mod m = a" "a < m \<Longrightarrow> n = a + m * x \<Longrightarrow> n div m = (x::nat)"
  by simp_all

lemma ldst_word_fields:
  fixes sz :: "2 word" and imm :: "12 word" and base t :: "5 word"
  assumes "op29 < 16" "op24 < 4" "op < 4"
  defines "w \<equiv> ldst_word sz op29 op24 op imm base t"
  shows "unat (w AND 0x1F) = unat t" "unat (drop_bit 5 w AND 0x1F) = unat base"
    "unat (drop_bit 10 w) mod 2 ^ 12 = unat imm"
    "unat (drop_bit 22 w AND 0x3) = op" "unat (drop_bit 24 w AND 0x3) = op24"
    "unat (drop_bit 26 w AND 0xF) = op29" "unat (drop_bit 30 w AND 0x3) = unat sz"
proof -
  have b: "unat t < 2 ^ 5" "unat base < 2 ^ 5" "unat imm < 2 ^ 12" "unat sz < 2 ^ 2"
    using unsigned_less [of t] unsigned_less [of base] unsigned_less [of imm] unsigned_less [of sz]
    by simp_all
  have o: "op29 < 2 ^ 4" "op24 < 2 ^ 2" "op < 2 ^ 2" using assms by simp_all
  define x26 x24 x22 x10 x5 where "x26 = op29 + 2 ^ 4 * unat sz" and "x24 = op24 + 2 ^ 2 * x26"
    and "x22 = op + 2 ^ 2 * x24" and "x10 = unat imm + 2 ^ 12 * x22" and "x5 = unat base + 2 ^ 5 * x10"
  have "unat w = unat t + 2 ^ 5 * x5"
    unfolding w_def ldst_word_def x26_def x24_def x22_def x10_def x5_def
    using b o by (subst unat_of_nat) simp
  note d5 = peel [OF b(1) this]
  note p = peel [OF b(2) x5_def] peel [OF b(3) x10_def] peel [OF o(3) x22_def]
    peel [OF o(2) x24_def] peel [OF o(1) x26_def]
  have d: "unat w div 2 ^ 10 = x10" "unat w div 2 ^ 22 = x22" "unat w div 2 ^ 24 = x24"
    "unat w div 2 ^ 26 = x26" "unat w div 2 ^ 30 = unat sz"
    using div_chain [of "unat w" 5 5] div_chain [of "unat w" 10 12] div_chain [of "unat w" 22 2]
      div_chain [of "unat w" 24 2] div_chain [of "unat w" 26 4]
    by (simp_all only: d5 p numeral_plus_numeral add_num_simps)
  show "unat (w AND 0x1F) = unat t" "unat (drop_bit 5 w AND 0x1F) = unat base"
    "unat (drop_bit 10 w) mod 2 ^ 12 = unat imm"
    "unat (drop_bit 22 w AND 0x3) = op" "unat (drop_bit 24 w AND 0x3) = op24"
    "unat (drop_bit 26 w AND 0xF) = op29" "unat (drop_bit 30 w AND 0x3) = unat sz"
    using b(4) by (simp_all only: and_mask_take_bit unat_take_bit unat_drop_bit d5 d p mod_less)
qed

lemma eq_of_unat: "unat x = n \<Longrightarrow> x = of_nat n"
  by auto

lemma ldst_word_idx:
  fixes sz :: "2 word" and imm :: "12 word" and base t :: "5 word"
  assumes "op29 < 16" "op24 < 4" "op < 4"
  defines "w \<equiv> ldst_word sz op29 op24 op imm base t"
  shows "unat (drop_bit 21 w AND 1) = unat imm div 2 ^ 11" "unat (drop_bit 10 w AND 0x3) = unat imm mod 2 ^ 2"
    "unat (drop_bit 12 w AND 0x1FF) = unat imm div 2 ^ 2 mod 2 ^ 9"
proof -
  define v where "v = unat w div 2 ^ 10"
  have v: "v mod 2 ^ 12 = unat imm"
    using ldst_word_fields(3) [OF assms(1-3), of sz imm base t] by (simp add: v_def w_def unat_drop_bit)
  have "unat w div 2 ^ 21 mod 2 ^ 1 = v div 2 ^ 11 mod 2 ^ 1" "unat w div 2 ^ 12 mod 2 ^ 9 = v div 2 ^ 2 mod 2 ^ 9"
    using div_chain [of "unat w" 10 11] div_chain [of "unat w" 10 2] by (simp_all add: v_def)
  moreover have "v div 2 ^ 11 mod 2 ^ 1 = unat imm div 2 ^ 11" "v mod 2 ^ 2 = unat imm mod 2 ^ 2"
    "v div 2 ^ 2 mod 2 ^ 9 = unat imm div 2 ^ 2 mod 2 ^ 9"
    unfolding v [symmetric]
    using div_exp_mod_exp_eq [of v 11 1] div_exp_mod_exp_eq [of v 2 9]
      div_exp_mod_exp_eq [of "v mod 2 ^ 12" 2 9]
    by (simp_all add: mod_mod_cancel)
  moreover have one: "drop_bit 21 w AND 1 = take_bit 1 (drop_bit 21 w)"
    using and_mask_take_bit(1) [of "drop_bit 21 w"] by simp
  ultimately show "unat (drop_bit 21 w AND 1) = unat imm div 2 ^ 11"
    "unat (drop_bit 10 w AND 0x3) = unat imm mod 2 ^ 2"
    "unat (drop_bit 12 w AND 0x1FF) = unat imm div 2 ^ 2 mod 2 ^ 9"
    by (simp_all only: one and_mask_take_bit unat_take_bit unat_drop_bit v_def)
qed


text \<open>
  The encodings of the architecture manual for integer loads and stores with an immediate
  offset: unsigned scaled offset, and the unscaled, post-indexed and pre-indexed forms, which
  the two bits \<open>idx\<close> select.
\<close>

definition enc_unsigned :: "2 word \<Rightarrow> bool \<Rightarrow> 12 word \<Rightarrow> 5 word \<Rightarrow> 5 word \<Rightarrow> u32" where
  "enc_unsigned sz ld imm base t = ldst_word sz 14 1 (of_bool ld) imm base t"

definition enc_imm9 :: "2 word \<Rightarrow> bool \<Rightarrow> 9 word \<Rightarrow> 2 word \<Rightarrow> 5 word \<Rightarrow> 5 word \<Rightarrow> u32" where
  "enc_imm9 sz ld imm idx base t = ldst_word sz 14 0 (of_bool ld) (of_nat (unat idx + 4 * unat imm)) base t"

lemma decode_head:
  assumes "op24 < 4"
  defines "w \<equiv> \<lambda>sz ld imm base t. ldst_word sz 14 op24 (of_bool ld) imm base t"
  shows "drop_bit 26 (w sz ld imm base t) AND 0xF = 0xE"
    "drop_bit 24 (w sz ld imm base t) AND 0x3 = of_nat op24"
    "drop_bit 22 (w sz ld imm base t) AND 0x3 = of_bool ld"
    "drop_bit 30 (w sz ld imm base t) AND 0x3 = ucast sz"
    "w sz ld imm base t AND 0x1F = ucast t" "drop_bit 5 (w sz ld imm base t) AND 0x1F = ucast base"
proof -
  have o: "(14::nat) < 16" "of_bool ld < (4::nat)" by simp_all
  note f = ldst_word_fields(1,2,4-7) [OF o(1) assms(1) o(2), THEN eq_of_unat, of sz imm base t]
  show "drop_bit 26 (w sz ld imm base t) AND 0xF = 0xE"
    "drop_bit 24 (w sz ld imm base t) AND 0x3 = of_nat op24"
    "drop_bit 22 (w sz ld imm base t) AND 0x3 = of_bool ld"
    "drop_bit 30 (w sz ld imm base t) AND 0x3 = ucast sz"
    "w sz ld imm base t AND 0x1F = ucast t" "drop_bit 5 (w sz ld imm base t) AND 0x1F = ucast base"
    using f by (simp_all add: w_def)
qed

lemma decode_unsigned:
  "decode_ldst (enc_unsigned sz ld imm base t) = Some \<lparr>size_log2 = ucast sz, rt = ucast t, wnr = (\<not> ld),
     writeback = False, rn = ucast base, wb_offset = 0\<rparr>"
  by (simp add: decode_ldst_def enc_unsigned_def decode_head Let_def)

lemma decode_imm9:
  "decode_ldst (enc_imm9 sz ld imm idx base t) =
     (if idx = 2 then None
      else Some \<lparr>size_log2 = ucast sz, rt = ucast t, wnr = (\<not> ld), writeback = (idx \<noteq> 0), rn = ucast base,
             wb_offset = (if idx = 0 then 0 else scast imm)\<rparr>)"
proof -
  have b: "unat idx < 4" "unat imm < 512"
    using unsigned_less [of idx, where 'a = nat] unsigned_less [of imm, where 'a = nat] by simp_all
  then have i: "unat (of_nat (unat idx + 4 * unat imm) :: 12 word) = unat idx + 4 * unat imm"
    by (subst unat_of_nat) simp
  let ?w = "ldst_word sz 14 0 (of_bool ld) (of_nat (unat idx + 4 * unat imm)) base t"
  have o: "(14::nat) < 16" "(0::nat) < 4" "of_bool ld < (4::nat)" by simp_all
  note f = ldst_word_idx [OF o, THEN eq_of_unat, of sz "of_nat (unat idx + 4 * unat imm)" base t, unfolded i]
  have "drop_bit 21 ?w AND 1 = 0" "drop_bit 10 ?w AND 0x3 = ucast idx" "drop_bit 12 ?w AND 0x1FF = ucast imm"
    using f b by simp_all
  moreover have "ucast (ucast imm :: u32) = imm"
    by (rule bit_eqI) (auto simp: bit_unsigned_iff)
  ultimately have d: "decode_ldst ?w =
     (if idx = 2 then None
      else Some \<lparr>size_log2 = ucast sz, rt = ucast t, wnr = (\<not> ld), writeback = (idx \<noteq> 0), rn = ucast base,
             wb_offset = (if idx = 0 then 0 else scast imm)\<rparr>)"
    if "idx = 0 \<or> idx = 1 \<or> idx = 2 \<or> idx = 3"
    using that decode_head [of 0 sz ld _ base t]
    by (elim disjE) (simp_all add: decode_ldst_def Let_def sext9_eq)
  have "unat idx = 0 \<or> unat idx = 1 \<or> unat idx = 2 \<or> unat idx = 3" using b(1) by linarith
  then have "idx = 0 \<or> idx = 1 \<or> idx = 2 \<or> idx = 3"
    by (elim disjE) (drule eq_of_unat, simp)+
  then show ?thesis using d by (simp add: enc_imm9_def)
qed


section \<open>The emulated device is the hypervisor's console\<close>

text \<open>
  The hypervisor's trace of device accesses, replayed on the emulated PL011: the bytes on the
  launcher's standard output and the registers of the device.
\<close>

fun replay :: "event list \<Rightarrow> pl011 \<Rightarrow> u8 list \<times> pl011" where
  "replay [] u = ([], u)"
| "replay (Store w ad v # es) u =
     (if in_pl011_range ad
      then let (bs, u) = pl011_write (ucast (ad - PL011_BASE)) v u;
               (bs', u) = replay es u
           in (bs @ bs', u)
      else replay es u)"
| "replay (_ # es) u = replay es u"

lemma pl011_offset:
  assumes "in_pl011_range a"
  shows "ucast (a - PL011_BASE) = (0 :: u32) \<longleftrightarrow> a = PL011_BASE"
proof
  assume z: "ucast (a - PL011_BASE) = (0 :: u32)"
  have "unat (a - PL011_BASE) < 0x1000"
    using assms unfolding in_pl011_range_def hyp_consts by unat_arith
  then have "unat (ucast (a - PL011_BASE) :: u32) = unat (a - PL011_BASE)"
    by (simp add: unsigned_ucast_eq take_bit_eq_mod)
  with z show "a = PL011_BASE" by (simp add: unat_eq_zero)
qed simp

lemma ucast_low_byte: "ucast (v AND 0xFF :: u32) = (ucast v :: u8)"
  by (rule bit_eqI) (auto simp: bit_unsigned_iff and_mask_take_bit bit_take_bit_iff)

lemma pl011_write_bytes:
  "fst (pl011_write off v u) = (if off = 0 then [ucast v] else [])"
  by (simp add: pl011_write_def PL011_UARTDR_def ucast_low_byte)

lemma UARTDR_PL011: "UARTDR = PL011_BASE" "in_pl011_range PL011_BASE"
  by (simp_all add: hyp_consts in_pl011_range_def)

lemma replay_console: "fst (replay tr u) = console tr"
proof (induction tr arbitrary: u)
  case (Cons e es)
  then show ?case
    using UARTDR_PL011
    by (cases e) (auto simp: split_beta Let_def pl011_write_bytes pl011_offset)
qed simp

text \<open>The platform the hypervisor sees under the launcher: a load in the PL011 page reads the emulator.\<close>

definition hvf_platform :: "platform \<Rightarrow> platform" where
  "hvf_platform p = p\<lparr>dev_load := (\<lambda>tr w ad.
     if in_pl011_range ad
     then pl011_read (snd (replay tr pl011_reset)) (ucast (ad - PL011_BASE))
     else dev_load p tr w ad)\<rparr>"

lemma hvf_platform_fr: "dev_load (hvf_platform p) tr w UARTFR = 0"
  by (simp add: hvf_platform_def in_pl011_range_def hyp_consts pl011_read_def)

interpretation hvf_console: pl011_console "hvf_platform p" for p
  by unfold_locales (simp add: txff_def hvf_platform_fr)


section \<open>A handled abort is the instruction\<close>

lemma seq_simps [simp]: "seq (ok x h) f = f x h" "seq (Inl e, h) f = (Inl e, h)" "seq (Inr x, h) f = f x h"
  by (simp_all add: seq_def ok_def)

lemma say_fields [simp]:
  "vm (say m h) = vm h" "uart (say m h) = uart h" "out (say m h) = out h" "seen (say m h) = seen h"
  "vt_count (say m h) = vt_count h"
  by (simp_all add: say_def)

text \<open>
  The framework's documented register interface: a read returns the register and changes
  nothing, a write changes that register, and neither touches RAM.
\<close>

definition reg_file :: "'v hv_api \<Rightarrow> ('v \<Rightarrow> hv_reg \<Rightarrow> u64) \<Rightarrow> bool" where
  "reg_file a regs \<longleftrightarrow>
     (\<forall>v r. hv a v (Get_reg r) = (None, regs v r, v)) \<and>
     (\<forall>v r x. fst (hv a v (Set_reg r x)) = None
        \<and> regs (snd (snd (hv a v (Set_reg r x)))) = (regs v)(r := x)
        \<and> ram_of a (snd (snd (hv a v (Set_reg r x)))) = ram_of a v)"

text \<open>
  What the instruction does to the general registers and the device: \<open>regs\<close> are the registers,
  register 31 is the zero register as a transfer register and left alone as a base.
\<close>

definition ldst_regs :: "ldst_decoded \<Rightarrow> u32 \<Rightarrow> pl011 \<Rightarrow> (hv_reg \<Rightarrow> u64) \<Rightarrow> hv_reg \<Rightarrow> u64" where
  "ldst_regs d off u rg =
     (let rg1 = (if wnr d \<or> rt d = 31 then rg
                 else rg(HV_REG_X (unat (rt d)) := ucast (pl011_read u off AND mask_for_size (size_log2 d))))
      in if writeback d \<and> rn d \<noteq> 31
         then rg1(HV_REG_X (unat (rn d)) := rg1 (HV_REG_X (unat (rn d))) + scast (wb_offset d))
         else rg1)"

definition ldst_device :: "ldst_decoded \<Rightarrow> u32 \<Rightarrow> (hv_reg \<Rightarrow> u64) \<Rightarrow> pl011 \<Rightarrow> u8 list \<times> pl011" where
  "ldst_device d off rg u =
     (if wnr d
      then pl011_write off (ucast (if rt d = 31 then 0 else rg (HV_REG_X (unat (rt d)))) AND mask_for_size (size_log2 d)) u
      else ([], u))"

lemma HVC_get [simp]: "reg_file a rf \<Longrightarrow> HVC a (Get_reg r) h = ok (rf (vm h) r) h"
  by (simp add: HVC_def call_def reg_file_def Let_def)

lemma HVC_set:
  assumes "reg_file a rf"
  obtains v x where "HVC a (Set_reg r y) h = ok x (h\<lparr>vm := v\<rparr>)" and "rf v = (rf (vm h))(r := y)"
    and "ram_of a v = ram_of a (vm h)"
proof -
  obtain e x v where c: "hv a (vm h) (Set_reg r y) = (e, x, v)" using prod_cases3 by blast
  have "fst (hv a (vm h) (Set_reg r y)) = None \<and> rf (snd (snd (hv a (vm h) (Set_reg r y)))) = (rf (vm h))(r := y)
      \<and> ram_of a (snd (snd (hv a (vm h) (Set_reg r y)))) = ram_of a (vm h)"
    using assms unfolding reg_file_def by blast
  then show ?thesis using that [of x v] by (simp add: c HVC_def call_def)
qed

lemma mask_ucast: "ucast (v AND ucast (m :: u32) :: u64) = ucast v AND m"
  by (rule bit_eqI) (auto simp: bit_unsigned_iff bit_and_iff)

lemma mmio_access_effect:
  assumes rf: "reg_file a rf"
  obtains v x where "mmio_access a d off h = ok x (h\<lparr>out := out h @ fst (ldst_device d off (rf (vm h)) (uart h)),
      uart := snd (ldst_device d off (rf (vm h)) (uart h)), vm := v\<rparr>)"
    and "rf v = ldst_regs (d\<lparr>writeback := False\<rparr>) off (uart h) (rf (vm h))"
    and "ram_of a v = ram_of a (vm h)"
proof (cases "wnr d")
  case True
  then have "mmio_access a d off h = ok 0 (h\<lparr>out := out h @ fst (ldst_device d off (rf (vm h)) (uart h)),
      uart := snd (ldst_device d off (rf (vm h)) (uart h))\<rparr>)"
    using rf by (simp add: mmio_access_def read_gpr_def ldst_device_def split_beta Let_def mask_ucast)
  moreover have "rf (vm h) = ldst_regs (d\<lparr>writeback := False\<rparr>) off (uart h) (rf (vm h))"
    using True by (simp add: ldst_regs_def)
  ultimately show ?thesis using that [of 0 "vm h"] by simp
next
  case load: False
  let ?y = "ucast (pl011_read (uart h) off AND mask_for_size (size_log2 d))"
  show ?thesis
  proof (cases "rt d = 31")
    case True
    then show ?thesis using load that [of 0 "vm h"]
      by (simp add: mmio_access_def write_gpr_def ldst_device_def ldst_regs_def)
  next
    case False
    obtain v x where "HVC a (Set_reg (HV_REG_X (unat (rt d))) ?y) h = ok x (h\<lparr>vm := v\<rparr>)"
      and "rf v = (rf (vm h))(HV_REG_X (unat (rt d)) := ?y)" and "ram_of a v = ram_of a (vm h)"
      using HVC_set [OF rf] by metis
    then show ?thesis using load False that [of x v]
      by (simp add: mmio_access_def write_gpr_def ldst_device_def ldst_regs_def)
  qed
qed

lemma base_writeback_effect:
  assumes rf: "reg_file a rf"
  obtains v x where "base_writeback a d h = ok x (h\<lparr>vm := v\<rparr>)"
    and "rf v = (if writeback d \<and> rn d \<noteq> 31
      then (rf (vm h))(HV_REG_X (unat (rn d)) := rf (vm h) (HV_REG_X (unat (rn d))) + scast (wb_offset d))
      else rf (vm h))"
    and "ram_of a v = ram_of a (vm h)"
proof (cases "writeback d \<and> rn d \<noteq> 31")
  case True
  obtain v x where "HVC a (Set_reg (HV_REG_X (unat (rn d))) (rf (vm h) (HV_REG_X (unat (rn d))) + scast (wb_offset d))) h
        = ok x (h\<lparr>vm := v\<rparr>)"
      and "rf v = (rf (vm h))(HV_REG_X (unat (rn d)) := rf (vm h) (HV_REG_X (unat (rn d))) + scast (wb_offset d))"
      and "ram_of a v = ram_of a (vm h)"
    using HVC_set [OF rf] by metis
  then show ?thesis using True rf that [of x v] by (simp add: base_writeback_def)
next
  case False
  show ?thesis by (rule that [of 0 "vm h"]) (simp_all add: base_writeback_def if_not_P [OF False])
qed

lemma ldst_regs_split:
  "ldst_regs d off u rg = (let rg1 = ldst_regs (d\<lparr>writeback := False\<rparr>) off u rg in
     if writeback d \<and> rn d \<noteq> 31
     then rg1(HV_REG_X (unat (rn d)) := rg1 (HV_REG_X (unat (rn d))) + scast (wb_offset d)) else rg1)"
  by (simp add: ldst_regs_def Let_def)

lemma handle_data_abort_effect:
  assumes rf: "reg_file a rf" and d: "abort_insn a esr ipa h = ok (Some d) h" and r: "in_pl011_range ipa"
  defines "off \<equiv> ucast (ipa - PL011_BASE)"
  obtains v where "handle_data_abort a esr ipa h = ok True (h\<lparr>out := out h @ fst (ldst_device d off (rf (vm h)) (uart h)),
      uart := snd (ldst_device d off (rf (vm h)) (uart h)), vm := v\<rparr>)"
    and "rf v = ldst_regs d off (uart h) (rf (vm h))" and "ram_of a v = ram_of a (vm h)"
proof -
  obtain v x where m: "mmio_access a d off h = ok x (h\<lparr>out := out h @ fst (ldst_device d off (rf (vm h)) (uart h)),
      uart := snd (ldst_device d off (rf (vm h)) (uart h)), vm := v\<rparr>)"
    and v: "rf v = ldst_regs (d\<lparr>writeback := False\<rparr>) off (uart h) (rf (vm h))"
      "ram_of a v = ram_of a (vm h)"
    by (rule mmio_access_effect [OF rf])
  define h1 where "h1 = h\<lparr>out := out h @ fst (ldst_device d off (rf (vm h)) (uart h)),
      uart := snd (ldst_device d off (rf (vm h)) (uart h)), vm := v\<rparr>"
  obtain v' y where b: "base_writeback a d h1 = ok y (h1\<lparr>vm := v'\<rparr>)"
    and "rf v' = (if writeback d \<and> rn d \<noteq> 31
      then (rf (vm h1))(HV_REG_X (unat (rn d)) := rf (vm h1) (HV_REG_X (unat (rn d))) + scast (wb_offset d))
      else rf (vm h1))" "ram_of a v' = ram_of a (vm h1)"
    by (rule base_writeback_effect [OF rf])
  then have v': "rf v' = (if writeback d \<and> rn d \<noteq> 31
      then (rf v)(HV_REG_X (unat (rn d)) := rf v (HV_REG_X (unat (rn d))) + scast (wb_offset d))
      else rf v)" "ram_of a v' = ram_of a v"
    by (simp_all add: h1_def)
  have "handle_data_abort a esr ipa h = ok True (h1\<lparr>vm := v'\<rparr>)"
    using r m b by (simp add: handle_data_abort_def d flip: off_def h1_def)
  moreover have "rf v' = ldst_regs d off (uart h) (rf (vm h))"
    by (simp only: ldst_regs_split [of d] v' v Let_def)
  ultimately show ?thesis using that [of v'] v v' by (simp add: h1_def)
qed


text \<open>An instruction fetched from RAM describes the access when the syndrome does not.\<close>

lemma abort_insn_fetch:
  assumes "reg_file a rf" and "drop_bit 24 (esr AND 0x1FFFFFF) AND 1 = 0"
    and "GUEST_RAM_BASE \<le> rf (vm h) HV_REG_PC"
    and "rf (vm h) HV_REG_PC + 4 \<le> GUEST_RAM_BASE + GUEST_RAM_SIZE"
    and "decode_ldst (ram_u32 (ram_of a (vm h)) (unat (rf (vm h) HV_REG_PC - GUEST_RAM_BASE))) = Some d"
  shows "abort_insn a esr ipa h = ok (Some d) h"
  using assms by (simp add: abort_insn_def Let_def not_less [symmetric])

section \<open>The loop\<close>

lemma die_fst [simp]: "fst (die n m h) = Inl (Exit n)"
  by (simp add: die_def)

fun rounds :: "nat \<Rightarrow> 'v hv_api \<Rightarrow> 'v host \<Rightarrow> 'v host option" where
  "rounds 0 a h = Some h"
| "rounds (Suc n) a h = (case run_once a h of (Inl e, h') \<Rightarrow> None | (Inr _, h') \<Rightarrow> rounds n a h')"

lemma run_loop_stops:
  assumes "rounds n a h = Some h1" and "run_once a h1 = (Inl e, h2)"
  shows "run_loop a h = Some (e, h2)"
  using assms
proof (induction n arbitrary: h)
  case 0
  then show ?case by (subst run_loop.simps) simp
next
  case (Suc n)
  then show ?case by (subst run_loop.simps) (auto split: prod.splits sum.splits)
qed

lemma run_loop_rounds:
  assumes "run_loop a h = Some (e, h2)"
  shows "\<exists>n h1. rounds n a h = Some h1 \<and> run_once a h1 = (Inl e, h2)"
proof -
  have "\<exists>n h1. rounds n a h = Some h1 \<and> run_once a h1 = (Inl (fst r), snd r)"
    if "run_loop a h = Some r" for r
  proof (rule run_loop.raw_induct [OF _ that])
    fix f :: "'a hv_api \<Rightarrow> 'a host \<Rightarrow> (ending \<times> 'a host) option" and a h r
    assume IH: "\<And>a h r. f a h = Some r \<Longrightarrow>
        \<exists>n h1. rounds n a h = Some h1 \<and> run_once a h1 = (Inl (fst r), snd r)"
      and eq: "(case run_once a h of (Inl e, h') \<Rightarrow> Some (e, h') | (Inr x, h') \<Rightarrow> f a h') = Some r"
    show "\<exists>n h1. rounds n a h = Some h1 \<and> run_once a h1 = (Inl (fst r), snd r)"
    proof (cases "fst (run_once a h)")
      case (Inl e)
      then have "rounds 0 a h = Some h \<and> run_once a h = (Inl (fst r), snd r)"
        using eq by (cases "run_once a h") auto
      then show ?thesis by blast
    next
      case (Inr x)
      then have "f a (snd (run_once a h)) = Some r" using eq by (cases "run_once a h") auto
      then obtain n h1 where "rounds n a (snd (run_once a h)) = Some h1"
          "run_once a h1 = (Inl (fst r), snd r)" using IH by blast
      then have "rounds (Suc n) a h = Some h1" using Inr by (cases "run_once a h") auto
      then show ?thesis using \<open>run_once a h1 = (Inl (fst r), snd r)\<close> by blast
    qed
  qed
  then show ?thesis using assms by fastforce
qed

text \<open>Nothing but exit status 1 ends the loop.\<close>

definition exits1 :: "('a, 'v) run \<Rightarrow> bool" where
  "exits1 r \<longleftrightarrow> (\<forall>e. fst r = Inl e \<longrightarrow> e = Exit 1)"

lemma exits1_intros [intro!, simp]:
  "exits1 (ok x h)" "exits1 (die 1 m h)" "exits1 (Inl (Exit 1), h)" "exits1 (HVC a c h)"
  by (auto simp: exits1_def ok_def HVC_def Let_def split: prod.splits option.splits)

lemma exits1_seq [intro!]: "exits1 r \<Longrightarrow> (\<And>x h. exits1 (f x h)) \<Longrightarrow> exits1 (seq r f)"
  by (cases r) (auto simp: exits1_def seq_def split: sum.splits)

lemma exits1_abort: "exits1 (handle_data_abort a esr ipa h)"
  by (auto simp: handle_data_abort_def abort_insn_def mmio_access_def base_writeback_def read_gpr_def
      write_gpr_def Let_def split: option.splits prod.splits)

lemma exits1_run_once: "exits1 (run_once a h)"
  by (auto simp: run_once_def Let_def exits1_abort split: exit_reason.splits prod.splits)

lemma log_first_fields [simp]:
  "vm (log_first r h) = vm h" "uart (log_first r h) = uart h" "out (log_first r h) = out h"
  by (simp_all add: log_first_def)

lemma run_once_handled:
  assumes rf: "reg_file a rf"
    and irq: "hv a (vm h) Set_pending_irq = (st, y, v1)" and run: "hv a v1 Vcpu_run = (None, y', v2)"
    and ex: "exit_info a v2 = Exception esr ipa" and ec: "drop_bit 26 esr AND 0x3f \<in> {0x24, 0x25}"
    and d: "\<And>h'. vm h' = v2 \<Longrightarrow> abort_insn a esr ipa h' = ok (Some d) h'" and r: "in_pl011_range ipa"
  defines "off \<equiv> ucast (ipa - PL011_BASE)"
  shows "\<exists>h'. run_once a h = ok () h' \<and> out h' = out h @ fst (ldst_device d off (rf v2) (uart h))
    \<and> uart h' = snd (ldst_device d off (rf v2) (uart h)) \<and> ram_of a (vm h') = ram_of a v2
    \<and> rf (vm h') = (ldst_regs d off (uart h) (rf v2))(HV_REG_PC := rf v2 HV_REG_PC + 4)"
proof -
  define h1 where "h1 = log_first (reason_no a (Exception esr ipa)) (h\<lparr>vm := v2\<rparr>)"
  have h1: "vm h1 = v2" "uart h1 = uart h" "out h1 = out h" by (simp_all add: h1_def)
  obtain v3 where ab: "handle_data_abort a esr ipa h1 = ok True
      (h1\<lparr>out := out h1 @ fst (ldst_device d off (rf (vm h1)) (uart h1)),
      uart := snd (ldst_device d off (rf (vm h1)) (uart h1)), vm := v3\<rparr>)"
    and v3: "rf v3 = ldst_regs d off (uart h1) (rf (vm h1))" "ram_of a v3 = ram_of a (vm h1)"
    unfolding off_def using d [OF h1(1)] r by (rule handle_data_abort_effect [OF rf])
  define h2 where "h2 = h1\<lparr>out := out h1 @ fst (ldst_device d off (rf (vm h1)) (uart h1)),
      uart := snd (ldst_device d off (rf (vm h1)) (uart h1)), vm := v3\<rparr>"
  obtain v4 x where st: "HVC a (Set_reg HV_REG_PC (rf v3 HV_REG_PC + 4)) h2 = ok x (h2\<lparr>vm := v4\<rparr>)"
    and v4: "rf v4 = (rf (vm h2))(HV_REG_PC := rf v3 HV_REG_PC + 4)" "ram_of a v4 = ram_of a (vm h2)"
    by (rule HVC_set [OF rf])
  have pc: "rf v3 HV_REG_PC = rf v2 HV_REG_PC" by (simp add: v3 h1 ldst_regs_def Let_def)
  have "run_once a h = ok () (h2\<lparr>vm := v4\<rparr>)"
    using ec ab st rf
    by (auto simp: run_once_def call_def irq run ex HVC_def [of a Vcpu_run] h2_def [symmetric] simp flip: h1_def)
       (simp_all add: h2_def)
  then show ?thesis using v4 v3 h1 pc by (auto simp: h2_def)
qed

section \<open>Properties\<close>

text \<open>
  C30. The decoder inverts the architecture's encodings: for every size, direction, base and
  transfer register, and every immediate, it recovers the operands of the four
  immediate-offset forms of an integer load or store, with the nine-bit offset sign-extended,
  and rejects the reserved index form.
\<close>

theorem decode_inverts_encoding:
  "decode_ldst (enc_unsigned sz ld imm base t) = Some \<lparr>size_log2 = ucast sz, rt = ucast t, wnr = (\<not> ld),
     writeback = False, rn = ucast base, wb_offset = 0\<rparr>
   \<and> decode_ldst (enc_imm9 sz ld off idx base t) =
     (if idx = 2 then None
      else Some \<lparr>size_log2 = ucast sz, rt = ucast t, wnr = (\<not> ld), writeback = (idx \<noteq> 0), rn = ucast base,
             wb_offset = (if idx = 0 then 0 else scast off)\<rparr>)"
  using decode_unsigned decode_imm9 by blast

text \<open>
  C32. What the hypervisor prints appears on the launcher's standard output: under the emulated
  PL011 printing always returns, and the bytes the emulator writes for the whole trace are the
  hypervisor's console text, message by message.
\<close>

theorem launcher_shows_console:
  "\<exists>es. kprint (hvf_platform p) is s = Some (s\<lparr>io := io s @ es\<rparr>)
     \<and> fst (replay (io s @ es) pl011_reset) = fst (replay (io s) pl011_reset) @ concat (map item_text is)"
proof -
  obtain es where "kprint (hvf_platform p) is s = Some (s\<lparr>io := io s @ es\<rparr>)"
    "console es = concat (map item_text is)"
    using hvf_console.kprint_returns by metis
  then show ?thesis by (intro exI [of _ es]) (simp add: replay_console)
qed


text \<open>A concrete register file and memory behind the framework's interface.\<close>

record simple_vm =
  sv_regs :: "hv_reg \<Rightarrow> u64"
  sv_ram :: "nat \<Rightarrow> u8"
  sv_exit :: exit_reason

definition simple_hv :: "simple_vm \<Rightarrow> hv_op \<Rightarrow> u32 option \<times> u64 \<times> simple_vm" where
  "simple_hv v c = (case c of
     Get_reg r \<Rightarrow> (None, sv_regs v r, v)
   | Set_reg r x \<Rightarrow> (None, 0, v\<lparr>sv_regs := (sv_regs v)(r := x)\<rparr>)
   | Config_get_el2_supported \<Rightarrow> (None, 1, v)
   | Gic_get_redistributor_base \<Rightarrow> (None, GICR_BASE_IPA, v)
   | _ \<Rightarrow> (None, 0, v))"

definition simple_api :: "simple_vm hv_api" where
  "simple_api = \<lparr>hv = simple_hv, exit_info = sv_exit, reason_no = (\<lambda>_. 1), ram_of = sv_ram,
     ram_put = (\<lambda>v m. v\<lparr>sv_ram := m\<rparr>)\<rparr>"

lemma simple_reg_file: "reg_file simple_api sv_regs"
  by (simp add: reg_file_def simple_api_def simple_hv_def)

text \<open>\<open>str w1, [x0]\<close> with the letter \<open>A\<close> in \<open>x1\<close>, faulting on the data register.\<close>

definition store_vm :: simple_vm where
  "store_vm = \<lparr>sv_regs = (\<lambda>_. 0)(HV_REG_PC := 0x40080000, HV_REG_X 0 := 0x09000000, HV_REG_X 1 := 0x41),
     sv_ram = (\<lambda>i. if i = 0x80000 then 0x01 else if i = 0x80003 then 0xB9 else 0),
     sv_exit = Exception 0x96000046 0x09000000\<rparr>"


lemma run_loop_iff:
  "run_loop a h = Some (e, h2) \<longleftrightarrow>
     e = Exit 1 \<and> (\<exists>n h1. rounds n a h = Some h1 \<and> run_once a h1 = (Inl e, h2))"
proof
  assume "run_loop a h = Some (e, h2)"
  then obtain n h1 where r: "rounds n a h = Some h1" "run_once a h1 = (Inl e, h2)"
    using run_loop_rounds by blast
  moreover have "e = Exit 1" using exits1_run_once [of a h1] r(2) by (simp add: exits1_def)
  ultimately show "e = Exit 1 \<and> (\<exists>n h1. rounds n a h = Some h1 \<and> run_once a h1 = (Inl e, h2))" by blast
qed (use run_loop_stops in blast)

end
