(* ===== verification/GicV3.thy ===== *)
theory GicV3
  imports Boot Hvf
begin

text \<open>
  The GICv3 build for the macOS launcher (\<open>src/src/gic_v3.c\<close>, \<open>src/src/vgic_v3.c\<close>). With
  \<open>GIC_VERSION == 3\<close> these files replace \<open>gic.c\<close> and \<open>vgic.c\<close>, so their functions carry the
  suffix \<open>v3\<close> here. \<open>kmain\<close> then never gets past \<open>gic_init_el2\<close>: it enters a small EL1 guest
  with one virtual interrupt pending in a list register.

  The counter \<open>gic_v3_cnthp_count\<close> is passed next to the hypervisor's state. The trap handlers
  of \<open>exceptions.c\<close> are repeated as this build compiles them, against the empty \<open>vgic_v3.c\<close>.
\<close>


section \<open>Registers\<close>

definition GICD_BASE :: u64 where [hyp_consts]: "GICD_BASE = 0x08000000"
definition GICR_BASE :: u64 where [hyp_consts]: "GICR_BASE = 0x080A0000"
definition GICR_SGI_OFFSET :: u64 where [hyp_consts]: "GICR_SGI_OFFSET = 0x00010000"
definition GICR_WAKER :: u64 where [hyp_consts]: "GICR_WAKER = 0x0014"
definition GICR_WAKER_PROCESSOR_SLEEP :: u32 where [hyp_consts]: "GICR_WAKER_PROCESSOR_SLEEP = push_bit 1 1"
definition GICR_WAKER_CHILDREN_ASLEEP :: u32 where [hyp_consts]: "GICR_WAKER_CHILDREN_ASLEEP = push_bit 2 1"
definition GICR_IGROUPR0 :: u64 where [hyp_consts]: "GICR_IGROUPR0 = 0x0080"
definition GICR_ISENABLER0 :: u64 where [hyp_consts]: "GICR_ISENABLER0 = 0x0100"
definition GICR_IPRIORITYR :: u64 where [hyp_consts]: "GICR_IPRIORITYR = 0x0400"
definition IRQ_HTIMER_PPI :: u32 where [hyp_consts]: "IRQ_HTIMER_PPI = 26"


section \<open>Accessors\<close>

text \<open>The inline functions of the file; a barrier has no effect of its own in the model.\<close>

definition mmio_r_v3 :: "platform \<Rightarrow> u64 \<Rightarrow> hyp \<Rightarrow> u32 \<times> hyp" where
  [simp]: "mmio_r_v3 p a s = load p W32 a s"

definition mmio_w_v3 :: "u64 \<Rightarrow> u32 \<Rightarrow> hyp \<Rightarrow> hyp" where
  [simp]: "mmio_w_v3 a v s = store W32 a v s"

definition mmio_wb :: "u64 \<Rightarrow> u8 \<Rightarrow> hyp \<Rightarrow> hyp" where
  [simp]: "mmio_wb a v s = store W8 a (ucast v) s"

definition write_icc_sre_el2 :: "u64 \<Rightarrow> hyp \<Rightarrow> hyp" where
  [simp]: "write_icc_sre_el2 v s = msr ICC_SRE_EL2 v s"

definition write_icc_pmr_el1 :: "u64 \<Rightarrow> hyp \<Rightarrow> hyp" where
  [simp]: "write_icc_pmr_el1 v s = msr ICC_PMR_EL1 v s"

definition write_icc_igrpen1_el1 :: "u64 \<Rightarrow> hyp \<Rightarrow> hyp" where
  [simp]: "write_icc_igrpen1_el1 v s = msr ICC_IGRPEN1_EL1 v s"

definition read_icc_iar1_el1 :: "platform \<Rightarrow> hyp \<Rightarrow> u64 \<times> hyp" where
  [simp]: "read_icc_iar1_el1 p s = mrs_dev p ICC_IAR1_EL1 s"

definition write_icc_eoir1_el1 :: "u64 \<Rightarrow> hyp \<Rightarrow> hyp" where
  [simp]: "write_icc_eoir1_el1 v s = msr ICC_EOIR1_EL1 v s"

definition write_ich_hcr_el2 :: "u64 \<Rightarrow> hyp \<Rightarrow> hyp" where
  [simp]: "write_ich_hcr_el2 v s = msr ICH_HCR_EL2 v s"

definition write_ich_vmcr_el2 :: "u64 \<Rightarrow> hyp \<Rightarrow> hyp" where
  [simp]: "write_ich_vmcr_el2 v s = msr ICH_VMCR_EL2 v s"

definition write_ich_lr0_el2 :: "u64 \<Rightarrow> hyp \<Rightarrow> hyp" where
  [simp]: "write_ich_lr0_el2 v s = msr ICH_LR0_EL2 v s"


section \<open>Redistributor\<close>

text \<open>
  The polling loop; \<open>n\<close> is the number of further failed polls it tolerates, so that the code's
  bound of 1000000 makes \<open>n = 1000000\<close> at the start. The flag says that it gave up.
\<close>

fun poll_awake :: "platform \<Rightarrow> nat \<Rightarrow> hyp \<Rightarrow> bool \<times> hyp" where
  "poll_awake p n s =
     (let (w, s) = mmio_r_v3 p (GICR_BASE + GICR_WAKER) s
      in if w AND GICR_WAKER_CHILDREN_ASLEEP = 0 then (False, s)
         else case n of 0 \<Rightarrow> (True, s) | Suc m \<Rightarrow> poll_awake p m s)"

definition wake_redistributor :: "platform \<Rightarrow> hyp \<Rightarrow> hyp option" where
  "wake_redistributor p s =
     (let (w, s) = mmio_r_v3 p (GICR_BASE + GICR_WAKER) s;
          w = w AND NOT GICR_WAKER_PROCESSOR_SLEEP;
          s = mmio_w_v3 (GICR_BASE + GICR_WAKER) w s;
          (timeout, s) = poll_awake p 1000000 s
      in if timeout then kprint p [Str (''[gic-v3] redistributor wake timeout'' @ NL)] s else Some s)"

definition enable_ppi :: "platform \<Rightarrow> u32 \<Rightarrow> u8 \<Rightarrow> hyp \<Rightarrow> hyp" where
  "enable_ppi p intid priority s =
     (let sgi = GICR_BASE + GICR_SGI_OFFSET;
          s = mmio_wb (sgi + GICR_IPRIORITYR + ucast intid) priority s;
          (grp, s) = mmio_r_v3 p (sgi + GICR_IGROUPR0) s;
          grp = grp OR push_bit (unat intid) 1;
          s = mmio_w_v3 (sgi + GICR_IGROUPR0) grp s
      in mmio_w_v3 (sgi + GICR_ISENABLER0) (push_bit (unat intid) 1) s)"

definition cnthp_arm_ms :: "platform \<Rightarrow> u64 \<Rightarrow> hyp \<Rightarrow> hyp" where
  "cnthp_arm_ms p ms s =
     (let (freq, s) = mrs_dev p CNTFRQ_EL0 s;
          (now, s) = mrs_dev p CNTPCT_EL0 s;
          s = msr CNTHP_CVAL_EL2 (now + (freq * ms) div 1000) s
      in msr CNTHP_CTL_EL2 1 s)"

definition cnthp_disable :: "hyp \<Rightarrow> hyp" where
  "cnthp_disable s = msr CNTHP_CTL_EL2 0 s"


section \<open>Injection through a list register\<close>

definition make_lr :: "u32 \<Rightarrow> u8 \<Rightarrow> bool \<Rightarrow> u64" where
  "make_lr intid prio group1 =
     ucast (intid AND 0xFFFFFF) OR push_bit 48 (ucast prio)
     OR (if group1 then push_bit 60 1 else 0) OR push_bit 62 1"

definition stage4_eret_to_guest :: "platform \<Rightarrow> hyp \<Rightarrow> (unit outcome \<times> hyp) option" where
  "stage4_eret_to_guest p s =
     (let s = msr HCR_EL2 (mrs HCR_EL2 s OR push_bit 4 1) s;
          s = write_ich_hcr_el2 1 s;
          s = write_ich_vmcr_el2 (push_bit 24 0xFF OR push_bit 1 1) s;
          s = write_ich_lr0_el2 (make_lr 42 0xA0 True) s
      in do {
        s \<leftarrow> kprint p [Str (''[gic-v3] LR0 loaded (INTID 42 pending), ERETing to EL1 guest'' @ NL)] s;
        let s = msr ELR_EL2 (addr_guest_v3_start p) s;
        let s = msr SPSR_EL2 0x3C5 s;
        Some (Eret, s) })"

definition gic_init_el2_v3 :: "platform \<Rightarrow> hyp \<Rightarrow> (unit outcome \<times> hyp) option" where
  "gic_init_el2_v3 p s = do {
     s \<leftarrow> kprint p [Str (''[gic-v3] init: SRE, redistributor, distributor, CPU interface'' @ NL)] s;
     s \<leftarrow> wake_redistributor p (write_icc_sre_el2 0x9 s);
     let s = mmio_w_v3 (GICD_BASE + GICD_CTLR) 0x12 s;
     let s = msr ICH_HCR_EL2 1 s;
     let s = write_icc_pmr_el1 0xFF s;
     let s = write_icc_igrpen1_el1 0x1 s;
     let s = enable_ppi p IRQ_HTIMER_PPI 0xA0 s;
     s \<leftarrow> kprint p [Str (''[gic-v3] PPI 26 (CNTHP) enabled'' @ NL)] s;
     stage4_eret_to_guest p s }"

text \<open>\<open>kmain\<close> in this build: what follows \<open>gic_init_el2\<close> is not reached.\<close>

definition kmain_v3 :: "platform \<Rightarrow> hyp \<Rightarrow> (unit outcome \<times> hyp) option" where
  "kmain_v3 p s =
     (let s = s\<lparr>io := uart_init (io s)\<rparr>;
          (cur, s) = mrs_dev p CurrentEL s;
          el = drop_bit 2 cur AND 0x3
      in do {
        s \<leftarrow> kprint p [Str ''Hello from EL'', Chr (48 + ucast el), Str NL] s;
        gic_init_el2_v3 p s })"


section \<open>Interrupts at EL2\<close>

definition gic_handle_physical_irq_v3 ::
  "platform \<Rightarrow> trap_frame \<Rightarrow> u64 \<times> hyp \<Rightarrow> (trap_frame \<times> u64 \<times> hyp) option" where
  "gic_handle_physical_irq_v3 p tf c =
     (let (cnt, s) = c;
          (iar, s) = read_icc_iar1_el1 p s;
          intid = ucast (iar AND 0xFFFFFF) :: u32
      in if intid \<ge> 1020 then Some (tf, cnt, s)
         else if intid = IRQ_HTIMER_PPI then
           Some (tf, cnt + 1, write_icc_eoir1_el1 iar (cnthp_disable s))
         else do {
           s \<leftarrow> kprint p [Str ''[gic-v3] unexpected INTID '', Hex (ucast intid), Str NL] s;
           Some (tf, cnt, write_icc_eoir1_el1 iar s) })"


section \<open>The software CPU interface is empty\<close>

definition vgic_init_v3 :: "u32 \<Rightarrow> hyp \<Rightarrow> hyp" where
  "vgic_init_v3 vid s = s"

definition vgic_inject_v3 :: "u32 \<Rightarrow> u32 \<Rightarrow> hyp \<Rightarrow> hyp" where
  "vgic_inject_v3 vid intid s = s"

definition vgic_forward_spi_v3 :: "u32 \<Rightarrow> u32 \<Rightarrow> u32 \<Rightarrow> hyp \<Rightarrow> hyp" where
  "vgic_forward_spi_v3 vid intid iar s = s"

definition vgic_ack_all_v3 :: "u32 \<Rightarrow> hyp \<Rightarrow> hyp" where
  "vgic_ack_all_v3 vid s = s"

definition vgic_mmio_v3 :: "trap_frame \<Rightarrow> u64 \<Rightarrow> u64 \<Rightarrow> hyp \<Rightarrow> bool \<times> trap_frame \<times> hyp" where
  "vgic_mmio_v3 tf ipa iss s = (False, tf, s)"

definition vgic_has_pending_phys_iar_v3 :: "u32 \<Rightarrow> hyp \<Rightarrow> bool" where
  "vgic_has_pending_phys_iar_v3 vid s \<longleftrightarrow> False"


section \<open>The redistributor wait is bounded, list registers are well formed\<close>

declare poll_awake.simps [simp del]

text \<open>The state after \<open>k\<close> polls, each with the value the device returns then.\<close>

fun after_polls :: "platform \<Rightarrow> nat \<Rightarrow> hyp \<Rightarrow> hyp" where
  "after_polls p 0 s = s"
| "after_polls p (Suc k) s = after_polls p k (snd (load p W32 (GICR_BASE + GICR_WAKER) s))"

definition asleep :: "platform \<Rightarrow> hyp \<Rightarrow> bool" where
  "asleep p s \<longleftrightarrow> fst (load p W32 (GICR_BASE + GICR_WAKER) s) AND GICR_WAKER_CHILDREN_ASLEEP \<noteq> 0"

lemma poll_awake_spec:
  "\<exists>k \<le> n. snd (poll_awake p n s) = after_polls p (Suc k) s \<and> (\<forall>j < k. asleep p (after_polls p j s))
     \<and> (if fst (poll_awake p n s) then k = n \<and> asleep p (after_polls p k s)
        else \<not> asleep p (after_polls p k s))"
proof (induction n arbitrary: s)
  case 0
  show ?case by (subst (1 2) poll_awake.simps) (auto simp: split_beta Let_def asleep_def simp del: fst_load_W32 snd_load)
next
  case (Suc n)
  let ?s = "snd (load p W32 (GICR_BASE + GICR_WAKER) s)"
  show ?case
  proof (cases "asleep p s")
    case True
    then have e: "poll_awake p (Suc n) s = poll_awake p n ?s"
      by (subst poll_awake.simps) (simp add: split_beta Let_def asleep_def del: fst_load_W32 snd_load)
    obtain k where "k \<le> n" "snd (poll_awake p n ?s) = after_polls p (Suc k) ?s"
      "\<forall>j < k. asleep p (after_polls p j ?s)" "if fst (poll_awake p n ?s) then k = n \<and> asleep p (after_polls p k ?s)
        else \<not> asleep p (after_polls p k ?s)"
      using Suc.IH by blast
    then show ?thesis using True unfolding e
      by (intro exI [of _ "Suc k"]) (auto simp: less_Suc_eq_0_disj simp del: snd_load split: if_splits)
  next
    case False
    then have "poll_awake p (Suc n) s = (False, ?s)"
      by (subst poll_awake.simps) (simp add: split_beta Let_def asleep_def del: fst_load_W32 snd_load)
    then show ?thesis using False by (intro exI [of _ 0]) (simp del: snd_load)
  qed
qed

lemma after_polls_fields: "\<exists>es. after_polls p k s = s\<lparr>io := io s @ es\<rparr> \<and> length es = k"
proof (induction k arbitrary: s)
  case (Suc k)
  obtain es where "after_polls p k (snd (load p W32 (GICR_BASE + GICR_WAKER) s)) =
      (snd (load p W32 (GICR_BASE + GICR_WAKER) s))\<lparr>io := io (snd (load p W32 (GICR_BASE + GICR_WAKER) s)) @ es\<rparr>"
      "length es = k" using Suc.IH by blast
  then show ?case
    by (intro exI [of _ "Load W32 (GICR_BASE + GICR_WAKER) (dev_load p (io s) W32 (GICR_BASE + GICR_WAKER)) # es"]) simp
qed simp

lemma poll_awake_frame:
  obtains es where "snd (poll_awake p n s) = s\<lparr>io := io s @ es\<rparr>" and "length es \<le> Suc n"
proof -
  obtain k where "k \<le> n" "snd (poll_awake p n s) = after_polls p (Suc k) s" using poll_awake_spec by blast
  moreover obtain es where "after_polls p (Suc k) s = s\<lparr>io := io s @ es\<rparr>" "length es = Suc k"
    using after_polls_fields by blast
  ultimately show ?thesis using that [of es] by simp
qed

lemma wake_redistributor_frame:
  assumes "wake_redistributor p s = Some s'"
  obtains es where "s' = s\<lparr>io := io s @ es\<rparr>"
proof -
  let ?t = "store W32 (GICR_BASE + GICR_WAKER)
     (fst (load p W32 (GICR_BASE + GICR_WAKER) s) AND NOT GICR_WAKER_PROCESSOR_SLEEP)
     (snd (load p W32 (GICR_BASE + GICR_WAKER) s))"
  obtain es where e: "snd (poll_awake p 1000000 ?t) = ?t\<lparr>io := io ?t @ es\<rparr>" by (rule poll_awake_frame)
  from assms have "s' = snd (poll_awake p 1000000 ?t) \<or>
      (\<exists>is. kprint p is (snd (poll_awake p 1000000 ?t)) = Some s')"
    by (auto simp: wake_redistributor_def Let_def split_beta split: if_splits)
  then show ?thesis using that unfolding e by (auto simp: store_def elim!: kprint_frame)
qed

lemma make_lr_fields:
  shows "take_bit 32 (make_lr intid prio g) = ucast (take_bit 24 intid)"
    and "take_bit 8 (drop_bit 48 (make_lr intid prio g)) = ucast prio"
    and "bit (make_lr intid prio g) 60 = g" "bit (make_lr intid prio g) 61 = False"
    and "bit (make_lr intid prio g) 62" "\<not> bit (make_lr intid prio g) 63"
    and "take_bit 10 (drop_bit 32 (make_lr intid prio g)) = 0"
proof -
  have b: "bit (make_lr intid prio g) n \<longleftrightarrow> n < 24 \<and> bit intid n \<or> 48 \<le> n \<and> n < 56 \<and> bit prio (n - 48)
      \<or> n = 60 \<and> g \<or> n = 62" for n
    using bit_imp_le_length [of prio "n - 48"] bit_imp_le_length [of intid n]
    unfolding make_lr_def and_mask_take_bit
    by (cases g; cases "n < 64"; simp only: if_True if_False bit_or_iff bit_push_bit_iff bit_unsigned_iff
        bit_take_bit_iff bit_1_iff bit_0_eq bot_apply bot_bool_def possible_bit_word; auto)
  show "take_bit 32 (make_lr intid prio g) = ucast (take_bit 24 intid)"
    by (rule bit_eqI) (auto simp: bit_take_bit_iff b bit_unsigned_iff)
  show "take_bit 8 (drop_bit 48 (make_lr intid prio g)) = ucast prio"
    using bit_imp_le_length [of prio]
    by (intro bit_eqI) (auto simp: bit_take_bit_iff bit_drop_bit_eq b bit_unsigned_iff)
  show "take_bit 10 (drop_bit 32 (make_lr intid prio g)) = 0"
    by (rule bit_eqI) (auto simp: bit_take_bit_iff bit_drop_bit_eq b)
  show "bit (make_lr intid prio g) 60 = g" "bit (make_lr intid prio g) 61 = False"
    "bit (make_lr intid prio g) 62" "\<not> bit (make_lr intid prio g) 63"
    by (simp_all add: b)
qed

section \<open>Boot\<close>

lemma stage4_effect:
  assumes "stage4_eret_to_guest p s = Some (r, s')"
  shows "r = Eret" and "sys s' = (sys s)(HCR_EL2 := sys s HCR_EL2 OR push_bit 4 1, ICH_HCR_EL2 := 1,
     ICH_VMCR_EL2 := push_bit 24 0xFF OR push_bit 1 1, ICH_LR0_EL2 := make_lr 42 0xA0 True,
     ELR_EL2 := addr_guest_v3_start p, SPSR_EL2 := 0x3C5)"
  using assms by (auto simp: stage4_eret_to_guest_def Let_def msr_def mrs_def fun_eq_iff elim!: kprint_frame)

lemma kmain_v3_effect:
  assumes "kmain_v3 p s = Some (r, s')"
  shows "r = Eret" "sys s' ELR_EL2 = addr_guest_v3_start p" "sys s' SPSR_EL2 = 0x3C5"
    "sys s' ICH_LR0_EL2 = make_lr 42 0xA0 True" "sys s' ICH_HCR_EL2 = 1" "bit (sys s' HCR_EL2) 4"
    "sys s' ICC_SRE_EL2 = 0x9" "sys s' ICC_IGRPEN1_EL1 = 1" "sys s' ICC_PMR_EL1 = 0xFF"
proof -
  obtain t where t: "stage4_eret_to_guest p t = Some (r, s')" and
    g: "sys t ICC_SRE_EL2 = 0x9" "sys t ICC_IGRPEN1_EL1 = 1" "sys t ICC_PMR_EL1 = 0xFF"
    using assms
    by (auto simp: kmain_v3_def gic_init_el2_v3_def Let_def mrs_dev_def enable_ppi_def split_beta msr_def store_def
        elim!: kprint_frame wake_redistributor_frame)
  note e = stage4_effect [OF t]
  show "r = Eret" "sys s' ELR_EL2 = addr_guest_v3_start p" "sys s' SPSR_EL2 = 0x3C5"
    "sys s' ICH_LR0_EL2 = make_lr 42 0xA0 True" "sys s' ICH_HCR_EL2 = 1"
    "sys s' ICC_SRE_EL2 = 0x9" "sys s' ICC_IGRPEN1_EL1 = 1" "sys s' ICC_PMR_EL1 = 0xFF"
    by (simp_all add: e g)
  show "bit (sys s' HCR_EL2) 4"
    by (simp add: e bit_or_iff bit_push_bit_iff)
qed

lemma kmain_v3_returns: "\<exists>s'. kmain_v3 (hvf_platform p) s = Some (Eret, s')"
proof -
  have k: "kprint (hvf_platform p) is t \<noteq> None" for "is" t
    using hvf_console.kprint_returns by (metis option.distinct(1))
  have "wake_redistributor (hvf_platform p) t \<noteq> None" for t
    by (simp add: wake_redistributor_def Let_def split_beta k del: not_None_eq)
  then have "kmain_v3 (hvf_platform p) s \<noteq> None"
    by (simp add: kmain_v3_def gic_init_el2_v3_def stage4_eret_to_guest_def Let_def split_beta bind_eq_None_conv k
        del: not_None_eq)
  then show ?thesis using kmain_v3_effect(1) by fastforce
qed


section \<open>Interrupts are completed exactly once\<close>

fun icc_eois :: "event list \<Rightarrow> u64 list" where
  "icc_eois [] = []"
| "icc_eois (Msr r v # es) = (if r = ICC_EOIR1_EL1 then [v] else []) @ icc_eois es"
| "icc_eois (e # es) = icc_eois es"

lemma icc_eois_append [simp]: "icc_eois (xs @ ys) = icc_eois xs @ icc_eois ys"
  by (induction xs rule: icc_eois.induct) auto

lemma icc_eois_uart: "list_all uart_ev es \<Longrightarrow> icc_eois es = []"
  by (induction es rule: icc_eois.induct) (auto simp: uart_ev_def)

lemma gic_v3_irq_effect:
  assumes "gic_handle_physical_irq_v3 p tf (cnt, s) = Some (tf', cnt', s')"
  defines "iar \<equiv> dev_mrs p (io s) ICC_IAR1_EL1" and "intid \<equiv> unat (dev_mrs p (io s) ICC_IAR1_EL1) mod 2 ^ 24"
  shows "tf' = tf" and "icc_eois (io s') = icc_eois (io s) @ (if intid < 1020 then [iar] else [])"
    and "cnt' = (if intid = 26 then cnt + 1 else cnt)"
    and "intid = 26 \<Longrightarrow> sys s' CNTHP_CTL_EL2 = 0"
proof -
  have u: "unat (ucast (iar AND 0xFFFFFF) :: u32) = intid"
    unfolding and_mask_take_bit unsigned_ucast_eq unat_take_bit intid_def iar_def
    by (simp add: take_bit_nat_eq_self)
  then have i: "ucast (iar AND 0xFFFFFF) \<ge> (1020 :: u32) \<longleftrightarrow> 1020 \<le> intid"
    "ucast (iar AND 0xFFFFFF) = IRQ_HTIMER_PPI \<longleftrightarrow> intid = 26"
    by (simp_all add: word_le_nat_alt word_unat_eq_iff IRQ_HTIMER_PPI_def)
  have d: "gic_handle_physical_irq_v3 p tf (cnt, s) =
     (let s = s\<lparr>io := io s @ [Mrs ICC_IAR1_EL1 iar]\<rparr> in
      if 1020 \<le> intid then Some (tf, cnt, s)
      else if intid = 26 then Some (tf, cnt + 1, msr ICC_EOIR1_EL1 iar (cnthp_disable s))
      else do {
           s \<leftarrow> kprint p [Str ''[gic-v3] unexpected INTID '', Hex (ucast (ucast (iar AND 0xFFFFFF) :: u32)), Str NL] s;
           Some (tf, cnt, msr ICC_EOIR1_EL1 iar s) })"
    by (simp only: gic_handle_physical_irq_v3_def read_icc_iar1_el1_def write_icc_eoir1_el1_def Let_def prod.case mrs_dev_def iar_def [symmetric] i)
  show "tf' = tf" "icc_eois (io s') = icc_eois (io s) @ (if intid < 1020 then [iar] else [])"
    "cnt' = (if intid = 26 then cnt + 1 else cnt)" "intid = 26 \<Longrightarrow> sys s' CNTHP_CTL_EL2 = 0"
    using assms(1) unfolding d
    by (auto simp: Let_def cnthp_disable_def msr_def icc_eois_uart split: if_splits elim!: kprint_frame)
qed


section \<open>The trap handlers of this build\<close>

text \<open>
  \<open>exceptions.c\<close> compiled against these two files: the same handlers, calling the empty software
  CPU interface and the interrupt handler above.
\<close>

definition handle_hvc_v3 :: "platform \<Rightarrow> trap_frame \<Rightarrow> u64 \<Rightarrow> hyp \<Rightarrow> (trap_frame outcome \<times> hyp) option" where
  "handle_hvc_v3 p tf esr s =
     (let num = tf_x tf ! 0 in
      if is_psci_fid num then handle_psci p tf num s
      else if num = HVC_PING then Some (Ret (set_x 0 0 tf), s)
      else if num = HVC_PUTS then do {
        s \<leftarrow> kprint p [Str ''  [hypervisor relaying guest string] ''] s;
        tr \<leftarrow> uart_puts_ptr p (tf_x tf ! 1) (io s);
        Some (Ret (set_x 0 0 tf), s\<lparr>io := tr\<rparr>) }
      else if num = HVC_IRQ_DONE
      then Some (Ret (set_x 0 0 tf), vgic_ack_all_v3 (v_id (current_vcpu s)) s)
      else Some (Ret (set_x 0 (NOT 0) tf), s))"

definition handle_wfi_v3 :: "platform \<Rightarrow> trap_frame \<Rightarrow> u64 \<Rightarrow> hyp \<Rightarrow> trap_frame \<times> hyp" where
  "handle_wfi_v3 p tf esr s =
     (let s = wfi_rearm s;
          (hppir, s) = load p W32 (GICC_BASE_PA + 0x18) s;
          s = (if hppir AND 0x3FF = 33 \<and> \<not> vgic_has_pending_phys_iar_v3 (v_id (current_vcpu s)) s
               then
                 let (iar, s) = load p W32 (GICC_BASE_PA + 0x0C) s
                 in if iar AND 0x3FF = 33
                    then vgic_forward_spi_v3 (v_id (current_vcpu s)) 33 iar s else s
               else s)
      in (skip_insn tf, s))"

definition handle_stage2_abort_v3 :: "trap_frame \<Rightarrow> u64 \<Rightarrow> hyp \<Rightarrow> trap_frame \<times> hyp" where
  "handle_stage2_abort_v3 tf esr s =
     (let far = read_far_el2 s;
          hpfar = read_hpfar_el2 s;
          ipa = fault_ipa hpfar far;
          iss = esr AND 0x1ffffff
      in if ipa \<ge> GICD_EMU_BASE \<and> ipa < GICC_EMU_LIMIT
         then let (_, tf, s) = vgic_mmio_v3 tf ipa iss s in (skip_insn tf, s)
         else (skip_insn tf, s))"

definition handle_exception_v3 ::
  "platform \<Rightarrow> trap_frame \<Rightarrow> u64 \<Rightarrow> u64 \<times> hyp \<Rightarrow> (trap_frame outcome \<times> u64 \<times> hyp) option" where
  "handle_exception_v3 p tf kind c =
     (let (cnt, s) = c;
          esr = read_esr_el2 s;
          ec = esr_ec esr;
          s = log_exit tf kind s
      in if kind = VEC_L64_IRQ \<or> kind = VEC_EL2H_IRQ
         then do { (tf, c) \<leftarrow> gic_handle_physical_irq_v3 p tf (cnt, s); Some (Ret tf, c) }
         else if kind = VEC_L64_SYNC \<and> ec = 0x16
         then do { (r, s) \<leftarrow> handle_hvc_v3 p tf esr s; Some (r, cnt, s) }
         else if kind = VEC_L64_SYNC \<and> ec = 0x01
         then (let (tf, s) = handle_wfi_v3 p tf esr s in Some (Ret tf, cnt, s))
         else if kind = VEC_L64_SYNC \<and> ec = 0x18 then Some (Ret (handle_sysreg tf esr), cnt, s)
         else if kind = VEC_L64_SYNC \<and> ec = 0x24
         then (let (tf, s) = handle_stage2_abort_v3 tf esr s in Some (Ret tf, cnt, s))
         else do { (r, s) \<leftarrow> dump_and_halt p tf kind esr s; Some (r, cnt, s) })"

text \<open>A handler that only prints and accesses devices, and completes no interrupt.\<close>

definition quiet :: "hyp \<Rightarrow> hyp \<Rightarrow> bool" where
  "quiet s s' \<longleftrightarrow> (\<exists>es. s' = s\<lparr>io := io s @ es\<rparr> \<and> icc_eois es = [])"

lemma quiet_refl [simp]: "quiet s s"
  unfolding quiet_def by (intro exI [of _ "[]"]) simp

definition prints_some :: "event list \<Rightarrow> event list \<Rightarrow> bool" where
  "prints_some tr tr' \<longleftrightarrow> (\<exists>cs. prints tr cs tr')"

lemma prints_some_trans: "prints_some a b \<Longrightarrow> prints_some b c \<Longrightarrow> prints_some a c"
  unfolding prints_some_def using prints_trans by blast

lemma prints_some_refl: "prints_some a a"
  unfolding prints_some_def prints_def by auto

lemma uart_putc_prints_some: "uart_putc p c tr = Some tr' \<Longrightarrow> prints_some tr tr'"
  unfolding prints_some_def using uart_putc_prints by blast

lemma uart_puts_ptr_prints:
  assumes "uart_puts_ptr p a tr = Some tr'"
  shows "prints_some tr tr'"
proof (rule uart_puts_ptr.raw_induct [OF _ assms])
  fix f p a tr tr'
  assume IH: "\<And>p a tr tr'. f p a tr = Some tr' \<Longrightarrow> prints_some tr tr'"
    and eq: "(if ram_byte p a = 0 then Some tr
      else do {
        tr \<leftarrow> (if ram_byte p a = 10 then uart_putc p 13 tr else Some tr);
        tr \<leftarrow> uart_putc p (ram_byte p a) tr;
        f p (a + 1) tr }) = Some tr'"
  show "prints_some tr tr'"
  proof (cases "ram_byte p a = 0")
    case True
    then show ?thesis using eq prints_some_refl by simp
  next
    case False
    with eq obtain t1 t2 where t: "(if ram_byte p a = 10 then uart_putc p 13 tr else Some tr) = Some t1"
      "uart_putc p (ram_byte p a) t1 = Some t2" "f p (a + 1) t2 = Some tr'" by auto
    have "prints_some tr t1"
      using t(1) uart_putc_prints_some prints_some_refl by (auto split: if_splits)
    from prints_some_trans [OF prints_some_trans [OF this uart_putc_prints_some [OF t(2)]] IH [OF t(3)]]
    show ?thesis .
  qed
qed

lemma kprint_quiet: "kprint p is s = Some s' \<Longrightarrow> quiet s s'"
  by (erule kprint_frame) (auto simp: quiet_def icc_eois_uart)

lemma handle_psci_quiet: "handle_psci p tf fid s = Some (r, s') \<Longrightarrow> quiet s s'"
  by (auto simp: handle_psci_def psci_halt_def Let_def kprint_quiet split: if_splits)

lemma puts_quiet:
  assumes "kprint p is s = Some t" and "uart_puts_ptr p a (io t) = Some tr"
  shows "quiet s (t\<lparr>io := tr\<rparr>)"
proof -
  obtain es where t: "t = s\<lparr>io := io s @ es\<rparr>" "list_all uart_ev es" using assms(1) by (rule kprint_frame)
  obtain fs where "tr = io t @ fs" "list_all uart_ev fs"
    using uart_puts_ptr_prints [OF assms(2)] by (auto simp: prints_some_def prints_def)
  then show ?thesis using t unfolding quiet_def
    by (intro exI [of _ "es @ fs"]) (simp add: icc_eois_uart)
qed

lemma handle_hvc_v3_quiet: "handle_hvc_v3 p tf esr s = Some (r, s') \<Longrightarrow> quiet s s'"
  by (auto simp: handle_hvc_v3_def Let_def handle_psci_quiet vgic_ack_all_v3_def puts_quiet split: if_splits)

lemma handle_wfi_v3_quiet: "quiet s (snd (handle_wfi_v3 p tf esr s))"
  by (auto simp: handle_wfi_v3_def wfi_rearm_def quiet_def vgic_forward_spi_v3_def Let_def split_beta store_def
      load_io_def load_def)

lemma dump_and_halt_quiet: "dump_and_halt p tf kind esr s = Some (r, s') \<Longrightarrow> quiet s s'"
  by (auto simp: dump_and_halt_def Let_def kprint_quiet)

lemma handle_stage2_abort_v3_eq: "handle_stage2_abort_v3 tf esr s = (skip_insn tf, s)"
  by (simp add: handle_stage2_abort_v3_def vgic_mmio_v3_def Let_def)


lemma handle_exception_v3_sync:
  assumes "handle_exception_v3 p tf kind (cnt, s) = Some (r, cnt', s')"
    and "\<not> (kind = VEC_L64_IRQ \<or> kind = VEC_EL2H_IRQ)"
  shows "cnt' = cnt \<and> quiet (log_exit tf kind s) s'"
  using assms handle_wfi_v3_quiet [of "log_exit tf kind s" p tf "mrs ESR_EL2 s"]
  by (auto simp: handle_exception_v3_def Let_def split_beta handle_stage2_abort_v3_eq
      dest: handle_hvc_v3_quiet dump_and_halt_quiet split: if_splits)

lemma gic_v3_irq_frame:
  assumes "gic_handle_physical_irq_v3 p tf (cnt, s) = Some (tf', cnt', s')"
  shows "vcpus s' = vcpus s" "vgics s' = vgics s" "current s' = current s" "exit_ring_count s' = exit_ring_count s"
    "sys s' HCR_EL2 = sys s HCR_EL2"
  using assms
  by (auto simp: gic_handle_physical_irq_v3_def Let_def mrs_dev_def cnthp_disable_def msr_def
      split: if_splits elim!: kprint_frame)


section \<open>Properties\<close>

text \<open>
  C36. The GICv3 build under the launcher boots through to its guest: the redistributor wait ends
  whatever the device answers, and control leaves EL2 for the guest's entry point at EL1 with
  interrupts masked, the virtual CPU interface on, and exactly one virtual interrupt in list
  register 0: INTID 42, pending, not active, group 1, priority 0xA0, with no physical interrupt
  behind it.
\<close>

theorem v3_boot_injects_one_interrupt:
  "\<exists>s'. kmain_v3 (hvf_platform p) s = Some (Eret, s')
     \<and> sys s' ELR_EL2 = addr_guest_v3_start (hvf_platform p) \<and> sys s' SPSR_EL2 = 0x3C5
     \<and> sys s' ICC_SRE_EL2 = 0x9 \<and> sys s' ICC_IGRPEN1_EL1 = 1 \<and> sys s' ICC_PMR_EL1 = 0xFF
     \<and> sys s' ICH_HCR_EL2 = 1 \<and> bit (sys s' HCR_EL2) 4
     \<and> (let lr = sys s' ICH_LR0_EL2
        in take_bit 32 lr = 42 \<and> take_bit 10 (drop_bit 32 lr) = 0 \<and> take_bit 8 (drop_bit 48 lr) = 0xA0
           \<and> bit lr 60 \<and> \<not> bit lr 61 \<and> bit lr 62 \<and> \<not> bit lr 63)"
proof -
  obtain s' where k: "kmain_v3 (hvf_platform p) s = Some (Eret, s')" using kmain_v3_returns by blast
  note e = kmain_v3_effect [OF k]
  show ?thesis
    using k e make_lr_fields [of 42 "0xA0" True] by (intro exI [of _ s']) (simp add: Let_def)
qed



end
