(* ===== verification/Launcher.thy ===== *)
theory Launcher
  imports Hvf
begin

text \<open>
  The launcher's ELF loader and its \<open>main\<close> (\<open>src/host/hvf_main.c\<close>).

  The image is the list of bytes of the file, mapped read-only in whole pages, so that the
  tail of the last page reads as zero and anything beyond it is not there to read. Guest RAM
  is the block of \<open>ram_size\<close> bytes \<open>main\<close> mapped; a copy of at least one byte that leaves the
  file's mapping or guest RAM ends in \<open>Crash\<close>.
\<close>


section \<open>ELF images\<close>

definition ELFMAG :: "u8 list" where [hyp_consts]: "ELFMAG = [0x7f, 0x45, 0x4C, 0x46]"
definition ELFCLASS64 :: u8 where [hyp_consts]: "ELFCLASS64 = 2"
definition ELFDATA2LSB :: u8 where [hyp_consts]: "ELFDATA2LSB = 1"
definition EM_AARCH64 :: u16 where [hyp_consts]: "EM_AARCH64 = 183"
definition PT_LOAD :: u32 where [hyp_consts]: "PT_LOAD = 1"

record Elf64_Ehdr =
  e_ident :: "u8 list"
  e_type :: u16
  e_machine :: u16
  e_version :: u32
  e_entry :: u64
  e_phoff :: u64
  e_shoff :: u64
  e_flags :: u32
  e_ehsize :: u16
  e_phentsize :: u16
  e_phnum :: u16
  e_shentsize :: u16
  e_shnum :: u16
  e_shstrndx :: u16

record Elf64_Phdr =
  p_type :: u32
  p_flags :: u32
  p_offset :: u64
  p_vaddr :: u64
  p_paddr :: u64
  p_filesz :: u64
  p_memsz :: u64
  p_align :: u64

fun le :: "u8 list \<Rightarrow> 'a::len word" where
  "le [] = 0"
| "le (b # bs) = ucast b OR push_bit 8 (le bs)"

definition field :: "nat \<Rightarrow> nat \<Rightarrow> u8 list \<Rightarrow> 'a::len word" where
  "field off n bs = le (take n (drop off bs))"

text \<open>The packed structs seen through a pointer into the mapping; \<open>None\<close> when it ends before them.\<close>

definition ehdr_at :: "nat \<Rightarrow> u8 list \<Rightarrow> Elf64_Ehdr option" where
  "ehdr_at off bs =
     (if off + 64 \<le> length bs
      then let b = drop off bs in
        Some \<lparr>e_ident = take 16 b, e_type = field 16 2 b, e_machine = field 18 2 b,
              e_version = field 20 4 b, e_entry = field 24 8 b, e_phoff = field 32 8 b,
              e_shoff = field 40 8 b, e_flags = field 48 4 b, e_ehsize = field 52 2 b,
              e_phentsize = field 54 2 b, e_phnum = field 56 2 b, e_shentsize = field 58 2 b,
              e_shnum = field 60 2 b, e_shstrndx = field 62 2 b\<rparr>
      else None)"

definition phdr_at :: "nat \<Rightarrow> u8 list \<Rightarrow> Elf64_Phdr option" where
  "phdr_at off bs =
     (if off + 56 \<le> length bs
      then let b = drop off bs in
        Some \<lparr>p_type = field 0 4 b, p_flags = field 4 4 b, p_offset = field 8 8 b,
              p_vaddr = field 16 8 b, p_paddr = field 24 8 b, p_filesz = field 32 8 b,
              p_memsz = field 40 8 b, p_align = field 48 8 b\<rparr>
      else None)"

definition mapped :: "nat \<Rightarrow> u8 list \<Rightarrow> u8 list" where
  "mapped page bs = bs @ replicate ((page - length bs mod page) mod page) 0"


section \<open>Loading\<close>

definition overwrite :: "nat \<Rightarrow> u8 list \<Rightarrow> (nat \<Rightarrow> u8) \<Rightarrow> nat \<Rightarrow> u8" where
  "overwrite off bs m i = (if off \<le> i \<and> i < off + length bs then bs ! (i - off) else m i)"

definition ram_write :: "'v hv_api \<Rightarrow> nat \<Rightarrow> nat \<Rightarrow> u8 list \<Rightarrow> 'v host \<Rightarrow> (unit, 'v) run" where
  "ram_write a ram_size off bs h =
     (if bs = [] \<or> off + length bs \<le> ram_size
      then ok () (h\<lparr>vm := ram_put a (vm h) (overwrite off bs (ram_of a (vm h)))\<rparr>)
      else (Inl Crash, h))"

definition load_segment ::
  "'v hv_api \<Rightarrow> nat \<Rightarrow> u8 list \<Rightarrow> nat \<Rightarrow> Elf64_Phdr \<Rightarrow> 'v host \<Rightarrow> (unit, 'v) run" where
  "load_segment a ram_size elf i ph h =
     (if p_type ph \<noteq> PT_LOAD then ok () h
      else
        let dst_pa = (if p_paddr ph \<noteq> 0 then p_paddr ph else p_vaddr ph)
        in if dst_pa < GUEST_RAM_BASE \<or> dst_pa + p_memsz ph > GUEST_RAM_BASE + of_nat ram_size
           then die 1 (Segment_outside i dst_pa (p_memsz ph)) h
           else
             let dst = unat (dst_pa - GUEST_RAM_BASE);
                 src = unat (p_offset ph);
                 n = unat (p_filesz ph)
             in if n \<noteq> 0 \<and> src + n > length elf then (Inl Crash, h)
                else
                  seq (ram_write a ram_size dst (take n (drop src elf)) h) (\<lambda>_ h.
                  seq (if p_memsz ph > p_filesz ph
                       then ram_write a ram_size (dst + n) (replicate (unat (p_memsz ph - p_filesz ph)) 0) h
                       else ok () h) (\<lambda>_ h.
                  ok () (say (Loaded_segment i dst_pa (p_memsz ph) (p_filesz ph)) h))))"

text \<open>The \<open>k\<close> program headers from number \<open>i\<close> on, the first one at offset \<open>off\<close>.\<close>

fun load_segments ::
  "'v hv_api \<Rightarrow> nat \<Rightarrow> u8 list \<Rightarrow> nat \<Rightarrow> nat \<Rightarrow> nat \<Rightarrow> 'v host \<Rightarrow> (unit, 'v) run" where
  "load_segments a ram_size elf off i 0 h = ok () h"
| "load_segments a ram_size elf off i (Suc k) h =
     (case phdr_at off elf of
        None \<Rightarrow> (Inl Crash, h)
      | Some ph \<Rightarrow>
          seq (load_segment a ram_size elf i ph h) (\<lambda>_ h.
          load_segments a ram_size elf (off + 56) (i + 1) k h))"

definition elf_accepted :: "Elf64_Ehdr \<Rightarrow> bool" where
  "elf_accepted eh \<longleftrightarrow> take 4 (e_ident eh) = ELFMAG \<and> e_ident eh ! 4 = ELFCLASS64
     \<and> e_ident eh ! 5 = ELFDATA2LSB \<and> e_machine eh = EM_AARCH64"

text \<open>\<open>file\<close> is \<open>None\<close> when \<open>open\<close> fails; an empty file cannot be mapped.\<close>

definition load_elf_into ::
  "'v hv_api \<Rightarrow> nat \<Rightarrow> u8 list option \<Rightarrow> nat \<Rightarrow> 'v host \<Rightarrow> (u64, 'v) run" where
  "load_elf_into a page file ram_size h =
     (case file of
        None \<Rightarrow> die 1 Perror h
      | Some bs \<Rightarrow>
          if bs = [] then die 1 Perror h
          else
            let elf = mapped page bs
            in case ehdr_at 0 elf of
                 None \<Rightarrow> (Inl Crash, h)
               | Some eh \<Rightarrow>
                   if \<not> elf_accepted eh then die 1 Not_aarch64 h
                   else
                     seq (load_segments a ram_size elf (unat (e_phoff eh)) 0 (unat (e_phnum eh)) h) (\<lambda>_ h.
                     ok (e_entry eh) h))"


section \<open>main\<close>

definition host_start :: "'v \<Rightarrow> 'v host" where
  "host_start v = \<lparr>vm = v, uart = pl011_reset, out = [], err = [], seen = 0, vt_count = 0\<rparr>"

text \<open>
  Everything \<open>main\<close> does before the exit loop; \<open>ram_ok\<close> says whether the mapping of guest RAM
  succeeds.
\<close>

definition launch ::
  "'v hv_api \<Rightarrow> nat \<Rightarrow> bool \<Rightarrow> nat \<Rightarrow> u8 list option \<Rightarrow> 'v host \<Rightarrow> (unit, 'v) run" where
  "launch a argc ram_ok page file h =
     (if argc < 2 then die 2 Usage h
      else
        seq (HVC a Config_get_el2_supported h) (\<lambda>el2 h.
        if el2 = 0 then die 1 No_el2 h
        else if \<not> ram_ok then die 1 Perror h
        else
          seq (HVC a (Config_set_el2_enabled True) h) (\<lambda>_ h.
          seq (HVC a Vm_create h) (\<lambda>_ h.
          seq (HVC a (Vm_map GUEST_RAM_BASE GUEST_RAM_SIZE) h) (\<lambda>_ h.
          seq (HVC a Gic_get_distributor_size h) (\<lambda>gicd_size h.
          seq (HVC a Gic_get_redistributor_size h) (\<lambda>gicr_size h.
          seq (HVC a (Gic_set_distributor_base GICD_BASE_IPA) (say (Gic_sizes gicd_size gicr_size) h)) (\<lambda>_ h.
          seq (HVC a (Gic_set_redistributor_base GICR_BASE_IPA) h) (\<lambda>_ h.
          seq (HVC a Gic_create h) (\<lambda>_ h.
          seq (load_elf_into a page file (unat GUEST_RAM_SIZE) (say Gic_created h)) (\<lambda>entry h.
          let entry_pc = (if entry = 0 then HYP_ENTRY_IPA else entry)
          in
          seq (HVC a Vcpu_create (say (Entry_pc entry_pc) h)) (\<lambda>_ h.
          seq (HVC a (Set_mpidr 0x80000000) h) (\<lambda>_ h.
          seq (HVC a Gic_get_redistributor_base h) (\<lambda>gicr_real h.
          if gicr_real \<noteq> GICR_BASE_IPA then die 1 (Redistributor_mismatch gicr_real) h
          else
            seq (HVC a (Set_reg HV_REG_PC entry_pc) (say (Redistributor_ok gicr_real) h)) (\<lambda>_ h.
            seq (HVC a (Set_reg HV_REG_CPSR 0x3C9) h) (\<lambda>_ h.
            ok () (say Starting h)))))))))))))))))"

definition hvf_main ::
  "'v hv_api \<Rightarrow> nat \<Rightarrow> bool \<Rightarrow> nat \<Rightarrow> u8 list option \<Rightarrow> 'v \<Rightarrow> (ending \<times> 'v host) option" where
  "hvf_main a argc ram_ok page file v =
     (case launch a argc ram_ok page file (host_start v) of
        (Inl e, h) \<Rightarrow> Some (e, h)
      | (Inr _, h) \<Rightarrow> run_loop a h)"


section \<open>The loader places the image\<close>

lemma ok_eq [simp]: "ok x h = ok y k \<longleftrightarrow> x = y \<and> h = k"
  by (simp add: ok_def)

definition ram_law :: "'v hv_api \<Rightarrow> bool" where
  "ram_law a \<longleftrightarrow> (\<forall>v m. ram_of a (ram_put a v m) = m)"

definition dst_of :: "Elf64_Phdr \<Rightarrow> u64" where
  "dst_of ph = (if p_paddr ph \<noteq> 0 then p_paddr ph else p_vaddr ph)"

text \<open>A segment that lies in guest RAM and whose file part, if it has one, lies in the image.\<close>

definition segment_fits :: "nat \<Rightarrow> u8 list \<Rightarrow> Elf64_Phdr \<Rightarrow> bool" where
  "segment_fits ram_size elf ph \<longleftrightarrow> p_type ph = PT_LOAD \<longrightarrow>
     unat GUEST_RAM_BASE \<le> unat (dst_of ph)
     \<and> unat (dst_of ph) + unat (p_memsz ph) \<le> unat GUEST_RAM_BASE + ram_size
     \<and> p_filesz ph \<le> p_memsz ph \<and> (p_filesz ph \<noteq> 0 \<longrightarrow> unat (p_offset ph) + unat (p_filesz ph) \<le> length elf)"

text \<open>The contents of RAM once a segment is in place.\<close>

definition segment_image :: "u8 list \<Rightarrow> Elf64_Phdr \<Rightarrow> (nat \<Rightarrow> u8) \<Rightarrow> nat \<Rightarrow> u8" where
  "segment_image elf ph m i =
     (let dst = unat (dst_of ph) - unat GUEST_RAM_BASE
      in if p_type ph \<noteq> PT_LOAD \<or> i < dst \<or> dst + unat (p_memsz ph) \<le> i then m i
         else if i < dst + unat (p_filesz ph) then elf ! (unat (p_offset ph) + (i - dst))
         else 0)"

lemma load_segment_ok:
  assumes law: "ram_law a" and fit: "segment_fits ram_size elf ph" and sz: "ram_size \<le> 2 ^ 62"
  shows "\<exists>h'. load_segment a ram_size elf i ph h = ok () h'
    \<and> ram_of a (vm h') = segment_image elf ph (ram_of a (vm h)) \<and> out h' = out h \<and> uart h' = uart h"
proof (cases "p_type ph = PT_LOAD")
  case True
  let ?d = "dst_of ph" and ?n = "unat (p_filesz ph)" and ?m = "unat (p_memsz ph)"
  have f: "unat GUEST_RAM_BASE \<le> unat ?d" "unat ?d + ?m \<le> unat GUEST_RAM_BASE + ram_size"
    "?n \<le> ?m" "?n \<noteq> 0 \<Longrightarrow> unat (p_offset ph) + ?n \<le> length elf"
    using fit True by (auto simp: segment_fits_def word_le_nat_alt unat_eq_zero)
  have base: "unat GUEST_RAM_BASE = 0x40000000" by (simp add: hyp_consts)
  have sz2: "ram_size < 2 ^ 63" using sz by simp
  have lo: "\<not> ?d < GUEST_RAM_BASE" using f(1) by (simp add: word_less_nat_alt)
  have "unat (?d + p_memsz ph) = unat ?d + ?m"
    using f(2) sz base by (subst unat_word_ariths) simp
  moreover have "unat (GUEST_RAM_BASE + of_nat ram_size) = unat GUEST_RAM_BASE + ram_size"
    using sz base by (simp add: unat_word_ariths unat_of_nat)
  ultimately have hi: "\<not> GUEST_RAM_BASE + of_nat ram_size < ?d + p_memsz ph"
    using f(2) by (simp add: word_less_nat_alt)
  define dst where "dst = unat (?d - GUEST_RAM_BASE)"
  have dst: "dst = unat ?d - unat GUEST_RAM_BASE" 
    using lo by (simp add: dst_def unat_sub not_less)
  have fits: "dst + ?m \<le> ram_size" using f dst by simp
  have gap: "unat (p_memsz ph - p_filesz ph) = ?m - ?n" 
    using f(3) by (simp add: unat_sub word_le_nat_alt)
  let ?bs = "take ?n (drop (unat (p_offset ph)) elf)"
  have len: "length ?bs = ?n" using f(4) by (cases "?n = 0") simp_all
  define m1 where "m1 = overwrite dst ?bs (ram_of a (vm h))"
  define m2 where "m2 = (if p_memsz ph > p_filesz ph then overwrite (dst + ?n) (replicate (?m - ?n) 0) m1 else m1)"
  have w: "ram_write a ram_size off cs k = ok () (k\<lparr>vm := ram_put a (vm k) (overwrite off cs (ram_of a (vm k)))\<rparr>)"
    if "off + length cs \<le> ram_size" for off cs and k :: "'a host"
    using that by (simp add: ram_write_def)
  have src: "(?n \<noteq> 0 \<and> unat (p_offset ph) + ?n > length elf) = False" using f(4) by auto
  have "\<exists>h'. load_segment a ram_size elf i ph h = ok () h' \<and> ram_of a (vm h') = m2
      \<and> out h' = out h \<and> uart h' = uart h"
    using law f(3) fits lo hi True len
    unfolding load_segment_def Let_def dst_of_def [symmetric] dst_def [symmetric] src
    by (simp add: w ram_law_def m2_def m1_def gap)
  moreover have "m2 j = segment_image elf ph (ram_of a (vm h)) j" for j
    using f(3,4) True
    by (auto simp: m2_def m1_def overwrite_def segment_image_def Let_def word_less_nat_alt add.commute
        simp flip: dst)
  ultimately show ?thesis by (auto simp: fun_eq_iff)
qed (simp add: load_segment_def segment_image_def fun_eq_iff Let_def)


text \<open>The program headers of an image, in file order.\<close>

fun phdrs :: "u8 list \<Rightarrow> nat \<Rightarrow> nat \<Rightarrow> Elf64_Phdr option list" where
  "phdrs elf off 0 = []"
| "phdrs elf off (Suc k) = phdr_at off elf # phdrs elf (off + 56) k"

lemma load_segments_ok:
  assumes law: "ram_law a" and sz: "ram_size \<le> 2 ^ 62"
    and "phdrs elf off k = map Some phs" and "\<forall>ph \<in> set phs. segment_fits ram_size elf ph"
  shows "\<exists>h'. load_segments a ram_size elf off i k h = ok () h'
    \<and> ram_of a (vm h') = fold (segment_image elf) phs (ram_of a (vm h)) \<and> out h' = out h \<and> uart h' = uart h"
  using assms(3,4)
proof (induction k arbitrary: off i h phs)
  case (Suc k)
  then obtain ph phs' where phs: "phs = ph # phs'" "phdr_at off elf = Some ph"
      "phdrs elf (off + 56) k = map Some phs'"
    by (cases phs) auto
  obtain h1 where h1: "load_segment a ram_size elf i ph h = ok () h1"
    "ram_of a (vm h1) = segment_image elf ph (ram_of a (vm h))" "out h1 = out h" "uart h1 = uart h"
    using load_segment_ok [OF law _ sz] Suc.prems(2) phs(1) by (metis list.set_intros(1))
  with Suc.IH [OF phs(3), of "i + 1" h1] Suc.prems(2) phs show ?case by simp
qed simp

lemma length_mapped: "0 < page \<Longrightarrow> bs \<noteq> [] \<Longrightarrow> page \<le> length (mapped page bs)"
proof -
  assume p: "0 < page" and b: "bs \<noteq> []"
  let ?n = "length bs"
  show ?thesis
  proof (cases "?n mod page = 0")
    case True
    then have "page \<le> ?n" using b by (simp add: dvd_imp_le mod_eq_0_iff_dvd)
    then show ?thesis by (simp add: mapped_def)
  next
    case False
    then have "(page - ?n mod page) mod page = page - ?n mod page" using p by simp
    moreover have "?n mod page \<le> ?n" "?n mod page < page" using p by simp_all
    ultimately show ?thesis unfolding mapped_def by (simp only: length_append length_replicate)
  qed
qed

lemma ehdr_mapped: "64 \<le> page \<Longrightarrow> bs \<noteq> [] \<Longrightarrow> ehdr_at 0 (mapped page bs) \<noteq> None"
  using length_mapped [of page bs] by (simp add: ehdr_at_def Let_def)

lemma load_elf_into_ok:
  assumes "ram_law a" and "ram_size \<le> 2 ^ 62" and "bs \<noteq> []"
    and "ehdr_at 0 (mapped page bs) = Some eh" and "elf_accepted eh"
    and "phdrs (mapped page bs) (unat (e_phoff eh)) (unat (e_phnum eh)) = map Some phs"
    and "\<forall>ph \<in> set phs. segment_fits ram_size (mapped page bs) ph"
  shows "\<exists>h'. load_elf_into a page (Some bs) ram_size h = ok (e_entry eh) h'
    \<and> ram_of a (vm h') = fold (segment_image (mapped page bs)) phs (ram_of a (vm h))
    \<and> out h' = out h \<and> uart h' = uart h"
proof -
  obtain h' where "load_segments a ram_size (mapped page bs) (unat (e_phoff eh)) 0 (unat (e_phnum eh)) h = ok () h'"
    "ram_of a (vm h') = fold (segment_image (mapped page bs)) phs (ram_of a (vm h))" "out h' = out h" "uart h' = uart h"
    using load_segments_ok [OF assms(1,2,6,7)] by metis
  then show ?thesis using assms(3-5) by (simp add: load_elf_into_def Let_def)
qed

lemma load_elf_into_rejects:
  assumes "64 \<le> page" and "\<And>eh. file = Some bs \<Longrightarrow> ehdr_at 0 (mapped page bs) = Some eh \<Longrightarrow> \<not> elf_accepted eh"
    and "file = None \<or> file = Some bs"
  shows "\<exists>m. load_elf_into a page file ram_size h = die 1 m h"
  using assms ehdr_mapped [of page bs]
  by (auto simp: load_elf_into_def Let_def split: option.splits)

text \<open>The bound check is computed modulo \<open>2 ^ 64\<close>.\<close>

definition wrapping_segment :: Elf64_Phdr where
  "wrapping_segment = \<lparr>p_type = PT_LOAD, p_flags = 5, p_offset = 0, p_vaddr = 0xFFFFFFFFFFFFF000,
     p_paddr = 0xFFFFFFFFFFFFF000, p_filesz = 16, p_memsz = 0x40002000, p_align = 0x1000\<rparr>"

lemma wrapping_segment_faults:
  assumes "16 \<le> length elf"
  shows "load_segment a (unat GUEST_RAM_SIZE) elf i wrapping_segment h = (Inl Crash, h)"
  using assms
  by (cases elf) (simp_all add: load_segment_def wrapping_segment_def Let_def hyp_consts ram_write_def)


lemma seq_InrE:
  assumes "seq r f = (Inr x, h')"
  obtains y h1 where "r = (Inr y, h1)" and "f y h1 = (Inr x, h')"
  using assms by (cases r) (auto simp: seq_def split: sum.splits)

lemma ok_eq_Inr [simp]: "ok y h = (Inr x, h') \<longleftrightarrow> x = y \<and> h' = h"
  by (auto simp: ok_def)

lemma die_neq_Inr [simp]: "die n m h = (Inr x, h') \<longleftrightarrow> False"
  by (simp add: die_def)

lemma launch_state:
  assumes rf: "reg_file a rf" and run: "launch a argc ram_ok page file h = (Inr (), h')"
  shows "2 \<le> argc \<and> ram_ok \<and> rf (vm h') HV_REG_CPSR = 0x3C9 \<and>
    (\<exists>entry h1 h2. load_elf_into a page file (unat GUEST_RAM_SIZE) h1 = (Inr entry, h2)
      \<and> rf (vm h') HV_REG_PC = (if entry = 0 then HYP_ENTRY_IPA else entry))"
proof -
  have s: "rf (vm k') = (rf (vm k))(r := y)" if "HVC a (Set_reg r y) k = (Inr x, k')" for r y k k' x
    using that HVC_set [OF rf, of r y k] by (metis ok_def prod.inject host.select_convs(1) host.surjective host.update_convs(1))
  show ?thesis
    using run unfolding launch_def Let_def
    by (auto split: if_splits elim!: seq_InrE dest!: s) blast+
qed

section \<open>Properties\<close>

text \<open>
  C33. Loading an acceptable image: when every loadable segment lies in guest RAM, has no more file
  bytes than memory and has them inside the file, loading succeeds, returns the image's entry
  point, and leaves in RAM, segment after segment in file order, the bytes of the file followed
  by zeros, and everything outside the segments as it was.
\<close>

theorem elf_loader_places_image:
  assumes "ram_law a" and "ram_size \<le> 2 ^ 62" and "bs \<noteq> []"
    and "ehdr_at 0 (mapped page bs) = Some eh" and "elf_accepted eh"
    and "phdrs (mapped page bs) (unat (e_phoff eh)) (unat (e_phnum eh)) = map Some phs"
    and "\<forall>ph \<in> set phs. segment_fits ram_size (mapped page bs) ph"
  shows "\<exists>h'. load_elf_into a page (Some bs) ram_size h = ok (e_entry eh) h'
    \<and> ram_of a (vm h') = fold (segment_image (mapped page bs)) phs (ram_of a (vm h))
    \<and> out h' = out h \<and> uart h' = uart h"
  using load_elf_into_ok [OF assms] .

text \<open>An image with one segment of two bytes, loaded at \<open>0x40080000\<close> and extended by two zeros.\<close>

definition tiny_elf :: "u8 list" where
  "tiny_elf = [0x7f, 0x45, 0x4C, 0x46, 2, 1, 1, 0, 0, 0, 0, 0, 0, 0, 0, 0,
     2, 0, 183, 0, 1, 0, 0, 0, 0, 0, 8, 0x40, 0, 0, 0, 0,
     64, 0, 0, 0, 0, 0, 0, 0, 0, 0, 0, 0, 0, 0, 0, 0,
     0, 0, 0, 0, 64, 0, 56, 0, 1, 0, 0, 0, 0, 0, 0, 0,
     1, 0, 0, 0, 5, 0, 0, 0, 120, 0, 0, 0, 0, 0, 0, 0,
     0, 0, 8, 0x40, 0, 0, 0, 0, 0, 0, 8, 0x40, 0, 0, 0, 0,
     2, 0, 0, 0, 0, 0, 0, 0, 4, 0, 0, 0, 0, 0, 0, 0,
     0, 0, 0, 0, 0, 0, 0, 0, 0xAA, 0xBB]"

definition tiny_phdr :: Elf64_Phdr where
  "tiny_phdr = \<lparr>p_type = 1, p_flags = 5, p_offset = 120, p_vaddr = 0x40080000, p_paddr = 0x40080000,
     p_filesz = 2, p_memsz = 4, p_align = 0\<rparr>"

definition tiny_ehdr :: Elf64_Ehdr where
  "tiny_ehdr = \<lparr>e_ident = take 16 tiny_elf, e_type = 2, e_machine = 183, e_version = 1, e_entry = 0x40080000,
     e_phoff = 64, e_shoff = 0, e_flags = 0, e_ehsize = 64, e_phentsize = 56, e_phnum = 1,
     e_shentsize = 0, e_shnum = 0, e_shstrndx = 0\<rparr>"

lemma tiny_elf_header:
  "ehdr_at 0 (mapped 122 tiny_elf) = Some tiny_ehdr" "phdr_at 64 (mapped 122 tiny_elf) = Some tiny_phdr"
  by (simp_all add: ehdr_at_def phdr_at_def mapped_def tiny_elf_def tiny_ehdr_def tiny_phdr_def field_def Let_def)

lemma tiny_elf_fits: "segment_fits (unat GUEST_RAM_SIZE) (mapped 122 tiny_elf) tiny_phdr"
  by (simp add: segment_fits_def tiny_phdr_def dst_of_def hyp_consts mapped_def tiny_elf_def)

lemma tiny_elf_accepted: "elf_accepted tiny_ehdr"
  by (simp add: elf_accepted_def tiny_ehdr_def tiny_elf_def hyp_consts)

lemma simple_ram_law: "ram_law simple_api"
  by (simp add: ram_law_def simple_api_def)

theorem elf_loader_places_image_witness:
  "\<exists>h'. load_elf_into simple_api 122 (Some tiny_elf) (unat GUEST_RAM_SIZE) (host_start store_vm) = ok 0x40080000 h'
     \<and> map (sv_ram (vm h')) [0x80000 ..< 0x80004] = [0xAA, 0xBB, 0, 0]"
proof -
  have "phdrs (mapped 122 tiny_elf) (unat (e_phoff tiny_ehdr)) (unat (e_phnum tiny_ehdr)) = map Some [tiny_phdr]"
    using tiny_elf_header(2) by (simp add: tiny_ehdr_def)
  moreover have "tiny_elf \<noteq> []" "unat GUEST_RAM_SIZE \<le> 2 ^ 62" by (simp_all add: tiny_elf_def hyp_consts)
  ultimately obtain h' where h: "load_elf_into simple_api 122 (Some tiny_elf) (unat GUEST_RAM_SIZE) (host_start store_vm)
      = ok (e_entry tiny_ehdr) h'"
    "ram_of simple_api (vm h') = segment_image (mapped 122 tiny_elf) tiny_phdr (sv_ram store_vm)"
    using elf_loader_places_image [OF simple_ram_law _ _ tiny_elf_header(1) tiny_elf_accepted, of "unat GUEST_RAM_SIZE" "[tiny_phdr]"
      "host_start store_vm"] tiny_elf_fits
    by (auto simp: host_start_def simple_api_def)
  then have "sv_ram (vm h') = segment_image (mapped 122 tiny_elf) tiny_phdr (sv_ram store_vm)"
    by (simp add: simple_api_def)
  then show ?thesis using h(1)
    by (intro exI [of _ h']) (simp add: segment_image_def tiny_phdr_def tiny_ehdr_def dst_of_def hyp_consts
        mapped_def tiny_elf_def upt_rec)
qed


text \<open>The tiny image on a machine whose first exit is of an unknown kind.\<close>

definition stopping_api :: "simple_vm hv_api" where
  "stopping_api = simple_api\<lparr>exit_info := \<lambda>_. Other_reason 7\<rparr>"

lemma stopping_laws: "reg_file stopping_api sv_regs" "ram_law stopping_api"
  using simple_reg_file simple_ram_law by (simp_all add: reg_file_def ram_law_def stopping_api_def)

lemma stopping_HVC:
  "HVC stopping_api c h = ok (fst (snd (simple_hv (vm h) c))) (h\<lparr>vm := snd (snd (simple_hv (vm h) c))\<rparr>)"
  by (cases c) (simp_all add: HVC_def call_def stopping_api_def simple_api_def simple_hv_def Let_def)

lemma stopping_launches: "\<exists>h0. launch stopping_api 2 True 122 (Some tiny_elf) h = (Inr (), h0)"
proof -
  have "\<exists>k'. load_elf_into stopping_api 122 (Some tiny_elf) (unat GUEST_RAM_SIZE) k = ok 0x40080000 k'" for k
    using load_elf_into_ok [OF stopping_laws(2) _ _ tiny_elf_header(1) tiny_elf_accepted,
        of "unat GUEST_RAM_SIZE" "[tiny_phdr]" k] tiny_elf_header(2) tiny_elf_fits
    by (auto simp: tiny_ehdr_def tiny_elf_def hyp_consts)
  then obtain f where "load_elf_into stopping_api 122 (Some tiny_elf) (unat GUEST_RAM_SIZE) k = ok 0x40080000 (f k)" for k
    by metis
  then show ?thesis by (simp add: launch_def stopping_HVC simple_hv_def Let_def)
qed

lemma stopping_stops: "\<exists>h2. run_once stopping_api h = (Inl (Exit 1), h2)"
proof -
  have "exit_info stopping_api = (\<lambda>_. Other_reason 7)" by (simp add: stopping_api_def)
  then show ?thesis by (simp add: run_once_def stopping_HVC split_beta die_def Let_def)
qed


end
