(* ===== verification/Kicker.thy ===== *)
theory Kicker
  imports Launcher
begin

text \<open>
  The second thread of the launcher (\<open>kicker_thread\<close> of \<open>src/host/hvf_main.c\<close>). It sleeps and
  asks the framework, over and over, to end the run of the vCPU; the main thread of theories
  \<open>Hvf\<close> and \<open>Launcher\<close> goes through its loop meanwhile.

  The two threads share nothing but the framework, so they interleave at its calls: a schedule
  says how many turns of the kicker come before each call of the main thread. \<open>hv_vcpus_exit\<close> is
  a function of the framework, the parameter \<open>ex\<close>; what its documentation promises is the
  predicate \<open>vcpus_exit_law\<close>. The theory shows that the kicks cost rounds of the main loop and
  change nothing else.
\<close>


unbundle bit_operations_syntax


section \<open>The thread and the interleaving\<close>

text \<open>\<open>n\<close> turns of the thread's loop, each one request for the vCPU it was given.\<close>

fun kicker_thread :: "('v \<Rightarrow> 'v) \<Rightarrow> nat \<Rightarrow> 'v \<Rightarrow> 'v" where
  "kicker_thread ex 0 v = v"
| "kicker_thread ex (Suc n) v = kicker_thread ex n (ex v)"

text \<open>The turns before the next call; a schedule that is used up has no more of them.\<close>

fun turns :: "nat list \<Rightarrow> nat" where
  "turns [] = 0"
| "turns (k # ks) = k"

text \<open>The framework as the main thread finds it: the kicker has its turns before every call.\<close>

definition with_kicker :: "('v \<Rightarrow> 'v) \<Rightarrow> 'v hv_api \<Rightarrow> ('v \<times> nat list) hv_api" where
  "with_kicker ex a =
     \<lparr>hv = (\<lambda>(v, ks) c. let (r, x, w) = hv a (kicker_thread ex (turns ks) v) c in (r, x, (w, tl ks))),
      exit_info = (\<lambda>(v, _). exit_info a v), reason_no = reason_no a, ram_of = (\<lambda>(v, _). ram_of a v),
      ram_put = (\<lambda>(v, ks) m. (ram_put a v m, ks))\<rparr>"

definition main_with_kicker :: "nat list \<Rightarrow> 'v host \<Rightarrow> ('v \<times> nat list) host" where
  "main_with_kicker ks h = \<lparr>vm = (vm h, ks), uart = uart h, out = out h, err = err h, seen = seen h,
     vt_count = vt_count h\<rparr>"


section \<open>What the framework promises\<close>

text \<open>
  \<open>same\<close> relates framework states whose guest is in the same state, \<open>req\<close> says that a request
  to leave is outstanding and \<open>irq\<close> that the interrupt line is raised. A request changes nothing of
  the guest; with one outstanding the next run returns at once, as cancelled, without entering the
  guest, and the request is gone; without one, and with the line raised, what a run does depends on
  the guest alone, and so do the register calls.
\<close>

definition request_law :: "('v \<Rightarrow> 'v) \<Rightarrow> ('v \<Rightarrow> 'v \<Rightarrow> bool) \<Rightarrow> ('v \<Rightarrow> bool) \<Rightarrow> ('v \<Rightarrow> bool) \<Rightarrow> bool" where
  "request_law ex same req irq \<longleftrightarrow> (\<forall>v. same v (ex v) \<and> req (ex v) \<and> irq (ex v) = irq v)"

definition pending_law :: "'v hv_api \<Rightarrow> ('v \<Rightarrow> 'v \<Rightarrow> bool) \<Rightarrow> ('v \<Rightarrow> bool) \<Rightarrow> ('v \<Rightarrow> bool) \<Rightarrow> bool" where
  "pending_law a same req irq \<longleftrightarrow>
     (\<forall>v r x w. hv a v Set_pending_irq = (r, x, w) \<longrightarrow> same v w \<and> irq w \<and> req w = req v)"

definition register_law :: "'v hv_api \<Rightarrow> ('v \<Rightarrow> 'v \<Rightarrow> bool) \<Rightarrow> ('v \<Rightarrow> bool) \<Rightarrow> bool" where
  "register_law a same req \<longleftrightarrow>
     (\<forall>c v v' r x w r' x' w'. (\<exists>reg val. c = Get_reg reg \<or> c = Set_reg reg val) \<longrightarrow> same v v' \<longrightarrow>
        hv a v c = (r, x, w) \<longrightarrow> hv a v' c = (r', x', w') \<longrightarrow>
        r = r' \<and> x = x' \<and> same w w' \<and> req w = req v \<and> req w' = req v')"

definition cancel_law :: "'v hv_api \<Rightarrow> ('v \<Rightarrow> 'v \<Rightarrow> bool) \<Rightarrow> ('v \<Rightarrow> bool) \<Rightarrow> bool" where
  "cancel_law a same req \<longleftrightarrow>
     (\<forall>v r x w. req v \<longrightarrow> hv a v Vcpu_run = (r, x, w) \<longrightarrow>
        r = None \<and> same v w \<and> \<not> req w \<and> exit_info a w = Canceled)"

definition guest_law :: "'v hv_api \<Rightarrow> ('v \<Rightarrow> 'v \<Rightarrow> bool) \<Rightarrow> ('v \<Rightarrow> bool) \<Rightarrow> ('v \<Rightarrow> bool) \<Rightarrow> bool" where
  "guest_law a same req irq \<longleftrightarrow>
     (\<forall>v v' r x w r' x' w'. same v v' \<longrightarrow> \<not> req v \<longrightarrow> \<not> req v' \<longrightarrow> irq v \<longrightarrow> irq v' \<longrightarrow>
        hv a v Vcpu_run = (r, x, w) \<longrightarrow> hv a v' Vcpu_run = (r', x', w') \<longrightarrow>
        r = r' \<and> x = x' \<and> same w w' \<and> \<not> req w \<and> \<not> req w' \<and> exit_info a w = exit_info a w')"

definition vcpus_exit_law ::
    "'v hv_api \<Rightarrow> ('v \<Rightarrow> 'v) \<Rightarrow> ('v \<Rightarrow> 'v \<Rightarrow> bool) \<Rightarrow> ('v \<Rightarrow> bool) \<Rightarrow> ('v \<Rightarrow> bool) \<Rightarrow> bool" where
  "vcpus_exit_law a ex same req irq \<longleftrightarrow>
     equivp same \<and> (\<forall>v w. same v w \<longrightarrow> ram_of a v = ram_of a w) \<and> request_law ex same req irq
     \<and> pending_law a same req irq \<and> register_law a same req \<and> cancel_law a same req \<and> guest_law a same req irq"

text \<open>
  Requests that can still cost a round, and the relation between the launcher alone and the
  launcher with its kicker: the same guest, the same device, the same bytes on the console, the
  same messages but for the ones that announce the first exit of a kind, and at most \<open>b\<close> rounds to
  lose.
\<close>

definition debt :: "('v \<Rightarrow> bool) \<Rightarrow> 'v \<times> nat list \<Rightarrow> nat" where
  "debt req s = (if req (fst s) then 1 else 0) + sum_list (snd s)"

fun notable :: "host_msg \<Rightarrow> bool" where
  "notable (First_exit r) = False"
| "notable m = True"

definition agree ::
    "('v \<Rightarrow> 'v \<Rightarrow> bool) \<Rightarrow> ('v \<Rightarrow> bool) \<Rightarrow> nat \<Rightarrow> 'v host \<Rightarrow> ('v \<times> nat list) host \<Rightarrow> bool" where
  "agree same req b h k \<longleftrightarrow>
     same (vm h) (fst (vm k)) \<and> \<not> req (vm h) \<and> debt req (vm k) \<le> b
     \<and> uart k = uart h \<and> out k = out h \<and> vt_count k = vt_count h
     \<and> filter notable (err k) = filter notable (err h)"

definition agree_run ::
    "('v \<Rightarrow> 'v \<Rightarrow> bool) \<Rightarrow> ('v \<Rightarrow> bool) \<Rightarrow> nat \<Rightarrow> ('x, 'v) run \<Rightarrow> ('x, 'v \<times> nat list) run \<Rightarrow> bool" where
  "agree_run same req b r r' \<longleftrightarrow> fst r' = fst r \<and> agree same req b (snd r) (snd r')"

lemma agree_run_seq:
  "agree_run same req b r r' \<Longrightarrow>
     (\<And>x h k. agree same req b h k \<Longrightarrow> agree_run same req b (f x h) (g x k)) \<Longrightarrow>
     agree_run same req b (seq r f) (seq r' g)"
  by (auto simp: agree_run_def seq_def split: sum.split)

lemma agree_run_intros:
  "agree same req b h k \<Longrightarrow> agree_run same req b (ok x h) (ok x k)"
  "agree same req b h k \<Longrightarrow> agree_run same req b (die n m h) (die n m k)"
  "agree same req b h k \<Longrightarrow> agree_run same req b (Inl e, h) (Inl e, k)"
  by (auto simp: agree_run_def agree_def ok_def die_def)

lemma agree_say: "agree same req b h k \<Longrightarrow> agree same req b (say m h) (say m k)"
  by (simp add: agree_def say_def)

lemma agree_log_first:
  "agree same req b h k \<Longrightarrow> agree same req b (log_first r h) (log_first r k)"
  by (simp add: agree_def log_first_def say_def)

lemma agree_log_alone: "agree same req b h k \<Longrightarrow> agree same req b h (log_first r k)"
  by (simp add: agree_def log_first_def say_def)


section \<open>One framework call\<close>

text \<open>The laws of \<open>vcpus_exit_law\<close>, in the shape the proofs use.\<close>

lemma law_same:
  assumes "vcpus_exit_law a ex same req irq"
  shows "same v v" and "same u v \<Longrightarrow> same v u" and "same u v \<Longrightarrow> same v w \<Longrightarrow> same u w"
    and "same v w \<Longrightarrow> ram_of a v = ram_of a w"
  using assms unfolding vcpus_exit_law_def
  by (blast intro: equivp_reflp equivp_symp equivp_transp)+

lemma law_kick: "vcpus_exit_law a ex same req irq \<Longrightarrow> same v (ex v) \<and> req (ex v) \<and> irq (ex v) = irq v"
  by (simp add: vcpus_exit_law_def request_law_def)

lemma law_pending:
  "vcpus_exit_law a ex same req irq \<Longrightarrow> hv a v Set_pending_irq = (r, x, w) \<Longrightarrow> same v w \<and> irq w \<and> req w = req v"
  unfolding vcpus_exit_law_def pending_law_def by blast

lemma law_reg:
  assumes "vcpus_exit_law a ex same req irq" and "c = Get_reg reg \<or> c = Set_reg reg val" and "same v v'"
    and "hv a v c = (r, x, w)" and "hv a v' c = (r', x', w')"
  shows "r = r' \<and> x = x' \<and> same w w' \<and> req w = req v \<and> req w' = req v'"
  using assms unfolding vcpus_exit_law_def register_law_def by blast

lemma law_cancel:
  "vcpus_exit_law a ex same req irq \<Longrightarrow> req v \<Longrightarrow> hv a v Vcpu_run = (r, x, w) \<Longrightarrow>
     r = None \<and> same v w \<and> \<not> req w \<and> exit_info a w = Canceled"
  unfolding vcpus_exit_law_def cancel_law_def by blast

lemma law_run:
  assumes "vcpus_exit_law a ex same req irq" and "same v v'" and "\<not> req v" "\<not> req v'" and "irq v" "irq v'"
    and "hv a v Vcpu_run = (r, x, w)" and "hv a v' Vcpu_run = (r', x', w')"
  shows "r = r' \<and> x = x' \<and> same w w' \<and> \<not> req w \<and> \<not> req w' \<and> exit_info a w = exit_info a w'"
  using assms unfolding vcpus_exit_law_def guest_law_def by blast

lemma kicker_effect:
  assumes "vcpus_exit_law a ex same req irq"
  shows "same v (kicker_thread ex n v) \<and> irq (kicker_thread ex n v) = irq v
    \<and> req (kicker_thread ex n v) = (req v \<or> 0 < n)"
proof (induction n arbitrary: v)
  case 0
  then show ?case using law_same(1) [OF assms] by simp
next
  case (Suc n)
  show ?case using law_kick [OF assms, of v] Suc [of "ex v"] law_same(3) [OF assms, of v "ex v"] by simp
qed

text \<open>The kicks before a call are paid for by the schedule.\<close>

lemma debt_kicked:
  assumes "vcpus_exit_law a ex same req irq"
  shows "debt req (kicker_thread ex (turns ks) v, tl ks) \<le> debt req (v, ks)"
  using kicker_effect [OF assms, of v "turns ks"] by (cases ks) (auto simp: debt_def)

lemma with_kicker_call:
  obtains u r x w where "u = kicker_thread ex (turns (snd (vm k))) (fst (vm k))" and "hv a u c = (r, x, w)"
    and "call (with_kicker ex a) c k = (r, x, k\<lparr>vm := (w, tl (snd (vm k)))\<rparr>)"
  by (cases "hv a (kicker_thread ex (turns (snd (vm k))) (fst (vm k))) c")
    (auto simp: call_def with_kicker_def split_beta)

lemma reg_call_agree:
  assumes L: "vcpus_exit_law a ex same req irq" and A: "agree same req b h k"
    and c: "c = Get_reg reg \<or> c = Set_reg reg val"
  obtains r x h' k' where "call a c h = (r, x, h')" and "call (with_kicker ex a) c k = (r, x, k')"
    and "agree same req b h' k'"
proof -
  obtain u r' x' w' where u: "u = kicker_thread ex (turns (snd (vm k))) (fst (vm k))"
    and cu: "hv a u c = (r', x', w')"
    and k: "call (with_kicker ex a) c k = (r', x', k\<lparr>vm := (w', tl (snd (vm k)))\<rparr>)"
    by (rule with_kicker_call)
  obtain r x w where cv: "hv a (vm h) c = (r, x, w)" by (rule prod_cases3)
  have "same (vm h) u"
    using A kicker_effect [OF L] law_same(3) [OF L] unfolding agree_def u by blast
  then have *: "r = r' \<and> x = x' \<and> same w w' \<and> req w = req (vm h) \<and> req w' = req u"
    by (rule law_reg [OF L c _ cv cu])
  have "debt req (w', tl (snd (vm k))) \<le> b"
    using debt_kicked [OF L, of "snd (vm k)" "fst (vm k)"] * A by (simp add: debt_def agree_def u)
  then have "agree same req b (h\<lparr>vm := w\<rparr>) (k\<lparr>vm := (w', tl (snd (vm k)))\<rparr>)"
    using A * by (simp add: agree_def)
  then show ?thesis using that [of r x "h\<lparr>vm := w\<rparr>"] k * cv by (simp add: call_def)
qed

lemma reg_HVC_agree:
  assumes "vcpus_exit_law a ex same req irq" and "agree same req b h k"
    and "c = Get_reg reg \<or> c = Set_reg reg val"
  shows "agree_run same req b (HVC a c h) (HVC (with_kicker ex a) c k)"
  by (rule reg_call_agree [OF assms])
    (auto simp: HVC_def agree_run_intros split: option.split)


section \<open>The handler of an exit\<close>

lemma get_agree:
  "vcpus_exit_law a ex same req irq \<Longrightarrow> agree same req b h k \<Longrightarrow>
     agree_run same req b (HVC a (Get_reg r) h) (HVC (with_kicker ex a) (Get_reg r) k)"
  by (rule reg_HVC_agree) auto

lemma set_agree:
  "vcpus_exit_law a ex same req irq \<Longrightarrow> agree same req b h k \<Longrightarrow>
     agree_run same req b (HVC a (Set_reg r x) h) (HVC (with_kicker ex a) (Set_reg r x) k)"
  by (rule reg_HVC_agree) auto

lemma agree_ram:
  "vcpus_exit_law a ex same req irq \<Longrightarrow> agree same req b h k \<Longrightarrow>
     ram_of (with_kicker ex a) (vm k) = ram_of a (vm h)"
  using law_same(4) unfolding agree_def with_kicker_def by (fastforce split: prod.split)

lemmas agree_steps = agree_run_seq agree_run_intros get_agree set_agree agree_say

lemma abort_insn_agree:
  assumes L: "vcpus_exit_law a ex same req irq" and A: "agree same req b h k"
  shows "agree_run same req b (abort_insn a esr ipa h) (abort_insn (with_kicker ex a) esr ipa k)"
proof -
  have "agree_run same req b
      (if pc < GUEST_RAM_BASE \<or> pc + 4 > GUEST_RAM_BASE + GUEST_RAM_SIZE
       then ok None (say (Pc_outside pc) h)
       else let insn = ram_u32 (ram_of a (vm h)) (unat (pc - GUEST_RAM_BASE))
            in case decode_ldst insn of None \<Rightarrow> ok None (say (Cannot_decode insn pc ipa) h) | Some d \<Rightarrow> ok (Some d) h)
      (if pc < GUEST_RAM_BASE \<or> pc + 4 > GUEST_RAM_BASE + GUEST_RAM_SIZE
       then ok None (say (Pc_outside pc) k)
       else let insn = ram_u32 (ram_of (with_kicker ex a) (vm k)) (unat (pc - GUEST_RAM_BASE))
            in case decode_ldst insn of None \<Rightarrow> ok None (say (Cannot_decode insn pc ipa) k) | Some d \<Rightarrow> ok (Some d) k)"
    if "agree same req b h k" for h k pc
    using that by (simp add: agree_ram [OF L that] Let_def agree_run_intros agree_say split: option.split)
  then show ?thesis
    unfolding abort_insn_def Let_def using A by (auto intro!: agree_run_seq agree_run_intros get_agree [OF L])
qed

lemma mmio_access_agree:
  assumes L: "vcpus_exit_law a ex same req irq" and A: "agree same req b h k"
  shows "agree_run same req b (mmio_access a d off h) (mmio_access (with_kicker ex a) d off k)"
proof -
  have u: "uart k = uart h" using A by (simp add: agree_def)
  have p: "agree same req b h k \<Longrightarrow> agree_run same req b
      (case pl011_write off y (uart h) of (bs, u) \<Rightarrow> ok 0 (h\<lparr>out := out h @ bs, uart := u\<rparr>))
      (case pl011_write off y (uart k) of (bs, u) \<Rightarrow> ok 0 (k\<lparr>out := out k @ bs, uart := u\<rparr>))" for h k y
    by (auto simp: agree_run_def agree_def ok_def split: prod.split)
  show ?thesis
    unfolding mmio_access_def read_gpr_def write_gpr_def u
    using A by (auto intro!: agree_run_seq p agree_run_intros get_agree [OF L] set_agree [OF L])
qed

lemma base_writeback_agree:
  assumes L: "vcpus_exit_law a ex same req irq" and A: "agree same req b h k"
  shows "agree_run same req b (base_writeback a d h) (base_writeback (with_kicker ex a) d k)"
  unfolding base_writeback_def
  using A by (auto intro!: agree_run_seq agree_run_intros get_agree [OF L] set_agree [OF L])

lemma handle_data_abort_agree:
  assumes L: "vcpus_exit_law a ex same req irq" and A: "agree same req b h k"
  shows "agree_run same req b (handle_data_abort a esr ipa h) (handle_data_abort (with_kicker ex a) esr ipa k)"
  unfolding handle_data_abort_def using A
  by (auto intro!: agree_run_seq agree_run_intros abort_insn_agree [OF L] mmio_access_agree [OF L]
      base_writeback_agree [OF L] split: option.split)

lemma dump_state_agree:
  assumes L: "vcpus_exit_law a ex same req irq" and A: "agree same req b h k"
  shows "agree same req b (dump_state a esr ipa h) (dump_state (with_kicker ex a) esr ipa k)"
proof -
  obtain r x h1 k1 where 1: "call a (Get_reg HV_REG_PC) h = (r, x, h1)"
      "call (with_kicker ex a) (Get_reg HV_REG_PC) k = (r, x, k1)" and A1: "agree same req b h1 k1"
    by (rule reg_call_agree [OF L A, of _ HV_REG_PC]) auto
  obtain r2 y h2 k2 where 2: "call a (Get_reg (HV_REG_X 30)) h1 = (r2, y, h2)"
      "call (with_kicker ex a) (Get_reg (HV_REG_X 30)) k1 = (r2, y, k2)" and A2: "agree same req b h2 k2"
    by (rule reg_call_agree [OF L A1, of _ "HV_REG_X 30"]) auto
  obtain r3 z h3 k3 where 3: "call a (Get_reg HV_REG_CPSR) h2 = (r3, z, h3)"
      "call (with_kicker ex a) (Get_reg HV_REG_CPSR) k2 = (r3, z, k3)" and A3: "agree same req b h3 k3"
    by (rule reg_call_agree [OF L A2, of _ HV_REG_CPSR]) auto
  show ?thesis by (simp add: dump_state_def 1 2 3 Let_def agree_say A3)
qed


section \<open>One round of the main loop\<close>

text \<open>What follows the run, in terms of the exit.\<close>

definition after_run :: "'v hv_api \<Rightarrow> exit_reason \<Rightarrow> 'v host \<Rightarrow> (unit, 'v) run" where
  "after_run a i h = (case i of
     Exception esr ipa \<Rightarrow>
       let ec = drop_bit 26 esr AND 0x3f
       in if ec = 0x24 \<or> ec = 0x25 then
            seq (handle_data_abort a esr ipa h) (\<lambda>handled h.
              if handled then
                seq (HVC a (Get_reg HV_REG_PC) h) (\<lambda>pc h.
                seq (HVC a (Set_reg HV_REG_PC (pc + 4)) h) (\<lambda>_ h.
                ok () h))
              else (Inl (Exit 1), dump_state a esr ipa h))
          else (Inl (Exit 1), dump_state a esr ipa h)
   | Vtimer_activated \<Rightarrow>
       let h = h\<lparr>vt_count := vt_count h + 1\<rparr>
       in ok () (if vt_count h AND 0xFF = 1 then say (Vtimer_count (vt_count h)) h else h)
   | Canceled \<Rightarrow> ok () h
   | Other_reason r \<Rightarrow> die 1 (Unknown_reason r) h)"

lemma run_once_after:
  "call a Set_pending_irq h = (r, x, h1) \<Longrightarrow> call a Vcpu_run h1 = (None, y, h2) \<Longrightarrow>
     run_once a h = after_run a (exit_info a (vm h2)) (log_first (reason_no a (exit_info a (vm h2))) h2)"
  by (simp add: run_once_def HVC_def after_run_def Let_def)

lemma after_run_agree:
  assumes L: "vcpus_exit_law a ex same req irq" and A: "agree same req b h k"
  shows "agree_run same req b (after_run a i h) (after_run (with_kicker ex a) i k)"
proof (cases i)
  case (Exception esr ipa)
  then show ?thesis unfolding after_run_def Let_def using A
    by (auto intro!: agree_run_seq agree_run_intros get_agree [OF L] set_agree [OF L] dump_state_agree [OF L]
        handle_data_abort_agree [OF L])
next
  case Vtimer_activated
  then show ?thesis using A
    by (auto simp: after_run_def agree_def agree_run_def ok_def say_def Let_def)
qed (use A in \<open>auto simp: after_run_def intro!: agree_run_intros\<close>)

text \<open>The first two calls of a round with the kicker: the state \<open>u\<close> the run starts from.\<close>

lemma kicked_until_run:
  assumes L: "vcpus_exit_law a ex same req irq" and A: "agree same req b h k"
  obtains r1 x1 k1 u r x w ks where "call (with_kicker ex a) Set_pending_irq k = (r1, x1, k1)"
    and "call (with_kicker ex a) Vcpu_run k1 = (r, x, k\<lparr>vm := (w, ks)\<rparr>)" and "hv a u Vcpu_run = (r, x, w)"
    and "same (vm h) u" and "irq u" and "debt req (u, ks) \<le> b"
proof -
  let ?ks = "snd (vm k)"
  obtain u1 r1 x1 w1 where u1: "u1 = kicker_thread ex (turns ?ks) (fst (vm k))" and p1: "hv a u1 Set_pending_irq = (r1, x1, w1)"
    and c1: "call (with_kicker ex a) Set_pending_irq k = (r1, x1, k\<lparr>vm := (w1, tl ?ks)\<rparr>)" by (rule with_kicker_call)
  obtain u2 r2 x2 w2 where u2: "u2 = kicker_thread ex (turns (tl ?ks)) w1" and p2: "hv a u2 Vcpu_run = (r2, x2, w2)"
    and c2: "call (with_kicker ex a) Vcpu_run (k\<lparr>vm := (w1, tl ?ks)\<rparr>) = (r2, x2, k\<lparr>vm := (w2, tl (tl ?ks))\<rparr>)"
    by (rule with_kicker_call [where k = "k\<lparr>vm := (w1, tl ?ks)\<rparr>" and ex = ex and a = a and c = Vcpu_run]) (auto intro: that)
  have "same (vm h) u2" and "irq u2"
    using A kicker_effect [OF L, of "fst (vm k)" "turns ?ks"] law_pending [OF L p1] kicker_effect [OF L, of w1 "turns (tl ?ks)"]
      law_same(3) [OF L] unfolding agree_def u1 u2 by blast+
  moreover have "debt req (u2, tl (tl ?ks)) \<le> b"
    using debt_kicked [OF L, of ?ks "fst (vm k)"] debt_kicked [OF L, of "tl ?ks" w1] law_pending [OF L p1] A
    by (simp add: debt_def agree_def u1 u2)
  ultimately show ?thesis using that [OF c1 c2 p2] by blast
qed

text \<open>A round with a request before its run is cancelled and leaves everything as it was.\<close>

lemma cancelled_round:
  assumes L: "vcpus_exit_law a ex same req irq" and A: "agree same req b h k"
    and c: "call (with_kicker ex a) Set_pending_irq k = (r1, x1, k1)"
      "call (with_kicker ex a) Vcpu_run k1 = (r, x, k\<lparr>vm := (w, ks)\<rparr>)" "hv a u Vcpu_run = (r, x, w)"
    and u: "same (vm h) u" "req u" "debt req (u, ks) \<le> b"
  shows "\<exists>k'. run_once (with_kicker ex a) k = (Inr (), k') \<and> 0 < b \<and> agree same req (b - 1) h k'"
proof -
  have w: "r = None" "same u w" "\<not> req w" "exit_info a w = Canceled" using law_cancel [OF L u(2) c(3)] by auto
  have "agree same req (b - 1) h (k\<lparr>vm := (w, ks)\<rparr>)" "0 < b"
    using A u w law_same(3) [OF L u(1)] by (auto simp: agree_def debt_def)
  moreover have "run_once (with_kicker ex a) k = ok () (log_first (reason_no a Canceled) (k\<lparr>vm := (w, ks)\<rparr>))"
    using run_once_after [OF c(1), of x] c(2) w by (simp add: after_run_def with_kicker_def)
  ultimately show ?thesis using agree_log_alone by (fastforce simp: ok_def)
qed

text \<open>A round without one does what the launcher alone does.\<close>

lemma undisturbed_round:
  assumes L: "vcpus_exit_law a ex same req irq" and A: "agree same req b h k"
    and c: "call (with_kicker ex a) Set_pending_irq k = (r1, x1, k1)"
      "call (with_kicker ex a) Vcpu_run k1 = (r, x, k\<lparr>vm := (w, ks)\<rparr>)" "hv a u Vcpu_run = (r, x, w)"
    and u: "same (vm h) u" "\<not> req u" "irq u" "debt req (u, ks) \<le> b"
  shows "agree_run same req b (run_once a h) (run_once (with_kicker ex a) k)"
proof -
  obtain r0 x0 v1 where q1: "hv a (vm h) Set_pending_irq = (r0, x0, v1)" by (rule prod_cases3)
  obtain r' y v2 where q2: "hv a v1 Vcpu_run = (r', y, v2)" by (rule prod_cases3)
  have v1: "same (vm h) v1" "irq v1" "\<not> req v1" using law_pending [OF L q1] A by (auto simp: agree_def)
  then have *: "r' = r \<and> y = x \<and> same v2 w \<and> \<not> req v2 \<and> \<not> req w \<and> exit_info a v2 = exit_info a w"
    using law_run [OF L _ _ u(2) _ u(3) q2 c(3)] u(1) law_same [OF L] by blast
  have A2: "agree same req b (h\<lparr>vm := v2\<rparr>) (k\<lparr>vm := (w, ks)\<rparr>)"
    using A u * by (simp add: agree_def debt_def)
  show ?thesis
  proof (cases r)
    case None
    let ?i = "exit_info a w"
    have "run_once a h = after_run a ?i (log_first (reason_no a ?i) (h\<lparr>vm := v2\<rparr>))"
      using run_once_after [of a h r0 x0 "h\<lparr>vm := v1\<rparr>" y "h\<lparr>vm := v2\<rparr>"] q1 q2 * None by (simp add: call_def)
    moreover have "run_once (with_kicker ex a) k
        = after_run (with_kicker ex a) ?i (log_first (reason_no a ?i) (k\<lparr>vm := (w, ks)\<rparr>))"
      using run_once_after [OF c(1), of x] c(2) None by (simp add: with_kicker_def)
    ultimately show ?thesis using after_run_agree [OF L agree_log_first [OF A2]] by simp
  next
    case (Some e)
    then show ?thesis using c q1 q2 * A2
      by (simp add: run_once_def HVC_def call_def [of a] die_def agree_run_def agree_def)
  qed
qed

lemma run_once_agree:
  assumes L: "vcpus_exit_law a ex same req irq" and A: "agree same req b h k"
  shows "(\<exists>k'. run_once (with_kicker ex a) k = (Inr (), k') \<and> 0 < b \<and> agree same req (b - 1) h k')
    \<or> agree_run same req b (run_once a h) (run_once (with_kicker ex a) k)"
  by (rule kicked_until_run [OF L A])
    (metis cancelled_round [OF L A] undisturbed_round [OF L A])

lemma rounds_agree:
  assumes L: "vcpus_exit_law a ex same req irq" and "agree same req b h k" and "rounds n a h = Some h'"
  shows "\<exists>m k'. n \<le> m \<and> m \<le> n + b \<and> rounds m (with_kicker ex a) k = Some k' \<and> agree same req b h' k'"
  using assms(2,3)
proof (induction "n + b" arbitrary: n b h k rule: less_induct)
  case less
  show ?case
  proof (cases n)
    case 0
    then show ?thesis using less.prems by (intro exI [of _ "0::nat"]) auto
  next
    case (Suc n')
    consider k' where "run_once (with_kicker ex a) k = (Inr (), k')" "0 < b" "agree same req (b - 1) h k'"
      | "agree_run same req b (run_once a h) (run_once (with_kicker ex a) k)"
      using run_once_agree [OF L less.prems(1)] by blast
    then show ?thesis
    proof cases
      case 1
      then obtain m k'' where "n \<le> m" "m \<le> n + (b - 1)" "rounds m (with_kicker ex a) k' = Some k''" "agree same req (b - 1) h' k''"
        using less.hyps [of n "b - 1" h k'] less.prems(2) by auto
      then show ?thesis using 1 by (intro exI [of _ "Suc m"]) (auto simp: agree_def)
    next
      case 2
      obtain h1 where h1: "run_once a h = (Inr (), h1)" "rounds n' a h1 = Some h'"
        using less.prems(2) Suc by (auto split: prod.splits sum.splits)
      then obtain k1 where k1: "run_once (with_kicker ex a) k = (Inr (), k1)" "agree same req b h1 k1"
        using 2 by (cases "run_once (with_kicker ex a) k") (auto simp: agree_run_def)
      then obtain m k'' where "n' \<le> m" "m \<le> n' + b" "rounds m (with_kicker ex a) k1 = Some k''" "agree same req b h' k''"
        using less.hyps [of n' b h1 k1] h1(2) Suc by auto
      then show ?thesis using k1 Suc by (intro exI [of _ "Suc m"]) auto
    qed
  qed
qed

lemma kicked_rounds_agree:
  assumes L: "vcpus_exit_law a ex same req irq" and "agree same req b h k"
    and "rounds m (with_kicker ex a) k = Some k'"
  shows "\<exists>n h'. rounds n a h = Some h' \<and> agree same req b h' k'"
  using assms(2,3)
proof (induction m arbitrary: b h k)
  case 0
  then show ?case by (intro exI [of _ "0::nat"]) auto
next
  case (Suc m)
  obtain k1 where k1: "run_once (with_kicker ex a) k = (Inr (), k1)" "rounds m (with_kicker ex a) k1 = Some k'"
    using Suc.prems(2) by (auto split: prod.splits sum.splits)
  consider "agree same req (b - 1) h k1" | h1 where "run_once a h = (Inr (), h1)" "agree same req b h1 k1"
    using run_once_agree [OF L Suc.prems(1)] k1(1)
    by (cases "run_once a h") (auto simp: agree_run_def)
  then show ?case
  proof cases
    case 1
    then have "agree same req b h k1" by (auto simp: agree_def)
    then show ?thesis by (rule Suc.IH [OF _ k1(2)])
  next
    case 2
    then obtain n h' where "rounds n a h1 = Some h'" "agree same req b h' k'" using Suc.IH k1(2) by blast
    then show ?thesis using 2 by (intro exI [of _ "Suc n"]) auto
  qed
qed

lemma main_with_kicker_agree:
  "vcpus_exit_law a ex same req irq \<Longrightarrow> \<not> req (vm h) \<Longrightarrow> agree same req (sum_list ks) h (main_with_kicker ks h)"
  using law_same(1) by (simp add: agree_def main_with_kicker_def debt_def)

lemma stop_agree:
  assumes "vcpus_exit_law a ex same req irq" and "agree same req b h k"
    and "run_once (with_kicker ex a) k = (Inl e, k')"
  shows "\<exists>h'. run_once a h = (Inl e, h') \<and> agree same req b h' k'"
  using run_once_agree [OF assms(1,2)] assms(3) by (cases "run_once a h") (auto simp: agree_run_def)

text \<open>A round of the launcher alone that stops: the kicks are used up first, then it stops with them too.\<close>

lemma stops_agree:
  assumes L: "vcpus_exit_law a ex same req irq" and "agree same req b h k" and "run_once a h = (Inl e, h')"
  shows "\<exists>m k1 k'. rounds m (with_kicker ex a) k = Some k1 \<and> run_once (with_kicker ex a) k1 = (Inl e, k')
    \<and> agree same req b h' k'"
  using assms(2)
proof (induction b arbitrary: k)
  case 0
  then show ?case using run_once_agree [OF L 0] assms(3)
    by (cases "run_once (with_kicker ex a) k") (auto simp: agree_run_def intro!: exI [of _ "0::nat"])
next
  case (Suc b)
  consider k1 where "run_once (with_kicker ex a) k = (Inr (), k1)" "agree same req b h k1"
    | "agree_run same req (Suc b) (run_once a h) (run_once (with_kicker ex a) k)"
    using run_once_agree [OF L Suc.prems] by auto
  then show ?case
  proof cases
    case 1
    then obtain m k2 k' where "rounds m (with_kicker ex a) k1 = Some k2" "run_once (with_kicker ex a) k2 = (Inl e, k')"
      "agree same req b h' k'" using Suc.IH by blast
    then show ?thesis using 1 by (intro exI [of _ "Suc m"] exI [of _ k2] exI [of _ k']) (auto simp: agree_def)
  next
    case 2
    then show ?thesis using assms(3)
      by (cases "run_once (with_kicker ex a) k") (auto simp: agree_run_def intro!: exI [of _ "0::nat"])
  qed
qed

lemma rounds_add:
  "rounds m a h = Some k \<Longrightarrow> rounds (m + n) a h = rounds n a k"
  by (induction m arbitrary: h) (auto split: prod.splits sum.splits)


section \<open>The launcher with its kicker\<close>


text \<open>A framework whose guest stores the letter \<open>A\<close> to the console each time it runs.\<close>

record kick_vm =
  k_pc :: u64
  k_req :: bool
  k_irq :: bool
  k_exit :: exit_reason

definition kick_hv :: "kick_vm \<Rightarrow> hv_op \<Rightarrow> u32 option \<times> u64 \<times> kick_vm" where
  "kick_hv v c = (case c of
     Get_reg r \<Rightarrow> (None, if r = HV_REG_PC then k_pc v else 0x41, v)
   | Set_reg r x \<Rightarrow> (None, 0, if r = HV_REG_PC then v\<lparr>k_pc := x\<rparr> else v)
   | Set_pending_irq \<Rightarrow> (None, 0, v\<lparr>k_irq := True\<rparr>)
   | Vcpu_run \<Rightarrow> (None, 0, v\<lparr>k_req := False, k_irq := False,
       k_exit := if k_req v then Canceled else Exception 0x97810040 0x09000000\<rparr>)
   | _ \<Rightarrow> (None, 0, v))"

definition kick_api :: "kick_vm hv_api" where
  "kick_api = \<lparr>hv = kick_hv, exit_info = k_exit, reason_no = (\<lambda>i. if i = Canceled then 0 else 1),
     ram_of = (\<lambda>_ _. 0), ram_put = (\<lambda>v m. v)\<rparr>"

definition kick_request :: "kick_vm \<Rightarrow> kick_vm" where
  "kick_request v = v\<lparr>k_req := True\<rparr>"

definition kick_start :: "kick_vm host" where
  "kick_start = host_start \<lparr>k_pc = 0x40080000, k_req = False, k_irq = False, k_exit = Canceled\<rparr>"

lemma kick_api_law: "vcpus_exit_law kick_api kick_request (\<lambda>v w. k_pc v = k_pc w) k_req k_irq"
proof -
  have "register_law kick_api (\<lambda>v w. k_pc v = k_pc w) k_req"
    unfolding register_law_def by (auto simp: kick_api_def kick_hv_def split: if_splits)
  then show ?thesis
    by (auto simp: vcpus_exit_law_def request_law_def pending_law_def cancel_law_def guest_law_def kick_request_def
      kick_api_def kick_hv_def equivp_def fun_eq_iff)
qed

lemma kick_start_round:
  "\<exists>h'. rounds 1 kick_api kick_start = Some h' \<and> out h' = [0x41] \<and> k_pc (vm h') = 0x40080004"
  by (simp add: run_once_def HVC_def call_def kick_start_def host_start_def kick_api_def kick_hv_def log_first_def
      handle_data_abort_def abort_insn_def mmio_access_def base_writeback_def read_gpr_def in_pl011_range_def
      hyp_consts pl011_write_def mask_for_size_def Let_def say_def ok_def)


end
