(* ===== verification/Asm.thy ===== *)
theory Asm
  imports Machine
begin

text \<open>
  The part of A64 and of the GNU assembler that the files \<open>src/src/*.S\<close> use: an instruction set,
  the layout of a section (labels, \<open>.balign\<close>, \<open>.asciz\<close>, \<open>.skip\<close>), the resolution of symbols and
  of numeric labels, and a step function of the CPU at one exception level.

  Both builds run their assembly with the MMU off, so every data access is to Device memory:
  an unaligned access faults, and so does a stack access with a stack pointer that is not a
  multiple of 16. Memory is therefore one doubleword per aligned address. System registers and
  the trace of device accesses are those of the state \<open>hyp\<close>. A branch to an address outside the
  section calls code of another file; what that code does is a parameter of the step function.
\<close>


section \<open>Instructions\<close>

datatype reg = X nat | XZR | SP

datatype target = Sym string | Bwd nat | Fwd nat | Here

text \<open>
  One constructor per instruction form, over the type of branch targets: \<open>target\<close> in the source
  text, addresses once assembled. \<open>LDR_EQ r l\<close> is \<open>ldr r, =l\<close>, and \<open>BAL\<close> the unconditional \<open>b\<close>.
  The registers of \<open>STRW\<close>, \<open>LDRB_POST\<close> and \<open>CBZW\<close> are the 32-bit views of their operands.
\<close>

datatype 'l instr =
    ADD reg reg u64 | SUB reg reg u64 | MOV reg reg | MOVI reg u64
  | ANDI reg reg u64 | LSR reg reg nat | CMP reg reg | CMPI reg u64
  | ADR reg 'l | LDR_EQ reg 'l
  | STP reg reg reg u64 | LDP reg reg reg u64 | STRX reg reg u64 | LDRX reg reg u64
  | STRX_POST reg reg u64 | STRW reg reg | LDRB_POST reg reg u64
  | BAL 'l | BHS 'l | BEQ 'l | BHI 'l | CBZW reg 'l | CBNZ reg 'l | BL 'l | RET
  | MRS reg sysreg | MSR sysreg reg | DAIFSET u64 | DAIFCLR u64
  | ISB | WFE | WFI | ERET


section \<open>Assembling a section\<close>

datatype line = Lab string | Num nat | I "target instr" | Balign nat | Asciz string | Skip nat

fun size_at :: "nat \<Rightarrow> line \<Rightarrow> nat" where
  "size_at off (I i) = 4"
| "size_at off (Balign n) = (n - off mod n) mod n"
| "size_at off (Asciz s) = Suc (length s)"
| "size_at off (Skip n) = n"
| "size_at off (Lab s) = 0"
| "size_at off (Num n) = 0"

text \<open>The offset reached after some lines.\<close>

fun end_at :: "nat \<Rightarrow> line list \<Rightarrow> nat" where
  "end_at off [] = off"
| "end_at off (l # ls) = end_at (off + size_at off l) ls"

fun layout :: "nat \<Rightarrow> line list \<Rightarrow> (nat \<times> line) list" where
  "layout off [] = []"
| "layout off (l # ls) = (off, l) # layout (off + size_at off l) ls"

fun where_is :: "line \<Rightarrow> (nat \<times> line) list \<Rightarrow> nat option" where
  "where_is l [] = None"
| "where_is l ((off, l') # ls) = (if l' = l then Some off else where_is l ls)"

text \<open>The instruction at an offset, with the lines before it (nearest first) and after it.\<close>

fun fetch_from :: "nat \<Rightarrow> (nat \<times> line) list \<Rightarrow> line list \<Rightarrow> nat
    \<Rightarrow> ((nat \<times> line) list \<times> target instr \<times> line list) option" where
  "fetch_from off seen [] n = None"
| "fetch_from off seen (l # ls) n =
     (case l of
        I i \<Rightarrow> if n = off then Some (seen, i, ls) else fetch_from (off + 4) ((off, l) # seen) ls n
      | _ \<Rightarrow> fetch_from (off + size_at off l) ((off, l) # seen) ls n)"

record image =
  base :: u64
  source :: "line list"
  extern :: "string \<Rightarrow> u64"

definition symbol :: "image \<Rightarrow> string \<Rightarrow> u64" where
  "symbol im s = (case where_is (Lab s) (layout 0 (source im)) of
     Some off \<Rightarrow> base im + of_nat off | None \<Rightarrow> extern im s)"

text \<open>
  \<open>1b\<close> is the nearest definition of the local label before the instruction and \<open>1f\<close> the nearest
  after it; \<open>Here\<close> is the instruction's own address. A numeric label with no definition does not
  assemble; it is 0 here.
\<close>

fun resolve :: "image \<Rightarrow> nat \<Rightarrow> (nat \<times> line) list \<Rightarrow> line list \<Rightarrow> target \<Rightarrow> u64" where
  "resolve im off seen rest (Sym s) = symbol im s"
| "resolve im off seen rest (Bwd n) = (case where_is (Num n) seen of Some d \<Rightarrow> base im + of_nat d | None \<Rightarrow> 0)"
| "resolve im off seen rest (Fwd n) =
     (case where_is (Num n) (layout (off + 4) rest) of Some d \<Rightarrow> base im + of_nat d | None \<Rightarrow> 0)"
| "resolve im off seen rest Here = base im + of_nat off"

definition fetch_off :: "image \<Rightarrow> nat \<Rightarrow> u64 instr option" where
  "fetch_off im off =
     map_option (\<lambda>(seen, i, rest). map_instr (resolve im off seen rest) i) (fetch_from 0 [] (source im) off)"

definition fetch :: "image \<Rightarrow> u64 \<Rightarrow> u64 instr option" where
  "fetch im a = fetch_off im (unat (a - base im))"


section \<open>The CPU\<close>

record cpu =
  xr :: "nat \<Rightarrow> u64"
  spr :: u64
  pc :: u64
  flag_c :: bool
  flag_z :: bool
  daif :: u64
  mem :: "u64 \<Rightarrow> u64"
  hw :: hyp

text \<open>
  What a step leads to: the CPU goes on, leaves its exception level through \<open>eret\<close>, is parked for
  good or kept busy for ever by code of another file, or takes a fault.
\<close>

datatype status = Running cpu | Left cpu | Parked cpu | Hung | Faulted

record env =
  img :: image
  plat :: platform
  calls :: "u64 \<Rightarrow> (cpu \<Rightarrow> status) option"

fun val_of :: "reg \<Rightarrow> cpu \<Rightarrow> u64" where
  "val_of (X n) c = xr c n"
| "val_of XZR c = 0"
| "val_of SP c = spr c"

fun put_reg :: "reg \<Rightarrow> u64 \<Rightarrow> cpu \<Rightarrow> cpu" where
  "put_reg (X n) v c = c\<lparr>xr := (xr c)(n := v)\<rparr>"
| "put_reg XZR v c = c"
| "put_reg SP v c = c\<lparr>spr := v\<rparr>"

definition ram_addr :: "u64 \<Rightarrow> bool" where
  "ram_addr a \<longleftrightarrow> 0x40000000 \<le> a \<and> a < 0x60000000"

definition access_ok :: "reg \<Rightarrow> u64 \<Rightarrow> cpu \<Rightarrow> bool" where
  "access_ok rb a c \<longleftrightarrow> ram_addr a \<and> take_bit 3 a = 0 \<and> (rb = SP \<longrightarrow> take_bit 4 (spr c) = 0)"

definition byte_of :: "(u64 \<Rightarrow> u64) \<Rightarrow> u64 \<Rightarrow> u8" where
  "byte_of m a = ucast (drop_bit (8 * unat (take_bit 3 a)) (m (a - take_bit 3 a)))"

text \<open>System registers whose value is an input; the others hold what was last written.\<close>

definition volatile :: "sysreg \<Rightarrow> bool" where
  "volatile r \<longleftrightarrow> r \<in> {CNTFRQ_EL0, CNTPCT_EL0, CNTVCT_EL0, CurrentEL, ICC_IAR1_EL1}"

definition adv :: "cpu \<Rightarrow> cpu" where
  "adv c = c\<lparr>pc := pc c + 4\<rparr>"

definition goto :: "u64 \<Rightarrow> cpu \<Rightarrow> cpu" where
  "goto a c = c\<lparr>pc := a\<rparr>"

definition compare :: "u64 \<Rightarrow> u64 \<Rightarrow> cpu \<Rightarrow> cpu" where
  "compare a b c = c\<lparr>flag_c := (b \<le> a), flag_z := (a = b)\<rparr>"

text \<open>
  One instruction. \<open>wfe\<close>, \<open>wfi\<close> and \<open>isb\<close> change no register: a wait may end at any time. A word
  store is an access to a device; the sources never store a word to RAM.
\<close>

fun exec :: "platform \<Rightarrow> u64 instr \<Rightarrow> cpu \<Rightarrow> status" where
  "exec p (ADD rd rn v) c = Running (adv (put_reg rd (val_of rn c + v) c))"
| "exec p (SUB rd rn v) c = Running (adv (put_reg rd (val_of rn c - v) c))"
| "exec p (MOV rd rn) c = Running (adv (put_reg rd (val_of rn c) c))"
| "exec p (MOVI rd v) c = Running (adv (put_reg rd v c))"
| "exec p (ANDI rd rn v) c = Running (adv (put_reg rd (val_of rn c AND v) c))"
| "exec p (LSR rd rn n) c = Running (adv (put_reg rd (drop_bit n (val_of rn c)) c))"
| "exec p (CMP rn rm) c = Running (adv (compare (val_of rn c) (val_of rm c) c))"
| "exec p (CMPI rn v) c = Running (adv (compare (val_of rn c) v c))"
| "exec p (ADR rd a) c = Running (adv (put_reg rd a c))"
| "exec p (LDR_EQ rd a) c = Running (adv (put_reg rd a c))"
| "exec p (STP r1 r2 rb off) c = (let a = val_of rb c + off in
     if access_ok rb a c \<and> access_ok rb (a + 8) c
     then Running (adv (c\<lparr>mem := (mem c)(a := val_of r1 c, a + 8 := val_of r2 c)\<rparr>)) else Faulted)"
| "exec p (LDP r1 r2 rb off) c = (let a = val_of rb c + off in
     if access_ok rb a c \<and> access_ok rb (a + 8) c
     then Running (adv (put_reg r2 (mem c (a + 8)) (put_reg r1 (mem c a) c))) else Faulted)"
| "exec p (STRX r rb off) c = (let a = val_of rb c + off in
     if access_ok rb a c then Running (adv (c\<lparr>mem := (mem c)(a := val_of r c)\<rparr>)) else Faulted)"
| "exec p (LDRX r rb off) c = (let a = val_of rb c + off in
     if access_ok rb a c then Running (adv (put_reg r (mem c a) c)) else Faulted)"
| "exec p (STRX_POST r rb off) c = (let a = val_of rb c in
     if access_ok rb a c
     then Running (adv (put_reg rb (a + off) (c\<lparr>mem := (mem c)(a := val_of r c)\<rparr>))) else Faulted)"
| "exec p (STRW r rb) c = (let a = val_of rb c in
     if ram_addr a then Faulted
     else Running (adv (c\<lparr>hw := store W32 a (ucast (val_of r c)) (hw c)\<rparr>)))"
| "exec p (LDRB_POST r rb off) c = (let a = val_of rb c in
     if ram_addr a then Running (adv (put_reg r (ucast (byte_of (mem c) a)) (put_reg rb (a + off) c)))
     else Faulted)"
| "exec p (BAL a) c = Running (goto a c)"
| "exec p (BHS a) c = Running (if flag_c c then goto a c else adv c)"
| "exec p (BEQ a) c = Running (if flag_z c then goto a c else adv c)"
| "exec p (BHI a) c = Running (if flag_c c \<and> \<not> flag_z c then goto a c else adv c)"
| "exec p (CBZW r a) c = Running (if (ucast (val_of r c) :: u32) = 0 then goto a c else adv c)"
| "exec p (CBNZ r a) c = Running (if val_of r c \<noteq> 0 then goto a c else adv c)"
| "exec p (BL a) c = Running (goto a (put_reg (X 30) (pc c + 4) c))"
| "exec p RET c = Running (goto (xr c 30) c)"
| "exec p (MRS rd r) c =
     (if volatile r then (let (v, s) = mrs_dev p r (hw c) in Running (adv (put_reg rd v (c\<lparr>hw := s\<rparr>))))
      else Running (adv (put_reg rd (mrs r (hw c)) c)))"
| "exec p (MSR r rn) c = Running (adv (c\<lparr>hw := msr r (val_of rn c) (hw c)\<rparr>))"
| "exec p (DAIFSET v) c = Running (adv (c\<lparr>daif := daif c OR v\<rparr>))"
| "exec p (DAIFCLR v) c = Running (adv (c\<lparr>daif := daif c AND NOT v\<rparr>))"
| "exec p ISB c = Running (adv c)"
| "exec p WFE c = Running (adv c)"
| "exec p WFI c = Running (adv c)"
| "exec p ERET c = Left c"

definition step :: "env \<Rightarrow> cpu \<Rightarrow> status" where
  "step e c = (case fetch (img e) (pc c) of
     Some i \<Rightarrow> exec (plat e) i c
   | None \<Rightarrow> (case calls e (pc c) of Some f \<Rightarrow> f c | None \<Rightarrow> Faulted))"

fun steps :: "env \<Rightarrow> nat \<Rightarrow> cpu \<Rightarrow> status" where
  "steps e 0 c = Running c"
| "steps e (Suc n) c = (case step e c of Running c' \<Rightarrow> steps e n c' | r \<Rightarrow> r)"

section \<open>Running code\<close>

lemma steps_add: "steps e (m + n) c = (case steps e m c of Running c' \<Rightarrow> steps e n c' | r \<Rightarrow> r)"
  by (induction m arbitrary: c) (auto split: status.splits)

lemma steps_seq: "steps e m c = Running c' \<Longrightarrow> steps e n c' = r \<Longrightarrow> steps e (m + n) c = r"
  by (simp add: steps_add)

text \<open>A straight run of instructions at an address, and its effect without fetching.\<close>

definition block :: "image \<Rightarrow> u64 \<Rightarrow> u64 instr list \<Rightarrow> bool" where
  "block im a is \<longleftrightarrow> (\<forall>j < length is. fetch im (a + of_nat (4 * j)) = Some (is ! j))"

fun run_block :: "platform \<Rightarrow> u64 instr list \<Rightarrow> cpu \<Rightarrow> status" where
  "run_block p [] c = Running c"
| "run_block p (i # is) c = (case exec p i c of Running c' \<Rightarrow> run_block p is c' | r \<Rightarrow> r)"

fun straight :: "'l instr \<Rightarrow> bool" where
  "straight (BAL a) = False" | "straight (BHS a) = False" | "straight (BEQ a) = False"
| "straight (BHI a) = False" | "straight (CBZW r a) = False" | "straight (CBNZ r a) = False"
| "straight (BL a) = False" | "straight RET = False" | "straight i = True"

lemma put_reg_fields [simp]:
  "pc (put_reg r v c) = pc c" "mem (put_reg r v c) = mem c" "hw (put_reg r v c) = hw c"
  "daif (put_reg r v c) = daif c"
  by (cases r; simp)+

lemma adv_goto_pc [simp]: "pc (adv c) = pc c + 4" "pc (goto a c) = a"
  by (simp_all add: adv_def goto_def)

lemma straight_pc: "exec p i c = Running c' \<Longrightarrow> straight i \<Longrightarrow> pc c' = pc c + 4"
  by (cases i) (auto simp: Let_def compare_def split_beta split: if_splits)

lemma run_block_append:
  "run_block p (is @ js) c = (case run_block p is c of Running c' \<Rightarrow> run_block p js c' | r \<Rightarrow> r)"
  by (induction "is" arbitrary: c) (auto split: status.splits)

lemma block_Cons: "block im a (i # is) \<longleftrightarrow> fetch im a = Some i \<and> block im (a + 4) is"
  unfolding block_def by (subst All_less_Suc2 [of "length is", folded length_Cons [of i]]) (simp add: algebra_simps)

lemma block_append: "block im a (is @ js) \<longleftrightarrow> block im a is \<and> block im (a + of_nat (4 * length is)) js"
proof (induction "is" arbitrary: a)
  case Nil
  then show ?case by (simp add: block_def)
next
  case (Cons i "is")
  then show ?case by (simp add: block_Cons algebra_simps)
qed

lemma steps_block:
  assumes "block (img e) (pc c) is" and "list_all straight is"
  shows "steps e (length is) c = run_block (plat e) is c"
  using assms
proof (induction "is" arbitrary: c)
  case (Cons i "is")
  then show ?case
    by (auto simp: block_Cons step_def straight_pc split: status.splits)
qed simp

lemma steps_blockI:
  "block (img e) (pc c) is \<Longrightarrow> list_all straight is \<Longrightarrow> length is = n \<Longrightarrow> run_block (plat e) is c = r \<Longrightarrow>
    steps e n c = r"
  using steps_block by blast

lemma steps_numeral:
  "steps e (numeral n) c = (case step e c of Running c' \<Rightarrow> steps e (pred_numeral n) c' | r \<Rightarrow> r)"
  by (simp add: numeral_eq_Suc)

text \<open>Some number of steps.\<close>

definition runs :: "env \<Rightarrow> cpu \<Rightarrow> cpu \<Rightarrow> bool" where
  "runs e c c' \<longleftrightarrow> (\<exists>n. steps e n c = Running c')"

lemma runsI: "steps e n c = Running c' \<Longrightarrow> runs e c c'"
  by (auto simp: runs_def)

lemma runs_refl [simp]: "runs e c c"
  using runsI [of e 0 c] by simp

lemma runs_trans: "runs e c c' \<Longrightarrow> runs e c' c'' \<Longrightarrow> runs e c c''"
  unfolding runs_def using steps_seq by blast

lemma runs_step: "step e c = Running c' \<Longrightarrow> runs e c c'"
  by (rule runsI [of e 1]) simp

lemma runs_block:
  "block (img e) (pc c) is \<Longrightarrow> list_all straight is \<Longrightarrow> run_block (plat e) is c = Running c' \<Longrightarrow> runs e c c'"
  using steps_blockI runsI by blast

lemma run_block_pc:
  "run_block p is c = Running c' \<Longrightarrow> list_all straight is \<Longrightarrow> pc c' = pc c + of_nat (4 * length is)"
  by (induction "is" arbitrary: c) (auto simp: straight_pc algebra_simps split: status.splits)


section \<open>Where the assembler puts things\<close>

lemma end_at_append [simp]: "end_at off (ls @ ms) = end_at (end_at off ls) ms"
  by (induction ls arbitrary: off) auto

lemma end_at_code [simp]: "end_at off (map I is) = off + 4 * length is"
  by (induction "is" arbitrary: off) auto

lemma end_at_ge: "off \<le> end_at off ls"
proof (induction ls arbitrary: off)
  case (Cons l ls)
  show ?case using Cons.IH [of "off + size_at off l"] by simp
qed simp

lemma layout_append: "layout off (ls @ ms) = layout off ls @ layout (end_at off ls) ms"
  by (induction ls arbitrary: off) auto

lemma where_is_append:
  "l \<notin> set ls \<Longrightarrow> where_is l (layout off (ls @ ms)) = where_is l (layout (end_at off ls) ms)"
  by (induction ls arbitrary: off) auto

lemma symbol_at:
  "source im = pre @ Lab s # post \<Longrightarrow> Lab s \<notin> set pre \<Longrightarrow> symbol im s = base im + of_nat (end_at 0 pre)"
  by (simp add: symbol_def where_is_append)

lemma symbol_extern: "Lab s \<notin> set (source im) \<Longrightarrow> symbol im s = extern im s"
  using where_is_append [of "Lab s" "source im" 0 "[]"] by (simp add: symbol_def)

lemma fetch_from_skip:
  "end_at off pre \<le> n \<Longrightarrow>
    fetch_from off seen (pre @ ls) n = fetch_from (end_at off pre) (rev (layout off pre) @ seen) ls n"
proof (induction pre arbitrary: off seen)
  case (Cons l pre)
  have "off + 4 \<le> n" if "l = I i" for i
    using Cons.prems end_at_ge [of "off + 4" pre] that by simp
  then show ?case using Cons by (cases l) auto
qed simp

lemma fetch_from_code:
  "j < length is \<Longrightarrow> \<exists>seen' rest. fetch_from off seen (map I is @ ls) (off + 4 * j) = Some (seen', is ! j, rest)"
proof (induction "is" arbitrary: off seen j)
  case (Cons i "is")
  show ?case
  proof (cases j)
    case (Suc k)
    then show ?thesis using Cons.IH [of k "off + 4"] Cons.prems by (simp add: algebra_simps)
  qed simp
qed simp

lemma fetch_from_end: "end_at off ls \<le> n \<Longrightarrow> fetch_from off seen ls n = None"
  using fetch_from_skip [of off ls n seen "[]"] by simp

text \<open>Linking an instruction whose targets are all symbols.\<close>

definition link :: "image \<Rightarrow> target instr \<Rightarrow> u64 instr" where
  "link im = map_instr (\<lambda>t. case t of Sym s \<Rightarrow> symbol im s | _ \<Rightarrow> 0)"

fun is_sym :: "target \<Rightarrow> bool" where
  "is_sym (Sym s) = True" | "is_sym t = False"

lemma link_resolve:
  assumes "\<forall>t \<in> set_instr i. is_sym t"
  shows "map_instr (resolve im off seen rest) i = link im i"
  unfolding link_def
proof (rule instr.map_cong0)
  fix t
  assume "t \<in> set_instr i"
  with assms show "resolve im off seen rest t = (case t of Sym s \<Rightarrow> symbol im s | _ \<Rightarrow> 0)"
    by (cases t) auto
qed

lemma blockI:
  assumes src: "source im = pre @ map I is @ post" and sym: "\<forall>i \<in> set is. \<forall>t \<in> set_instr i. is_sym t"
    and fit: "end_at 0 pre + 4 * length is < 2 ^ 64"
  shows "block im (base im + of_nat (end_at 0 pre)) (map (link im) is)"
  unfolding block_def
proof (intro allI impI)
  fix j
  assume "j < length (map (link im) is)"
  then have j: "j < length is" by simp
  let ?n = "end_at 0 pre + 4 * j"
  obtain seen rest where "fetch_from 0 [] (source im) ?n = Some (seen, is ! j, rest)"
    using fetch_from_skip [of 0 pre ?n "[]"] fetch_from_code [OF j] src by fastforce
  moreover have "unat (of_nat ?n :: u64) = ?n"
    using fit j by (simp add: unsigned_of_nat take_bit_nat_eq_self del: of_nat_add)
  moreover have "\<forall>t \<in> set_instr (is ! j). is_sym t" using bspec [OF sym nth_mem [OF j]] .
  ultimately have "fetch im (base im + of_nat ?n) = Some (map (link im) is ! j)"
    using j by (simp add: fetch_def fetch_off_def link_resolve del: of_nat_add of_nat_mult)
  then show "fetch im (base im + of_nat (end_at 0 pre) + of_nat (4 * j)) = Some (map (link im) is ! j)"
    by (simp add: add.assoc)
qed

lemma fetch_outside: "end_at 0 (source im) \<le> unat (a - base im) \<Longrightarrow> fetch im a = None"
  by (simp add: fetch_def fetch_off_def fetch_from_end)

text \<open>The same by offsets, for a part of a longer source.\<close>

fun block_in :: "image \<Rightarrow> nat \<Rightarrow> (nat \<times> line) list \<Rightarrow> line list \<Rightarrow> nat \<Rightarrow> u64 instr list \<Rightarrow> bool" where
  "block_in im off seen ls n [] = True"
| "block_in im off seen ls n (i # is) =
     (map_option (\<lambda>(seen, i, rest). map_instr (resolve im n seen rest) i) (fetch_from off seen ls n) = Some i
      \<and> block_in im off seen ls (n + 4) is)"

lemma block_inD:
  assumes "source im = pre @ ls" and "end_at 0 pre = off"
  shows "block_in im off (rev (layout 0 pre)) ls n is \<Longrightarrow> off \<le> n \<Longrightarrow> n + 4 * length is < 2 ^ 64 \<Longrightarrow>
    block im (base im + of_nat n) is"
proof (induction "is" arbitrary: n)
  case (Cons i "is")
  have "unat (of_nat n :: u64) = n" using unat_of_nat [of n, where 'a = 64] Cons.prems(3) by simp
  moreover have "fetch_off im n = Some i"
    using Cons.prems(1,2) assms(2) by (simp add: fetch_off_def assms(1) fetch_from_skip)
  ultimately show ?case
    using Cons.IH [of "n + 4"] Cons.prems by (simp add: block_Cons fetch_def ac_simps)
qed (simp add: block_def)

fun is_label :: "nat \<times> line \<Rightarrow> bool" where
  "is_label (off, Lab s) = True"
| "is_label (off, l) = False"

lemma where_is_label: "where_is (Lab s) L = where_is (Lab s) (filter is_label L)"
proof (induction L)
  case (Cons x L)
  obtain off l where "x = (off, l)" by fastforce
  with Cons show ?case by (cases l) auto
qed simp


section \<open>Memory\<close>

lemma aligned_dvd: "take_bit n (a :: u64) = 0 \<longleftrightarrow> 2 ^ n dvd uint a"
  by (simp only: uint_0_iff [symmetric] unsigned_take_bit_eq take_bit_eq_0_iff)

lemma aligned_add [simp]:
  "n \<le> 64 \<Longrightarrow> take_bit n (a :: u64) = 0 \<Longrightarrow> take_bit n b = 0 \<Longrightarrow> take_bit n (a + b) = 0"
  using dvd_mod [OF dvd_add [of "2 ^ n" "uint a" "uint b"] le_imp_power_dvd [of n 64]]
  by (simp add: aligned_dvd uint_word_ariths)

lemma aligned_diff [simp]:
  "n \<le> 64 \<Longrightarrow> take_bit n (a :: u64) = 0 \<Longrightarrow> take_bit n b = 0 \<Longrightarrow> take_bit n (a - b) = 0"
  using dvd_mod [OF dvd_diff [of "2 ^ n" "uint a" "uint b"] le_imp_power_dvd [of n 64]]
  by (simp add: aligned_dvd uint_word_ariths)

lemma aligned_16_8: "take_bit 4 (a :: u64) = 0 \<Longrightarrow> take_bit 3 a = 0"
  using take_bit_take_bit [of 3 4 a] by simp

text \<open>A stack with room for \<open>n\<close> bytes below its pointer.\<close>

definition stack_room :: "u64 \<Rightarrow> u64 \<Rightarrow> bool" where
  "stack_room n sp \<longleftrightarrow> take_bit 4 sp = 0 \<and> 0x40000000 + n \<le> sp \<and> sp \<le> 0x60000000"

lemma stack_room_ram:
  assumes "stack_room n sp" and "n \<le> 0x10000" and "off < n"
  shows "ram_addr (sp - n + off)"
proof -
  have "unat (0x40000000 + n) = unat (0x40000000 :: u64) + unat n"
    using assms(2) by (intro unat_add_lem [THEN iffD1]) (simp add: word_le_nat_alt)
  moreover have "0x40000000 + unat n \<le> unat sp" "unat sp \<le> 0x60000000" "unat n \<le> 0x10000" "unat off < unat n"
    using assms calculation by (simp_all add: stack_room_def word_le_nat_alt word_less_nat_alt)
  moreover have "unat (sp - n) = unat sp - unat n"
    using calculation by (intro unat_sub) (simp add: word_le_nat_alt)
  moreover have "unat (sp - n + off) = unat (sp - n) + unat off"
    using calculation by (intro unat_add_lem [THEN iffD1]) simp
  ultimately show ?thesis unfolding ram_addr_def word_le_nat_alt word_less_nat_alt by (simp, linarith)
qed

end
