(* ===== verification/Start.thy ===== *)
theory Start
  imports Asm System
begin

text \<open>
  The entry stub (\<open>src/src/boot.S\<close>): every CPU but the first parks, the first sets its stack and
  vectors, clears the BSS and calls \<open>kmain\<close>. \<open>globals\<close> reads the hypervisor's global state out of
  memory by the layout of the C structs; over a cleared BSS it is the \<open>boot_state\<close> of the other
  theories.
\<close>


section \<open>The stub\<close>

definition boot_S :: "line list" where
  "boot_S =
    [Lab ''_start'',
     I (MRS (X 1) MPIDR_EL1),
     I (ANDI (X 1) (X 1) 0xff),
     I (CBNZ (X 1) (Sym ''park'')),
     I (LDR_EQ (X 1) (Sym ''__stack_top'')),
     I (MOV SP (X 1)),
     I (LDR_EQ (X 1) (Sym ''vector_table_el2'')),
     I (MSR VBAR_EL2 (X 1)),
     I ISB,
     I (LDR_EQ (X 1) (Sym ''__bss_start'')),
     I (LDR_EQ (X 2) (Sym ''__bss_end'')),
     Num 1,
     I (CMP (X 1) (X 2)),
     I (BHS (Fwd 2)),
     I (STRX_POST XZR (X 1) 8),
     I (BAL (Bwd 1)),
     Num 2,
     I (BL (Sym ''kmain'')),
     Lab ''park'',
     I WFE,
     I (BAL (Sym ''park''))]"

definition boot_env :: "platform \<Rightarrow> u64 \<Rightarrow> (string \<Rightarrow> u64) \<Rightarrow> env" where
  "boot_env p b ext = \<lparr>img = \<lparr>base = b, source = boot_S, extern = ext\<rparr>, plat = p, calls = (\<lambda>_. None)\<rparr>"

lemma boot_code:
  "block (img (boot_env p b ext)) b
    [MRS (X 1) MPIDR_EL1, ANDI (X 1) (X 1) 0xff, CBNZ (X 1) (b + 0x3C),
     LDR_EQ (X 1) (ext ''__stack_top''), MOV SP (X 1), LDR_EQ (X 1) (ext ''vector_table_el2''),
     MSR VBAR_EL2 (X 1), ISB, LDR_EQ (X 1) (ext ''__bss_start''), LDR_EQ (X 2) (ext ''__bss_end''),
     CMP (X 1) (X 2), BHS (b + 0x38), STRX_POST XZR (X 1) 8, BAL (b + 0x28),
     BL (ext ''kmain''), WFE, BAL (b + 0x3C)]"
  by (simp add: block_Cons block_def [of _ _ "[]"] boot_env_def fetch_def fetch_off_def boot_S_def symbol_def)

lemma boot_fetch:
  assumes im: "im = img (boot_env p b ext)"
  shows "fetch im b = Some (MRS (X 1) MPIDR_EL1)" "fetch im (b + 4) = Some (ANDI (X 1) (X 1) 0xff)"
    "fetch im (b + 8) = Some (CBNZ (X 1) (b + 0x3C))"
    "block im (b + 0xC) [LDR_EQ (X 1) (ext ''__stack_top''), MOV SP (X 1), LDR_EQ (X 1) (ext ''vector_table_el2''),
       MSR VBAR_EL2 (X 1), ISB, LDR_EQ (X 1) (ext ''__bss_start''), LDR_EQ (X 2) (ext ''__bss_end'')]"
    "fetch im (b + 0x28) = Some (CMP (X 1) (X 2))" "fetch im (b + 0x2C) = Some (BHS (b + 0x38))"
    "fetch im (b + 0x30) = Some (STRX_POST XZR (X 1) 8)" "fetch im (b + 0x34) = Some (BAL (b + 0x28))"
    "fetch im (b + 0x38) = Some (BL (ext ''kmain''))" "fetch im (b + 0x3C) = Some WFE"
    "fetch im (b + 0x40) = Some (BAL (b + 0x3C))"
  using boot_code [of p b ext] unfolding im [symmetric]
  by (simp_all add: block_Cons block_def [of _ _ "[]"] add.commute [of _ b])

lemma boot_env_plat [simp]: "plat (boot_env p b ext) = p"
  by (simp add: boot_env_def)


section \<open>Clearing the BSS\<close>

text \<open>Memory with the doublewords that begin in \<open>[lo, hi)\<close> cleared.\<close>

definition cleared :: "u64 \<Rightarrow> u64 \<Rightarrow> (u64 \<Rightarrow> u64) \<Rightarrow> u64 \<Rightarrow> u64" where
  "cleared lo hi m = (\<lambda>a. if take_bit 3 a = 0 \<and> lo \<le> a \<and> a < hi then 0 else m a)"

definition bss_ok :: "u64 \<Rightarrow> u64 \<Rightarrow> bool" where
  "bss_ok lo hi \<longleftrightarrow> take_bit 3 lo = 0 \<and> 0x40000000 \<le> lo \<and> hi \<le> 0x60000000"

lemma aligned_unat: "take_bit 3 (a :: u64) = 0 \<longleftrightarrow> unat a mod 8 = 0"
  using unat_take_bit [of 3 a] by (simp add: unat_eq_0 [symmetric])

lemma bss_count: "a < h \<Longrightarrow> (h - a + 7) div 8 = Suc ((h - (a + 8) + 7) div (8 :: nat))"
proof -
  assume "a < h"
  then consider "h - a + 7 = (h - (a + 8) + 7) + 8" | "h - (a + 8) = 0" "8 \<le> h - a + 7" "h - a + 7 < 16" by linarith
  then show ?thesis
  proof cases
    case 1
    have "(h - a + 7) div 8 = ((h - (a + 8) + 7) + 8) div 8" by (rule arg_cong [OF 1])
    also have "\<dots> = (h - (a + 8) + 7) div 8 + 1" by (rule div_add_self2) simp
    finally show ?thesis by (simp only: Suc_eq_plus1)
  next
    case 2
    then have "(h - a + 7) div 8 = 1" by (intro div_nat_eqI) simp_all
    then show ?thesis using 2(1) by simp
  qed
qed

lemma next_multiple: "a mod 8 = 0 \<Longrightarrow> x mod 8 = 0 \<Longrightarrow> a + 8 \<le> x \<longleftrightarrow> a \<le> x \<and> x \<noteq> (a :: nat)"
  by (auto simp: mod_eq_0_iff_dvd elim!: dvdE)

lemma bss_step:
  assumes "bss_ok a hi" and "a < hi"
  shows "bss_ok (a + 8) hi" and "access_ok (X 1) a c" and "unat (a + 8) = unat a + 8"
    and "cleared (a + 8) hi (m(a := 0)) = cleared a hi m"
proof -
  have n: "unat a < unat hi" "unat hi \<le> 0x60000000" "0x40000000 \<le> unat a"
    using assms by (simp_all add: bss_ok_def word_le_nat_alt word_less_nat_alt)
  show u: "unat (a + 8) = unat a + 8"
    using n unat_add_lem [of a 8] by simp
  show "bss_ok (a + 8) hi"
    using assms n u by (simp add: bss_ok_def word_le_nat_alt)
  show "access_ok (X 1) a c"
    using assms n by (simp add: access_ok_def ram_addr_def bss_ok_def word_less_nat_alt)
  show "cleared (a + 8) hi (m(a := 0)) = cleared a hi m"
  proof
    fix x
    have "a + 8 \<le> x \<longleftrightarrow> a \<le> x \<and> x \<noteq> a" if x: "take_bit 3 x = 0"
    proof -
      have "unat x mod 8 = 0" "unat a mod 8 = 0"
        using x assms(1) by (simp_all add: bss_ok_def aligned_unat)
      then show ?thesis
        using next_multiple [of "unat a" "unat x"] unfolding word_le_nat_alt word_unat_eq_iff u by auto
    qed
    then show "cleared (a + 8) hi (m(a := 0)) x = cleared a hi m x"
      using assms by (auto simp: cleared_def bss_ok_def)
  qed
qed

lemma bss_loop:
  assumes "pc c = b + 0x28" and "bss_ok (xr c 1) (xr c 2)"
  shows "\<exists>n c'. steps (boot_env p b ext) n c = Running c' \<and> n = 4 * ((unat (xr c 2) - unat (xr c 1) + 7) div 8) + 2
     \<and> pc c' = b + 0x38 \<and> mem c' = cleared (xr c 1) (xr c 2) (mem c) \<and> hw c' = hw c \<and> spr c' = spr c \<and> xr c' 0 = xr c 0"
  using assms
proof (induction "unat (xr c 2) - unat (xr c 1)" arbitrary: c rule: less_induct)
  case less
  let ?e = "boot_env p b ext" and ?a = "xr c 1" and ?h = "xr c 2"
  note code = boot_fetch [OF refl, of p b ext]
  show ?case
  proof (cases "?h \<le> ?a")
    case True
    have "steps ?e 2 c = Running (goto (b + 0x38) (adv (compare ?a ?h c)))"
      using True less.prems(1) code(5,6) by (simp add: steps_numeral step_def adv_def compare_def add.commute [of _ b])
    moreover have "cleared ?a ?h (mem c) = mem c"
      using True by (intro ext) (auto simp: cleared_def)
    moreover have "4 * ((unat ?h - unat ?a + 7) div 8) + 2 = 2" using True by (simp add: word_le_nat_alt)
    ultimately show ?thesis by (intro exI [of _ 2]) (simp add: adv_def goto_def compare_def)
  next
    case False
    then have lt: "?a < ?h" by simp
    note st = bss_step [OF less.prems(2) lt]
    let ?c = "goto (b + 0x28) (put_reg (X 1) (?a + 8) ((compare ?a ?h c)\<lparr>mem := (mem c)(?a := 0)\<rparr>))"
    have f: "xr ?c 1 = ?a + 8" "xr ?c 2 = ?h" "mem ?c = (mem c)(?a := 0)" "pc ?c = b + 0x28"
      "hw ?c = hw c" "spr ?c = spr c" "xr ?c 0 = xr c 0"
      by (simp_all add: goto_def compare_def)
    have "steps ?e 4 c = Running ?c"
      using False less.prems(1) code(5-8) st(2)
      by (simp add: steps_numeral step_def adv_def compare_def goto_def Let_def add.commute [of _ b])
    then have s4: "steps ?e (4 + n) c = steps ?e n ?c" for n by (simp add: steps_add)
    have dec: "unat ?h - unat (?a + 8) < unat ?h - unat ?a"
      using lt st(3) by (simp add: word_less_nat_alt)
    have k: "4 * ((unat ?h - unat ?a + 7) div 8) + 2 = 4 + (4 * ((unat ?h - unat (?a + 8) + 7) div 8) + 2)"
      using bss_count [of "unat ?a" "unat ?h"] lt unfolding st(3) word_less_nat_alt by simp
    obtain c' where c': "steps ?e (4 * ((unat ?h - unat (?a + 8) + 7) div 8) + 2) ?c = Running c'"
        "pc c' = b + 0x38" "mem c' = cleared ?a ?h (mem c)" "hw c' = hw c" "spr c' = spr c" "xr c' 0 = xr c 0"
      using less.hyps [of ?c] dec st(1) unfolding f st(4) by blast
    have "steps ?e (4 + (4 * ((unat ?h - unat (?a + 8) + 7) div 8) + 2)) c = Running c'"
      unfolding s4 by (rule c'(1))
    then show ?thesis unfolding k using c'(2-6) by blast
  qed
qed


section \<open>The first CPU and the others\<close>

lemma boot_prefix:
  assumes "pc c = b" and "mrs MPIDR_EL1 (hw c) AND 0xff = 0"
  shows "\<exists>c'. steps (boot_env p b ext) 10 c = Running c' \<and> pc c' = b + 0x28 \<and> xr c' 1 = ext ''__bss_start'' \<and>
     xr c' 2 = ext ''__bss_end'' \<and> xr c' 0 = xr c 0 \<and> spr c' = ext ''__stack_top'' \<and> mem c' = mem c \<and>
     hw c' = msr VBAR_EL2 (ext ''vector_table_el2'') (hw c)"
proof -
  let ?e = "boot_env p b ext"
  note code = boot_fetch [OF refl, of p b ext]
  let ?c = "c\<lparr>xr := (xr c)(1 := 0), pc := b + 0xC\<rparr>"
  have "steps ?e 3 c = Running ?c"
    using assms code(1-3)
    by (simp add: steps_numeral step_def adv_def volatile_def add.commute [of _ b])
  moreover have "block (img ?e) (pc ?c) [LDR_EQ (X 1) (ext ''__stack_top''), MOV SP (X 1),
      LDR_EQ (X 1) (ext ''vector_table_el2''), MSR VBAR_EL2 (X 1), ISB, LDR_EQ (X 1) (ext ''__bss_start''),
      LDR_EQ (X 2) (ext ''__bss_end'')]"
    using code(4) by simp
  from steps_blockI [OF this _ _ refl, of 7] have "\<exists>c'. steps ?e 7 ?c = Running c' \<and> pc c' = b + 0x28 \<and> xr c' 1 = ext ''__bss_start'' \<and>
     xr c' 2 = ext ''__bss_end'' \<and> xr c' 0 = xr c 0 \<and> spr c' = ext ''__stack_top'' \<and> mem c' = mem c \<and>
     hw c' = msr VBAR_EL2 (ext ''vector_table_el2'') (hw c)"
    by (simp add: adv_def add.commute [of _ b] del: steps.simps)
  ultimately show ?thesis using steps_seq [of ?e 3 c ?c 7] by auto
qed

lemma boot_primary:
  assumes "pc c = b" and "mrs MPIDR_EL1 (hw c) AND 0xff = 0" and "bss_ok (ext ''__bss_start'') (ext ''__bss_end'')"
  shows "\<exists>n c'. steps (boot_env p b ext) n c = Running c' \<and> pc c' = ext ''kmain'' \<and> xr c' 30 = b + 0x3C \<and>
     xr c' 0 = xr c 0 \<and> spr c' = ext ''__stack_top'' \<and>
     mem c' = cleared (ext ''__bss_start'') (ext ''__bss_end'') (mem c) \<and>
     hw c' = msr VBAR_EL2 (ext ''vector_table_el2'') (hw c)"
proof -
  let ?e = "boot_env p b ext"
  obtain c1 where c1: "steps ?e 10 c = Running c1" "pc c1 = b + 0x28" "xr c1 1 = ext ''__bss_start''"
      "xr c1 2 = ext ''__bss_end''" "xr c1 0 = xr c 0" "spr c1 = ext ''__stack_top''" "mem c1 = mem c"
      "hw c1 = msr VBAR_EL2 (ext ''vector_table_el2'') (hw c)"
    using boot_prefix [OF assms(1,2), of p ext] by blast
  obtain n c2 where c2: "steps ?e n c1 = Running c2" "pc c2 = b + 0x38" "hw c2 = hw c1" "spr c2 = spr c1"
      "mem c2 = cleared (ext ''__bss_start'') (ext ''__bss_end'') (mem c1)" "xr c2 0 = xr c1 0"
    using bss_loop [OF c1(2), of p ext] assms(3) unfolding c1(3,4) by blast
  have "steps ?e 1 c2 = Running (goto (ext ''kmain'') (put_reg (X 30) (b + 0x3C) c2))"
    using boot_fetch(9) [OF refl, of p b ext] c2(2) by (simp add: step_def add.commute [of _ b])
  from steps_seq [OF c1(1) steps_seq [OF c2(1) this]] show ?thesis
    using c1 c2 by (intro exI) (auto simp: goto_def)
qed

lemma boot_parks:
  assumes "pc c = b + 0x3C \<or> pc c = b + 0x40"
  shows "\<exists>c'. steps (boot_env p b ext) n c = Running c' \<and> (pc c' = b + 0x3C \<or> pc c' = b + 0x40) \<and>
     c'\<lparr>pc := pc c\<rparr> = c"
  using assms
proof (induction n arbitrary: c)
  case (Suc n)
  have st: "step (boot_env p b ext) c = Running (c\<lparr>pc := (if pc c = b + 0x3C then b + 0x40 else b + 0x3C)\<rparr>)"
    using Suc.prems boot_fetch(10,11) [OF refl, of p b ext]
    by (auto simp: step_def adv_def goto_def add.commute [of _ b])
  let ?c = "c\<lparr>pc := (if pc c = b + 0x3C then b + 0x40 else b + 0x3C)\<rparr>"
  have pre: "pc ?c = b + 0x3C \<or> pc ?c = b + 0x40" by simp
  obtain c' where "steps (boot_env p b ext) n ?c = Running c'" "pc c' = b + 0x3C \<or> pc c' = b + 0x40"
      "c'\<lparr>pc := pc ?c\<rparr> = ?c"
    using Suc.IH [of ?c, OF pre] by blast
  moreover have "c'\<lparr>pc := pc c\<rparr> = c" using arg_cong [OF calculation(3), of "\<lambda>d. d\<lparr>pc := pc c\<rparr>"] by simp
  ultimately show ?case using st by simp
qed simp

lemma boot_secondary:
  assumes "pc c = b" and "mrs MPIDR_EL1 (hw c) AND 0xff \<noteq> 0"
  shows "\<exists>c'. steps (boot_env p b ext) (n + 3) c = Running c' \<and> (pc c' = b + 0x3C \<or> pc c' = b + 0x40) \<and>
     mem c' = mem c \<and> hw c' = hw c"
proof -
  let ?c = "c\<lparr>xr := (xr c)(1 := mrs MPIDR_EL1 (hw c) AND 0xff), pc := b + 0x3C\<rparr>"
  have "steps (boot_env p b ext) 3 c = Running ?c"
    using assms boot_fetch(1-3) [OF refl, of p b ext]
    by (simp add: steps_numeral step_def adv_def goto_def volatile_def add.commute [of _ b])
  moreover obtain c' where "steps (boot_env p b ext) n ?c = Running c'" "pc c' = b + 0x3C \<or> pc c' = b + 0x40"
      "c'\<lparr>pc := pc ?c\<rparr> = ?c"
    using boot_parks [of ?c b p ext n] by auto
  moreover have "mem c' = mem c" "hw c' = hw c"
    using arg_cong [OF calculation(4), of mem] arg_cong [OF calculation(4), of hw] by simp_all
  ultimately show ?thesis using steps_seq [of "boot_env p b ext" 3 c ?c n] by (simp add: add.commute)
qed


section \<open>Global state in memory\<close>

text \<open>Reading the objects of the C files at an offset from their address, as the compiler lays them out.\<close>

definition word64 :: "(u64 \<Rightarrow> u64) \<Rightarrow> u64 \<Rightarrow> nat \<Rightarrow> u64" where
  "word64 m a k = m (a + of_nat k)"

definition word32 :: "(u64 \<Rightarrow> u64) \<Rightarrow> u64 \<Rightarrow> nat \<Rightarrow> u32" where
  "word32 m a k = ucast (drop_bit (8 * (k mod 8)) (m (a + of_nat (k - k mod 8))))"

definition byte8 :: "(u64 \<Rightarrow> u64) \<Rightarrow> u64 \<Rightarrow> nat \<Rightarrow> u8" where
  "byte8 m a k = ucast (drop_bit (8 * (k mod 8)) (m (a + of_nat (k - k mod 8))))"

definition exit_record_at :: "(u64 \<Rightarrow> u64) \<Rightarrow> u64 \<Rightarrow> nat \<Rightarrow> exit_record" where
  "exit_record_at m a k = \<lparr>e_esr = word64 m a k, e_elr = word64 m a (k + 8), e_far = word64 m a (k + 16),
     e_kind = word64 m a (k + 24), e_vcpu = word32 m a (k + 32)\<rparr>"

definition vgic_at :: "(u64 \<Rightarrow> u64) \<Rightarrow> u64 \<Rightarrow> nat \<Rightarrow> vgic" where
  "vgic_at m a k = \<lparr>pending_mask = word64 m a k, g_ctlr = word32 m a (k + 8), g_pmr = word32 m a (k + 12),
     g_bpr = word32 m a (k + 16), g_active = word32 m a (k + 20), phys_iar = word32 m a (k + 24),
     has_phys_iar = word32 m a (k + 28)\<rparr>"

definition guest_state_at :: "(u64 \<Rightarrow> u64) \<Rightarrow> u64 \<Rightarrow> nat \<Rightarrow> guest_state" where
  "guest_state_at m a k = \<lparr>gs_id = word32 m a k, gs_ticks = word64 m a (k + 8), gs_tick_period = word64 m a (k + 16)\<rparr>"

definition vcpu_at :: "(u64 \<Rightarrow> u64) \<Rightarrow> u64 \<Rightarrow> nat \<Rightarrow> vcpu" where
  "vcpu_at m a k = (let w = (\<lambda>i. word64 m a (k + 8 * i)) in
     \<lparr>v_x = map w [0..<31], v_elr_el2 = w 31, v_spsr_el2 = w 32, v_vttbr_el2 = w 33, v_hcr_el2 = w 34,
      v_cntv_cval = w 35, v_cntv_ctl = w 36, v_sctlr_el1 = w 37, v_ttbr0_el1 = w 38, v_ttbr1_el1 = w 39,
      v_tcr_el1 = w 40, v_mair_el1 = w 41, v_amair_el1 = w 42, v_vbar_el1 = w 43, v_contextidr_el1 = w 44,
      v_cpacr_el1 = w 45, v_elr_el1 = w 46, v_spsr_el1 = w 47, v_sp_el1 = w 48, v_sp_el0 = w 49,
      v_tpidr_el0 = w 50, v_tpidrro_el0 = w 51, v_tpidr_el1 = w 52, v_esr_el1 = w 53, v_far_el1 = w 54,
      v_par_el1 = w 55, v_id = word32 m a (k + 448), v_vmid = word32 m a (k + 452)\<rparr>)"

definition table_at :: "(u64 \<Rightarrow> u64) \<Rightarrow> u64 \<Rightarrow> u64 list list" where
  "table_at m a = map (\<lambda>v. map (\<lambda>i. word64 m a (4096 * v + 8 * i)) [0..<512]) [0..<2]"

text \<open>The hypervisor as it stands in memory when \<open>kmain\<close> is entered; the trace begins there.\<close>

definition globals :: "platform \<Rightarrow> (string \<Rightarrow> u64) \<Rightarrow> (u64 \<Rightarrow> u64) \<Rightarrow> (sysreg \<Rightarrow> u64) \<Rightarrow> hyp" where
  "globals p ext m regs =
     \<lparr>sys = regs, io = [],
      exit_ring = map (\<lambda>i. exit_record_at m (ext ''exit_ring'') (40 * i)) [0..<32],
      exit_ring_head = word32 m (ext ''exit_ring_head'') 0, exit_ring_count = word64 m (ext ''exit_ring_count'') 0,
      vgics = map (\<lambda>i. vgic_at m (ext ''vgics'') (32 * i)) [0..<4],
      vcpus = map (\<lambda>i. vcpu_at m (ext ''vcpus'') (456 * i)) [0..<unat (nvcpu p)],
      current = word32 m (ext ''current'') 0,
      guest_states = map (\<lambda>i. guest_state_at m (addr_guest_states p) (24 * i)) [0..<unat (nvcpu p)],
      s2_l1 = table_at m (addr_s2_l1 p), s2_l2_low = table_at m (addr_s2_l2_low p),
      s2_l3_gic = table_at m (addr_s2_l3_gic p), s2_l3_priv = table_at m (addr_s2_l3_priv p),
      vm_priv_page = map (\<lambda>v. map (\<lambda>i. byte8 m (addr_vm_priv_page p) (4096 * v + i)) [0..<4096]) [0..<2],
      htimer_ticks = word64 m (ext ''htimer_ticks'') 0, vtimer_ticks = word64 m (ext ''vtimer_ticks'') 0,
      other_ticks = word64 m (ext ''other_ticks'') 0\<rparr>"

text \<open>
  Where the linker put them: objects and their sizes, all inside the BSS and aligned. A word that is
  only 4 bytes long is listed with the doubleword it begins.
\<close>

definition bss_objects :: "platform \<Rightarrow> (string \<Rightarrow> u64) \<Rightarrow> (u64 \<times> nat) list" where
  "bss_objects p ext =
     [(ext ''exit_ring'', 1280), (ext ''exit_ring_head'', 8), (ext ''exit_ring_count'', 8), (ext ''vgics'', 128),
      (ext ''vcpus'', 456 * unat (nvcpu p)), (ext ''current'', 8), (addr_guest_states p, 24 * unat (nvcpu p)),
      (addr_s2_l1 p, 8192), (addr_s2_l2_low p, 8192), (addr_s2_l3_gic p, 8192), (addr_s2_l3_priv p, 8192),
      (addr_vm_priv_page p, 8192), (ext ''htimer_ticks'', 8), (ext ''vtimer_ticks'', 8), (ext ''other_ticks'', 8)]"

definition in_bss :: "u64 \<Rightarrow> u64 \<Rightarrow> u64 \<times> nat \<Rightarrow> bool" where
  "in_bss lo hi ob \<longleftrightarrow> take_bit 3 (fst ob) = 0 \<and> lo \<le> fst ob \<and> unat (fst ob) + snd ob \<le> unat hi"

lemma cleared_word:
  assumes "in_bss lo hi (a, n)" and "k < n" and "k mod 8 = 0"
  shows "cleared lo hi m (a + of_nat k) = 0"
proof -
  have b: "take_bit 3 a = 0" "lo \<le> a" "unat a + n \<le> unat hi" using assms(1) by (simp_all add: in_bss_def)
  have "unat hi < 2 ^ 64" using unsigned_less [of hi] by simp
  moreover have "unat a + k < unat hi" using b(3) assms(2) by auto
  ultimately have k: "unat a + k < unat hi" "unat hi < 2 ^ 64" by simp_all
  then have "unat (of_nat k :: u64) = k" using unat_of_nat [of k, where 'a = 64] by simp
  then have u: "unat (a + of_nat k) = unat a + k" using unat_add_lem [of a "of_nat k"] k by simp
  have "take_bit 3 (a + of_nat k) = 0" using b(1) assms(3) by (simp add: aligned_unat u mod_add_eq [symmetric])
  then show ?thesis using b u k by (simp add: cleared_def word_le_nat_alt word_less_nat_alt)
qed

lemma cleared_reads:
  assumes "in_bss lo hi (a, n)" and "k < n"
  shows "k mod 8 = 0 \<Longrightarrow> word64 (cleared lo hi m) a k = 0"
    and "word32 (cleared lo hi m) a k = 0" and "byte8 (cleared lo hi m) a k = 0"
proof -
  show "k mod 8 = 0 \<Longrightarrow> word64 (cleared lo hi m) a k = 0"
    using cleared_word [OF assms(1)] assms(2) by (simp add: word64_def)
  have "(k - k mod 8) mod 8 = 0" unfolding minus_mod_eq_mult_div by (rule mod_mult_self1_is_0)
  moreover have "k - k mod 8 < n" by (rule le_less_trans [OF diff_le_self assms(2)])
  ultimately have z: "cleared lo hi m (a + of_nat (k - k mod 8)) = 0" by (intro cleared_word [OF assms(1)])
  show "word32 (cleared lo hi m) a k = 0" and "byte8 (cleared lo hi m) a k = 0"
    unfolding word32_def byte8_def z by simp_all
qed

lemma cleared_globals:
  assumes "\<forall>ob \<in> set (bss_objects p ext). in_bss lo hi ob"
  shows "globals p ext (cleared lo hi m) regs = boot_state p regs"
proof -
  note ob = assms [unfolded bss_objects_def, simplified]
  let ?m = "cleared lo hi m"
  have tab: "table_at ?m a = replicate 2 (replicate 512 0)" if "in_bss lo hi (a, 8192)" for a
    unfolding table_at_def by (intro nth_equalityI) (auto simp: cleared_reads [OF that])
  have pages: "map (\<lambda>v. map (\<lambda>i. byte8 ?m a (4096 * v + i)) [0..<4096]) [0..<2] = replicate 2 (replicate 4096 0)"
    if "in_bss lo hi (a, 8192)" for a
    by (intro nth_equalityI) (auto simp: cleared_reads [OF that])
  have ring: "map (\<lambda>i. exit_record_at ?m a (40 * i)) [0..<32] =
      replicate 32 \<lparr>e_esr = 0, e_elr = 0, e_far = 0, e_kind = 0, e_vcpu = 0\<rparr>" if "in_bss lo hi (a, 1280)" for a
    by (intro nth_equalityI) (auto simp: exit_record_at_def cleared_reads [OF that])
  have vg: "map (\<lambda>i. vgic_at ?m a (32 * i)) [0..<4] = replicate 4 zero_vgic" if "in_bss lo hi (a, 128)" for a
    by (intro nth_equalityI) (auto simp: vgic_at_def zero_vgic_def cleared_reads [OF that])
  have vc: "map (\<lambda>i. vcpu_at ?m a (456 * i)) [0..<n] = replicate n zero_vcpu" if "in_bss lo hi (a, 456 * n)" for a n
  proof (intro nth_equalityI)
    fix i
    assume "i < length (map (\<lambda>i. vcpu_at ?m a (456 * i)) [0..<n])"
    then have i: "456 * i + 456 \<le> 456 * n" by simp
    have w: "word64 ?m a (456 * i + j) = 0" if "j < 456" "j mod 8 = 0" for j
    proof (rule cleared_reads(1) [OF \<open>in_bss lo hi (a, 456 * n)\<close>])
      show "456 * i + j < 456 * n" using i that(1) by linarith
      show "(456 * i + j) mod 8 = 0" using that(2) mod_mult_self2 [of j 8 "57 * i"] by (simp add: ac_simps)
    qed
    then have "map (\<lambda>j. word64 ?m a (456 * i + 8 * j)) [0..<31] = replicate 31 0"
      by (intro nth_equalityI) auto
    then show "map (\<lambda>i. vcpu_at ?m a (456 * i)) [0..<n] ! i = replicate n zero_vcpu ! i"
      using i w cleared_reads(2) [OF that] by (simp add: vcpu_at_def zero_vcpu_def Let_def del: map_eq_conv)
  qed simp
  have gs: "map (\<lambda>i. guest_state_at ?m a (24 * i)) [0..<n] =
      replicate n \<lparr>gs_id = 0, gs_ticks = 0, gs_tick_period = 0\<rparr>" if "in_bss lo hi (a, 24 * n)" for a n
    by (intro nth_equalityI) (auto simp: guest_state_at_def cleared_reads [OF that])
  have z: "word64 ?m a 0 = 0" "word32 ?m a 0 = 0" if "in_bss lo hi (a, 8)" for a
    by (simp_all add: cleared_reads [OF that])
  show ?thesis
    unfolding globals_def boot_state_def using ob by (simp only: ring vg vc gs tab pages z)
qed


section \<open>Properties\<close>

text \<open>
  C13. The entry stub starts the hypervisor. On the CPU whose affinity number is 0 the loop over the BSS
  ends, and \<open>kmain\<close> is called on the hypervisor's stack with the EL2 vectors installed, with every
  doubleword of the BSS cleared and nothing else in memory changed; read by the layout of the
  C structs, that memory is a state from which \<open>kmain\<close> enters the first guest. Every other CPU
  parks for good and changes neither memory nor a device.
\<close>

theorem entry_starts_kmain:
  assumes "pc c = b" and "bss_ok (ext ''__bss_start'') (ext ''__bss_end'')"
    and "\<forall>ob \<in> set (bss_objects p ext). in_bss (ext ''__bss_start'') (ext ''__bss_end'') ob"
    and "pl011_console p" and "nvcpu p = 1 \<or> nvcpu p = 2"
  shows "if mrs MPIDR_EL1 (hw c) AND 0xff = 0
    then \<exists>n c' s. steps (boot_env p b ext) n c = Running c' \<and> pc c' = ext ''kmain'' \<and>
      spr c' = ext ''__stack_top'' \<and> sys (hw c') VBAR_EL2 = ext ''vector_table_el2'' \<and>
      mem c' = cleared (ext ''__bss_start'') (ext ''__bss_end'') (mem c) \<and>
      kmain p (globals p ext (mem c') (sys (hw c'))) = Some (Ret [LINUX_DTB_IPA, 0, 0, 0], s) \<and>
      reachable p (In_guest [] s)
    else \<forall>n. \<exists>c'. steps (boot_env p b ext) (n + 3) c = Running c' \<and> (pc c' = b + 0x3C \<or> pc c' = b + 0x40) \<and>
      mem c' = mem c \<and> hw c' = hw c"
proof (cases "mrs MPIDR_EL1 (hw c) AND 0xff = 0")
  case True
  obtain n c' where c': "steps (boot_env p b ext) n c = Running c'" "pc c' = ext ''kmain''"
      "spr c' = ext ''__stack_top''" "mem c' = cleared (ext ''__bss_start'') (ext ''__bss_end'') (mem c)"
      "hw c' = msr VBAR_EL2 (ext ''vector_table_el2'') (hw c)"
    using boot_primary [where p = p, OF assms(1) True assms(2)] by blast
  obtain s where k: "kmain p (boot_state p (sys (hw c'))) = Some (Ret [LINUX_DTB_IPA, 0, 0, 0], s)"
    using pl011_console.kmain_returns [OF assms(4,5)] by blast
  moreover have "globals p ext (mem c') (sys (hw c')) = boot_state p (sys (hw c'))"
    unfolding c'(4) by (rule cleared_globals [OF assms(3)])
  moreover have "sys (hw c') VBAR_EL2 = ext ''vector_table_el2''" by (simp add: c'(5) msr_def)
  ultimately show ?thesis
    using True c'(1-4) reachable.boot [OF k] by (simp, intro exI [of _ n] exI [of _ c']) auto
next
  case False
  then show ?thesis using boot_secondary [OF assms(1) False] by auto
qed

definition demo_symbols :: "string \<Rightarrow> u64" where
  "demo_symbols s = (if s = ''__bss_start'' then 0x40100000 else if s = ''__bss_end'' then 0x40110000
     else if s = ''vcpus'' then 0x4010B000 else if s = ''exit_ring'' then 0x4010C000
     else if s = ''vgics'' then 0x4010D000 else if s = ''__stack_top'' then 0x40114000
     else if s = ''vector_table_el2'' then 0x40081000 else if s = ''kmain'' then 0x40082000 else 0x4010E000)"

theorem entry_starts_kmain_witness:
  "\<exists>n c c'. pc c = 0x40080000 \<and> mem c 0x40100008 = 7 \<and>
     steps (boot_env (board 2 0) 0x40080000 demo_symbols) n c = Running c' \<and> pc c' = 0x40082000 \<and>
     mem c' 0x40100008 = 0 \<and> mem c' 0x40110000 = 7"
proof -
  let ?c = "\<lparr>xr = (\<lambda>_. 3), spr = 0, pc = 0x40080000, flag_c = False, flag_z = False, daif = 0,
    mem = (\<lambda>_. 7), hw = boot_state (board 2 0) (\<lambda>_. 0)\<rparr>"
  obtain n c' where c': "steps (boot_env (board 2 0) 0x40080000 demo_symbols) n ?c = Running c'" "pc c' = 0x40082000"
      "mem c' = cleared 0x40100000 0x40110000 (\<lambda>_. 7)"
    using entry_starts_kmain [of ?c "0x40080000" demo_symbols "board 2 0", OF _ _ _ board_console.pl011_console_axioms]
    by (auto simp: demo_symbols_def bss_ok_def bss_objects_def in_bss_def mrs_def)
  then have "mem c' 0x40100008 = 0" "mem c' 0x40110000 = 7" by (simp_all add: cleared_def)
  with c'(1,2) show ?thesis by (intro exI [of _ n] exI [of _ ?c] exI [of _ c']) simp
qed

end
