(* ===== verification/Vectors.thy ===== *)
theory Vectors
  imports Asm System
begin

text \<open>
  The EL2 exception vectors (\<open>src/src/vectors.S\<close>): the frame the entry code builds on the stack is the
  \<open>trap_frame\<close> of \<open>exceptions.h\<close>, entry \<open>k\<close> sits where the hardware looks for vector \<open>k\<close>, and the
  way in, the C dispatcher and the way out together do what \<open>handle_exception\<close> does to the
  guest's registers. \<open>save_code\<close> and \<open>restore_code\<close> are the two macros with the system registers
  left open, since the guest's vectors repeat them.
\<close>


section \<open>Frames on the stack\<close>

fun put_words :: "u64 \<Rightarrow> u64 list \<Rightarrow> (u64 \<Rightarrow> u64) \<Rightarrow> u64 \<Rightarrow> u64" where
  "put_words b [] m = m"
| "put_words b (w # ws) m = put_words (b + 8) ws (m(b := w))"

text \<open>\<open>struct trap_frame\<close> at an address.\<close>

definition frame_at :: "(u64 \<Rightarrow> u64) \<Rightarrow> u64 \<Rightarrow> trap_frame" where
  "frame_at m b = \<lparr>tf_x = map (\<lambda>i. m (b + 8 * of_nat i)) [0..<31],
     tf_elr_el2 = m (b + 0xF8), tf_spsr_el2 = m (b + 0x100)\<rparr>"

definition put_frame :: "u64 \<Rightarrow> trap_frame \<Rightarrow> (u64 \<Rightarrow> u64) \<Rightarrow> u64 \<Rightarrow> u64" where
  "put_frame b tf m = put_words b (tf_x tf @ [tf_elr_el2 tf, tf_spsr_el2 tf]) m"

text \<open>The registers of the interrupted code.\<close>

definition cpu_frame :: "sysreg \<Rightarrow> sysreg \<Rightarrow> cpu \<Rightarrow> trap_frame" where
  "cpu_frame er sr c = \<lparr>tf_x = map (xr c) [0..<31], tf_elr_el2 = mrs er (hw c), tf_spsr_el2 = mrs sr (hw c)\<rparr>"

lemma put_words_below:
  "8 * length ws < 2 ^ 63 \<Longrightarrow> (\<forall>j < length ws. a \<noteq> b + 8 * of_nat j) \<Longrightarrow> put_words b ws m a = m a"
proof (induction ws arbitrary: b m)
  case (Cons w ws)
  have "a \<noteq> b + 8 + 8 * of_nat j" if "j < length ws" for j
    using Cons.prems(2) that by (metis (no_types, opaque_lifting) Suc_less_eq add.assoc length_Cons
        mult.right_neutral distrib_left of_nat_Suc)
  moreover have "a \<noteq> b" using Cons.prems(2) by fastforce
  ultimately show ?case using Cons.IH Cons.prems(1) by simp
qed simp

lemma words8_inj: "8 * i < 2 ^ 63 \<Longrightarrow> 8 * j < 2 ^ 63 \<Longrightarrow> 8 * (of_nat i :: u64) = 8 * of_nat j \<longleftrightarrow> i = j"
proof -
  assume "8 * i < 2 ^ 63" "8 * j < (2 :: nat) ^ 63"
  then have u: "unat (8 * of_nat i :: u64) = 8 * i" "unat (8 * of_nat j :: u64) = 8 * j"
    using unat_of_nat [of "8 * i", where 'a = 64] unat_of_nat [of "8 * j", where 'a = 64]
    by simp_all
  have "8 * i = 8 * j" if "8 * (of_nat i :: u64) = 8 * of_nat j"
    using arg_cong [OF that, of unat] unfolding u .
  then show ?thesis by auto
qed

lemma put_words_at:
  "8 * length ws < 2 ^ 63 \<Longrightarrow> i < length ws \<Longrightarrow> put_words b ws m (b + 8 * of_nat i) = ws ! i"
proof (induction ws arbitrary: b m i)
  case (Cons w ws)
  show ?case
  proof (cases i)
    case 0
    have "b \<noteq> b + 8 + 8 * of_nat j" if "j < length ws" for j
      using words8_inj [of 0 "Suc j"] Cons.prems(1) that by (simp add: algebra_simps)
    then show ?thesis using 0 Cons.prems(1) by (simp add: put_words_below)
  next
    case (Suc k)
    then show ?thesis using Cons.IH [of k "b + 8"] Cons.prems by (simp add: algebra_simps)
  qed
qed simp

lemma frame_put: "length (tf_x tf) = 31 \<Longrightarrow> frame_at (put_frame b tf m) b = tf"
proof -
  assume x: "length (tf_x tf) = 31"
  let ?ws = "tf_x tf @ [tf_elr_el2 tf, tf_spsr_el2 tf]"
  have at: "put_frame b tf m (b + 8 * of_nat i) = ?ws ! i" if "i < 33" for i
    unfolding put_frame_def by (rule put_words_at) (use x that in simp_all)
  have "map (\<lambda>i. put_frame b tf m (b + 8 * of_nat i)) [0..<31] = tf_x tf"
    by (rule nth_equalityI) (simp_all add: x at nth_append)
  moreover have "put_frame b tf m (b + 0xF8) = tf_elr_el2 tf" "put_frame b tf m (b + 0x100) = tf_spsr_el2 tf"
    using at [of 31] at [of 32] x by (simp_all add: nth_append)
  ultimately show ?thesis by (simp add: frame_at_def)
qed

lemma frame_at_sel:
  "tf_elr_el2 (frame_at m b) = m (b + 0xF8)" "tf_spsr_el2 (frame_at m b) = m (b + 0x100)"
  by (simp_all add: frame_at_def)

lemma cpu_frame_length [simp]: "length (tf_x (cpu_frame er sr c)) = 31"
  by (simp add: cpu_frame_def)


section \<open>Saving and restoring\<close>

definition save_code :: "sysreg \<Rightarrow> sysreg \<Rightarrow> 'l instr list" where
  "save_code er sr =
    [SUB SP SP 272,
     STP (X 0) (X 1) SP 0x00, STP (X 2) (X 3) SP 0x10, STP (X 4) (X 5) SP 0x20,
     STP (X 6) (X 7) SP 0x30, STP (X 8) (X 9) SP 0x40, STP (X 10) (X 11) SP 0x50,
     STP (X 12) (X 13) SP 0x60, STP (X 14) (X 15) SP 0x70, STP (X 16) (X 17) SP 0x80,
     STP (X 18) (X 19) SP 0x90, STP (X 20) (X 21) SP 0xA0, STP (X 22) (X 23) SP 0xB0,
     STP (X 24) (X 25) SP 0xC0, STP (X 26) (X 27) SP 0xD0, STP (X 28) (X 29) SP 0xE0,
     MRS (X 9) er, MRS (X 10) sr, STP (X 30) (X 9) SP 0xF0, STRX (X 10) SP 0x100]"

definition restore_code :: "sysreg \<Rightarrow> sysreg \<Rightarrow> 'l instr list" where
  "restore_code er sr =
    [LDRX (X 10) SP 0x100, LDP (X 30) (X 9) SP 0xF0, MSR sr (X 10), MSR er (X 9),
     LDP (X 28) (X 29) SP 0xE0, LDP (X 26) (X 27) SP 0xD0, LDP (X 24) (X 25) SP 0xC0,
     LDP (X 22) (X 23) SP 0xB0, LDP (X 20) (X 21) SP 0xA0, LDP (X 18) (X 19) SP 0x90,
     LDP (X 16) (X 17) SP 0x80, LDP (X 14) (X 15) SP 0x70, LDP (X 12) (X 13) SP 0x60,
     LDP (X 10) (X 11) SP 0x50, LDP (X 8) (X 9) SP 0x40, LDP (X 6) (X 7) SP 0x30,
     LDP (X 4) (X 5) SP 0x20, LDP (X 2) (X 3) SP 0x10, LDP (X 0) (X 1) SP 0x00,
     ADD SP SP 272]"

lemma frame_code_straight [simp]:
  "list_all straight (save_code er sr)" "list_all straight (restore_code er sr)"
  "length (save_code er sr) = 20" "length (restore_code er sr) = 20"
  by (simp_all add: save_code_def restore_code_def)

lemma frame_access:
  assumes "stack_room 272 sp" and "off < 272" and "take_bit 3 off = 0"
  shows "access_ok rb (sp - 272 + off) c \<longleftrightarrow> (rb = SP \<longrightarrow> take_bit 4 (spr c) = 0)"
proof -
  have "take_bit 3 (sp - 272) = 0"
    using assms(1) by (simp add: stack_room_def aligned_16_8)
  then show ?thesis
    using assms stack_room_ram [of 272 sp off] by (simp add: access_ok_def)
qed

lemma frame_access_0: "stack_room 272 sp \<Longrightarrow>
    access_ok rb (sp - 272) c \<longleftrightarrow> (rb = SP \<longrightarrow> take_bit 4 (spr c) = 0)"
  using frame_access [of sp 0] by simp

lemma stack_room_aligned: "stack_room 272 sp \<Longrightarrow> take_bit 4 (sp - 272) = 0"
  by (simp add: stack_room_def)

lemma upt_31: "[0..<31] = [0, 1, 2, 3, 4, 5, 6, 7, 8, 9, 10, 11, 12, 13, 14, 15, 16, 17, 18, 19, 20, 21, 22,
    23, 24, 25, 26, 27, 28, 29, 30]"
  by code_simp

text \<open>Pair accesses with both addresses as offsets from the base.\<close>

lemma exec_pair:
  "exec p (STP r1 r2 rb off) c =
     (if access_ok rb (val_of rb c + off) c \<and> access_ok rb (val_of rb c + (off + 8)) c
      then Running (adv (c\<lparr>mem := (mem c)(val_of rb c + off := val_of r1 c,
        val_of rb c + (off + 8) := val_of r2 c)\<rparr>)) else Faulted)"
  "exec p (LDP r1 r2 rb off) c =
     (if access_ok rb (val_of rb c + off) c \<and> access_ok rb (val_of rb c + (off + 8)) c
      then Running (adv (put_reg r2 (mem c (val_of rb c + (off + 8))) (put_reg r1 (mem c (val_of rb c + off)) c)))
      else Faulted)"
  by (simp_all add: Let_def add.assoc)

lemma run_save:
  assumes "stack_room 272 (spr c)" and "\<not> volatile er" "\<not> volatile sr"
  shows "run_block p (save_code er sr) c = Running (c\<lparr>spr := spr c - 272,
     xr := (xr c)(9 := mrs er (hw c), 10 := mrs sr (hw c)),
     mem := put_frame (spr c - 272) (cpu_frame er sr c) (mem c), pc := pc c + 80\<rparr>)"
proof -
  define b where "b = spr c - 272"
  have ok: "access_ok rb (b + off) c' \<longleftrightarrow> (rb = SP \<longrightarrow> take_bit 4 (spr c') = 0)"
    if "off < 272" "take_bit 3 off = 0" for rb off c'
    using frame_access [OF assms(1) that] by (simp add: b_def)
  have ok0: "access_ok rb b c' \<longleftrightarrow> (rb = SP \<longrightarrow> take_bit 4 (spr c') = 0)" for rb c'
    using frame_access_0 [OF assms(1)] by (simp add: b_def)
  have al: "take_bit 4 b = 0" using stack_room_aligned [OF assms(1)] by (simp add: b_def)
  have "run_block p (save_code er sr) c = run_block p (tl (save_code er sr)) (c\<lparr>spr := b, pc := pc c + 4\<rparr>)"
    by (simp add: save_code_def adv_def b_def)
  also have "\<dots> = Running (c\<lparr>spr := b,
     xr := (xr c)(9 := mrs er (hw c), 10 := mrs sr (hw c)), mem := put_frame b (cpu_frame er sr c) (mem c),
     pc := pc c + 80\<rparr>)"
    by (simp add: save_code_def adv_def assms(2,3) exec_pair put_frame_def cpu_frame_def upt_31 ok ok0 al
        add.assoc add.commute [of _ "pc c"] del: exec.simps(11,12))
  finally show ?thesis by (simp add: b_def)
qed

text \<open>The general registers loaded pairwise, in the order of the macro.\<close>

lemma gprs_of:
  "(\<lambda>i :: nat. if i < 31 then f i else g i) = g(30 := f 30, 28 := f 28, 29 := f 29, 26 := f 26, 27 := f 27, 24 := f 24, 25 := f 25, 22 := f 22, 23 := f 23, 20 := f 20, 21 := f 21, 18 := f 18, 19 := f 19, 16 := f 16, 17 := f 17, 14 := f 14, 15 := f 15, 12 := f 12, 13 := f 13, 10 := f 10, 11 := f 11, 8 := f 8, 9 := f 9, 6 := f 6, 7 := f 7, 4 := f 4, 5 := f 5, 2 := f 2, 3 := f 3, 0 := f 0, 1 := f 1)"
proof
  fix i :: nat
  have "i < 31 \<longleftrightarrow> i \<in> set [0..<31]" by simp
  then show "(if i < 31 then f i else g i) = (g(30 := f 30, 28 := f 28, 29 := f 29, 26 := f 26, 27 := f 27, 24 := f 24, 25 := f 25, 22 := f 22, 23 := f 23, 20 := f 20, 21 := f 21, 18 := f 18, 19 := f 19, 16 := f 16, 17 := f 17, 14 := f 14, 15 := f 15, 12 := f 12, 13 := f 13, 10 := f 10, 11 := f 11, 8 := f 8, 9 := f 9, 6 := f 6, 7 := f 7, 4 := f 4, 5 := f 5, 2 := f 2, 3 := f 3, 0 := f 0, 1 := f 1)) i"
    unfolding upt_31 by auto
qed

lemma run_restore:
  assumes "stack_room 272 (spr c + 272)"
  shows "run_block p (restore_code er sr) c = Running (c\<lparr>
     xr := (\<lambda>i. if i < 31 then mem c (spr c + 8 * of_nat i) else xr c i),
     hw := msr er (mem c (spr c + 0xF8)) (msr sr (mem c (spr c + 0x100)) (hw c)),
     spr := spr c + 272, pc := pc c + 80\<rparr>)"
proof -
  define b where "b = spr c"
  have ok: "access_ok rb (b + off) c' \<longleftrightarrow> (rb = SP \<longrightarrow> take_bit 4 (spr c') = 0)"
    if "off < 272" "take_bit 3 off = 0" for rb off c'
    using frame_access [OF assms that] by (simp add: b_def)
  have ok0: "access_ok rb b c' \<longleftrightarrow> (rb = SP \<longrightarrow> take_bit 4 (spr c') = 0)" for rb c'
    using frame_access_0 [OF assms] by (simp add: b_def)
  have al: "take_bit 4 b = 0" using stack_room_aligned [OF assms] by (simp add: b_def)
  show ?thesis
    by (simp add: restore_code_def adv_def exec_pair ok ok0 al gprs_of add.assoc add.commute [of _ "pc c"]
        del: exec.simps(11,12) flip: b_def)
qed


section \<open>The table\<close>

definition SAVE_CTX :: "target instr list" where
  "SAVE_CTX = save_code ELR_EL2 SPSR_EL2"

definition RESTORE_CTX :: "target instr list" where
  "RESTORE_CTX = restore_code ELR_EL2 SPSR_EL2"

definition VEC_ENTRY :: "nat \<Rightarrow> target instr list" where
  "VEC_ENTRY kind = SAVE_CTX @ [MOV (X 0) SP, MOVI (X 1) (of_nat kind), BAL (Sym ''vector_tail'')]"

definition vec_slot :: "nat \<Rightarrow> line list" where
  "vec_slot kind = Balign 128 # map I (VEC_ENTRY kind)"

definition vec_slots :: "nat \<Rightarrow> line list" where
  "vec_slots n = concat (map vec_slot [0..<n])"

definition vec_tail :: "target instr list" where
  "vec_tail = BL (Sym ''handle_exception'') # RESTORE_CTX @ [ERET]"

definition vectors_S :: "line list" where
  "vectors_S = [Balign 2048, Lab ''vector_table_el2''] @ vec_slots 16
     @ [Balign 16, Lab ''vector_tail''] @ map I vec_tail"

lemma VEC_ENTRY_length [simp]: "length (VEC_ENTRY k) = 23" "length vec_tail = 22"
  by (simp_all add: VEC_ENTRY_def SAVE_CTX_def vec_tail_def RESTORE_CTX_def)

lemma end_at_vec_slot: "end_at off (vec_slot k) = end_at off [Balign 128] + 92"
  by (simp add: vec_slot_def)

lemma vec_slots_rec: "vec_slots 0 = []" "vec_slots (Suc k) = vec_slots k @ vec_slot k"
  by (simp_all add: vec_slots_def)

lemma end_at_slots: "end_at 0 (vec_slots k @ [Balign 128]) = 128 * k"
  by (induction k) (simp_all add: vec_slots_rec end_at_vec_slot)

lemma end_at_table: "end_at 0 (vec_slots 16) = 2012"
proof -
  have "end_at 0 (vec_slots (Suc 15)) = 2012"
    unfolding vec_slots_rec using end_at_slots [of 15] by (simp add: end_at_vec_slot)
  then show ?thesis by simp
qed

lemma vec_labels: "Lab s \<notin> set (vec_slots n)"
  by (auto simp: vec_slots_def vec_slot_def)

lemma vectors_size: "end_at 0 vectors_S = 2104"
  using end_at_table by (simp add: vectors_S_def)

lemma vector_entry_block:
  assumes "source im = vectors_S" and "k < 16"
  shows "block im (base im + 128 * of_nat k) (map (link im) (VEC_ENTRY k))"
proof -
  let ?pre = "[Balign 2048, Lab ''vector_table_el2''] @ vec_slots k @ [Balign 128]"
  have "[0..<16] = [0..<k] @ k # [Suc k..<16]"
    using assms(2) upt_add_eq_append [of 0 k "16 - k"] upt_conv_Cons [of k 16] by simp
  then have "vec_slots 16 = vec_slots k @ vec_slot k @ concat (map vec_slot [Suc k..<16])"
    by (simp only: vec_slots_def map_append list.map concat_append concat.simps)
  then have src: "source im = ?pre @ map I (VEC_ENTRY k) @ concat (map vec_slot [Suc k..<16])
      @ [Balign 16, Lab ''vector_tail''] @ map I vec_tail"
    by (simp only: assms(1) vectors_S_def vec_slot_def append_assoc append_Cons append_Nil)
  have e: "end_at 0 ?pre = 128 * k" using end_at_slots [of k] by simp
  have "\<forall>i \<in> set (VEC_ENTRY k). \<forall>t \<in> set_instr i. is_sym t"
    by (simp add: VEC_ENTRY_def SAVE_CTX_def save_code_def)
  from blockI [OF src this] show ?thesis
    unfolding e using assms(2) by simp
qed

lemma vector_tail_at:
  assumes "source im = vectors_S"
  shows "symbol im ''vector_tail'' = base im + 2016"
    and "block im (base im + 2016) (map (link im) vec_tail)"
proof -
  let ?pre = "[Balign 2048, Lab ''vector_table_el2''] @ vec_slots 16 @ [Balign 16]"
  have e: "end_at 0 ?pre = 2016" using end_at_table by simp
  have "symbol im ''vector_tail'' = base im + of_nat (end_at 0 ?pre)"
  proof (rule symbol_at)
    show "source im = ?pre @ Lab ''vector_tail'' # map I vec_tail" by (simp add: assms vectors_S_def)
    show "Lab ''vector_tail'' \<notin> set ?pre" using vec_labels [of "''vector_tail''" 16] by simp
  qed
  then show "symbol im ''vector_tail'' = base im + 2016" unfolding e by simp
  have src: "source im = (?pre @ [Lab ''vector_tail'']) @ map I vec_tail @ []"
    by (simp add: assms vectors_S_def)
  have "\<forall>i \<in> set vec_tail. \<forall>t \<in> set_instr i. is_sym t"
    by (simp add: vec_tail_def RESTORE_CTX_def restore_code_def)
  from blockI [OF src this] show "block im (base im + 2016) (map (link im) vec_tail)"
    using end_at_table by simp
qed


section \<open>The call into C\<close>

text \<open>
  What the procedure call standard lets a C function leave behind: the caller-saved registers, the
  flags and the stack below the caller's stack pointer hold anything (\<open>abi\<close> says what); everything
  else is what the function's model says. \<open>stack_lo\<close> is the bottom of the stack.
\<close>

record abi =
  stack_lo :: u64
  junk_x :: "nat \<Rightarrow> u64"
  junk_c :: bool
  junk_z :: bool
  junk_mem :: "u64 \<Rightarrow> u64"

definition aapcs_return :: "abi \<Rightarrow> cpu \<Rightarrow> cpu" where
  "aapcs_return j c = c\<lparr>xr := (\<lambda>i. if i < 19 \<or> i = 30 then junk_x j i else xr c i),
     flag_c := junk_c j, flag_z := junk_z j,
     mem := (\<lambda>a. if stack_lo j \<le> a \<and> a < spr c then junk_mem j a else mem c a),
     pc := xr c 30\<rparr>"

text \<open>\<open>handle_exception(tf, kind)\<close>: the frame is at \<open>x0\<close> and is updated in place.\<close>

definition call_handle_exception :: "platform \<Rightarrow> abi \<Rightarrow> cpu \<Rightarrow> status" where
  "call_handle_exception p j c =
     (case handle_exception p (frame_at (mem c) (xr c 0)) (xr c 1) (hw c) of
        None \<Rightarrow> Hung
      | Some (Ret tf, s) \<Rightarrow> Running (aapcs_return j (c\<lparr>mem := put_frame (xr c 0) tf (mem c), hw := s\<rparr>))
      | Some (_, s) \<Rightarrow> Parked (c\<lparr>hw := s\<rparr>))"

definition vec_env :: "platform \<Rightarrow> abi \<Rightarrow> u64 \<Rightarrow> (string \<Rightarrow> u64) \<Rightarrow> env" where
  "vec_env p j b ext = \<lparr>img = \<lparr>base = b, source = vectors_S, extern = ext\<rparr>, plat = p,
     calls = (\<lambda>a. if a = ext ''handle_exception'' then Some (call_handle_exception p j) else None)\<rparr>"

lemma vec_env_simps [simp]:
  "source (img (vec_env p j b ext)) = vectors_S" "base (img (vec_env p j b ext)) = b"
  "extern (img (vec_env p j b ext)) = ext" "plat (vec_env p j b ext) = p"
  "calls (vec_env p j b ext) = (\<lambda>a. if a = ext ''handle_exception'' then Some (call_handle_exception p j) else None)"
  by (simp_all add: vec_env_def)

lemma link_simps [simp]:
  "link im (MOV r r') = MOV r r'" "link im (MOVI r v) = MOVI r v" "link im ERET = ERET"
  "link im (BAL (Sym s)) = BAL (symbol im s)" "link im (BL (Sym s)) = BL (symbol im s)"
  by (simp_all add: link_def)

lemma frame_code_link [simp]:
  "map (link im) (save_code er sr) = save_code er sr" "map (link im) (restore_code er sr) = restore_code er sr"
  by (simp_all add: link_def save_code_def restore_code_def)

lemma not_volatile [simp]: "\<not> volatile ELR_EL2" "\<not> volatile SPSR_EL2" "\<not> volatile ELR_EL1" "\<not> volatile SPSR_EL1"
  by (simp_all add: volatile_def)

text \<open>The state in which \<open>vector_tail\<close> is reached.\<close>

definition entered :: "nat \<Rightarrow> cpu \<Rightarrow> cpu" where
  "entered k c = c\<lparr>spr := spr c - 272,
     xr := (xr c)(9 := mrs ELR_EL2 (hw c), 10 := mrs SPSR_EL2 (hw c), 0 := spr c - 272, 1 := of_nat k),
     mem := put_frame (spr c - 272) (cpu_frame ELR_EL2 SPSR_EL2 c) (mem c)\<rparr>"

lemma vector_entry_runs:
  assumes "pc c = b + 128 * of_nat k" and "k < 16" and room: "stack_room 272 (spr c)"
  shows "steps (vec_env p j b ext) 23 c = Running (goto (b + 2016) (entered k c))"
proof -
  let ?e = "vec_env p j b ext" and ?is = "save_code ELR_EL2 SPSR_EL2 @ [MOV (X 0) SP, MOVI (X 1) (of_nat k)]"
  have tail: "symbol (img ?e) ''vector_tail'' = b + 2016" using vector_tail_at(1) [of "img ?e"] by simp
  have "block (img ?e) (pc c) (?is @ [BAL (b + 2016)])"
    using vector_entry_block [of "img ?e" k] assms(1,2) tail
    by (simp add: VEC_ENTRY_def SAVE_CTX_def)
  then have bl: "block (img ?e) (pc c) ?is" "fetch (img ?e) (pc c + 88) = Some (BAL (b + 2016))"
    unfolding block_append block_Cons by simp_all
  have "run_block p ?is c = Running ((entered k c)\<lparr>pc := pc c + 88\<rparr>)"
    by (simp add: run_block_append run_save [OF room] entered_def adv_def)
  then have "steps ?e 22 c = Running ((entered k c)\<lparr>pc := pc c + 88\<rparr>)"
    using steps_block [OF bl(1)] by simp
  moreover have "steps ?e 1 ((entered k c)\<lparr>pc := pc c + 88\<rparr>) = Running (goto (b + 2016) (entered k c))"
    by (simp add: step_def bl(2) goto_def)
  ultimately show ?thesis using steps_seq [of ?e 22 c _ 1] by simp
qed

text \<open>Addresses of a frame against the stack pointer above it.\<close>

lemma frame_bounds:
  assumes "stack_room 272 sp" and "off < 272"
  shows "\<not> sp - 272 + off < sp - 272" and "sp - 272 + off < sp"
proof -
  have "unat (0x40000000 + 272 :: u64) \<le> unat sp" "unat sp \<le> 0x60000000" "unat off < 272"
    using assms by (simp_all add: stack_room_def word_le_nat_alt word_less_nat_alt)
  moreover have "unat (sp - 272) = unat sp - unat (272 :: u64)"
    using calculation by (intro unat_sub) (simp add: word_le_nat_alt)
  moreover have "unat (sp - 272 + off) = unat (sp - 272) + unat off"
    using calculation by (intro unat_add_lem [THEN iffD1]) simp
  ultimately show "\<not> sp - 272 + off < sp - 272" "sp - 272 + off < sp"
    unfolding word_less_nat_alt by simp_all
qed

lemma frame_offset: "i < 33 \<Longrightarrow> 8 * of_nat i < (272 :: u64)"
proof -
  assume i: "i < 33"
  then have "unat (8 * of_nat i :: u64) = 8 * i"
    using unat_of_nat [of "8 * i", where 'a = 64] by simp
  with i show ?thesis unfolding word_less_nat_alt by simp
qed

lemma frame_above_junk:
  assumes "stack_room 272 sp"
  shows "frame_at (\<lambda>a. if lo \<le> a \<and> a < sp - 272 then jm a else m a) (sp - 272) = frame_at m (sp - 272)"
  using frame_bounds(1) [OF assms frame_offset] frame_bounds(1) [OF assms, of "0xF8"]
    frame_bounds(1) [OF assms, of "0x100"]
  by (simp add: frame_at_def)

lemma put_frame_above:
  assumes room: "stack_room 272 sp" and "sp \<le> a" and x: "length (tf_x tf) = 31"
  shows "put_frame (sp - 272) tf m a = m a"
  unfolding put_frame_def
proof (rule put_words_below)
  show "\<forall>j < length (tf_x tf @ [tf_elr_el2 tf, tf_spsr_el2 tf]). a \<noteq> sp - 272 + 8 * of_nat j"
  proof (intro allI impI)
    fix j
    assume "j < length (tf_x tf @ [tf_elr_el2 tf, tf_spsr_el2 tf])"
    then have "sp - 272 + 8 * of_nat j < sp"
      using x by (intro frame_bounds(2) [OF room] frame_offset) simp
    then show "a \<noteq> sp - 272 + 8 * of_nat j" using assms(2) by auto
  qed
qed (simp add: x)


section \<open>The whole exit\<close>

text \<open>What the C dispatcher lies at, seen from the table.\<close>

definition linked :: "u64 \<Rightarrow> (string \<Rightarrow> u64) \<Rightarrow> bool" where
  "linked b ext \<longleftrightarrow> 2104 \<le> unat (ext ''handle_exception'' - b)"

lemma tail_call:
  assumes "linked b ext"
  shows "steps (vec_env p j b ext) 2 (goto (b + 2016) c) =
    call_handle_exception p j (c\<lparr>xr := (xr c)(30 := b + 2020), pc := ext ''handle_exception''\<rparr>)"
proof -
  let ?e = "vec_env p j b ext"
  have "symbol (img ?e) ''handle_exception'' = ext ''handle_exception''"
    using symbol_extern [of "''handle_exception''" "img ?e"] vec_labels [of "''handle_exception''" 16]
    by (simp add: vectors_S_def image_iff)
  then have "fetch (img ?e) (b + 2016) = Some (BL (ext ''handle_exception''))"
    using vector_tail_at(2) [of "img ?e"] by (simp add: vec_tail_def block_Cons)
  moreover have "fetch (img ?e) (ext ''handle_exception'') = None"
    using assms by (intro fetch_outside) (simp add: vectors_size linked_def)
  ultimately show ?thesis
    by (simp add: numeral_2_eq_2 step_def goto_def add.commute [of _ b] split: status.split)
qed

text \<open>The return path at any address and for any pair of registers.\<close>

lemma restore_exit:
  assumes bl: "block (img e) (pc c) (restore_code er sr @ [ERET])" and er: "er \<noteq> sr"
    and room: "stack_room 272 (spr c + 272)"
  shows "\<exists>c'. steps e 21 c = Left c' \<and>
     cpu_frame er sr c' = frame_at (mem c) (spr c) \<and> spr c' = spr c + 272 \<and> mem c' = mem c \<and>
     hw c' = msr er (mem c (spr c + 0xF8)) (msr sr (mem c (spr c + 0x100)) (hw c))"
proof -
  obtain c' where c': "run_block (plat e) (restore_code er sr) c = Running c'" and
    f: "xr c' = (\<lambda>i. if i < 31 then mem c (spr c + 8 * of_nat i) else xr c i)" "spr c' = spr c + 272"
      "mem c' = mem c" "pc c' = pc c + 80"
      "hw c' = msr er (mem c (spr c + 0xF8)) (msr sr (mem c (spr c + 0x100)) (hw c))"
    using run_restore [OF room, of "plat e" er sr] by simp
  have "steps e 20 c = Running c'"
    using steps_block [of e c "restore_code er sr"] bl c' by (simp add: block_append)
  moreover have "steps e 1 c' = Left c'" using bl by (simp add: step_def block_append block_Cons f(4))
  ultimately have "steps e 21 c = Left c'" using steps_seq [of e 20 c c' 1] by simp
  moreover have "cpu_frame er sr c' = frame_at (mem c) (spr c)"
    using er by (simp add: cpu_frame_def frame_at_def f mrs_def msr_def)
  ultimately show ?thesis using f by blast
qed

lemma tail_restores:
  assumes "pc c = b + 2020" and room: "stack_room 272 (spr c + 272)"
  shows "\<exists>c'. steps (vec_env p j b ext) 21 c = Left c' \<and>
     cpu_frame ELR_EL2 SPSR_EL2 c' = frame_at (mem c) (spr c) \<and> spr c' = spr c + 272 \<and> mem c' = mem c \<and>
     hw c' = msr ELR_EL2 (mem c (spr c + 0xF8)) (msr SPSR_EL2 (mem c (spr c + 0x100)) (hw c))"
proof (rule restore_exit [OF _ _ room])
  show "block (img (vec_env p j b ext)) (pc c) (restore_code ELR_EL2 SPSR_EL2 @ [ERET])"
    using vector_tail_at(2) [of "img (vec_env p j b ext)"]
    by (simp add: vec_tail_def RESTORE_CTX_def block_Cons [of _ "b + 2016"] assms(1) add.commute [of _ b])
qed simp

text \<open>Entry \<open>k\<close> and the call: the state in which the dispatcher returns to the tail.\<close>

definition dispatched :: "abi \<Rightarrow> u64 \<Rightarrow> (string \<Rightarrow> u64) \<Rightarrow> nat \<Rightarrow> cpu \<Rightarrow> trap_frame \<Rightarrow> hyp \<Rightarrow> cpu" where
  "dispatched j b ext k c tf s = aapcs_return j ((entered k c)\<lparr>xr := (xr (entered k c))(30 := b + 2020),
     pc := ext ''handle_exception'', mem := put_frame (spr c - 272) tf (mem (entered k c)), hw := s\<rparr>)"

lemma vector_dispatch:
  assumes at: "pc c = b + 128 * of_nat k" "k < 16" and room: "stack_room 272 (spr c)" and ext: "linked b ext"
  shows "\<exists>c'. steps (vec_env p j b ext) 25 c =
    (case handle_exception p (cpu_frame ELR_EL2 SPSR_EL2 c) (of_nat k) (hw c) of
       None \<Rightarrow> Hung
     | Some (Ret tf, s) \<Rightarrow> Running (dispatched j b ext k c tf s)
     | Some (_, s) \<Rightarrow> Parked (c'\<lparr>hw := s\<rparr>))"
proof -
  let ?c = "(entered k c)\<lparr>xr := (xr (entered k c))(30 := b + 2020), pc := ext ''handle_exception''\<rparr>"
  have "steps (vec_env p j b ext) 25 c = call_handle_exception p j ?c"
    using steps_seq [OF vector_entry_runs [OF at room] tail_call [OF ext]] by simp
  moreover have "frame_at (mem ?c) (xr ?c 0) = cpu_frame ELR_EL2 SPSR_EL2 c" "xr ?c 1 = of_nat k" "hw ?c = hw c"
    "xr ?c 0 = spr c - 272"
    by (simp_all add: entered_def frame_put)
  ultimately show ?thesis
    by (intro exI [of _ ?c]) (simp add: call_handle_exception_def dispatched_def split: option.split outcome.split)
qed

text \<open>
  Entry \<open>k\<close>, the dispatcher and the return path: the CPU leaves EL2 with exactly the registers
  \<open>handle_exception\<close> left in the frame.
\<close>

lemma vector_exit:
  assumes at: "pc c = b + 128 * of_nat k" "k < 16" and room: "stack_room 272 (spr c)"
    and ext: "linked b ext" and inv: "hyp_inv p (hw c)"
    and h: "handle_exception p (cpu_frame ELR_EL2 SPSR_EL2 c) (of_nat k) (hw c) = Some (Ret tf', s')"
  shows "\<exists>c'. steps (vec_env p j b ext) 46 c = Left c' \<and>
      cpu_frame ELR_EL2 SPSR_EL2 c' = tf' \<and> spr c' = spr c \<and> (\<forall>a. spr c \<le> a \<longrightarrow> mem c' a = mem c a) \<and>
      hw c' = msr ELR_EL2 (tf_elr_el2 tf') (msr SPSR_EL2 (tf_spsr_el2 tf') s')"
proof -
  let ?e = "vec_env p j b ext" and ?c = "dispatched j b ext k c tf' s'"
  have call: "steps ?e 25 c = Running ?c" using vector_dispatch [OF at room ext, of p j] h by auto
  have x: "length (tf_x tf') = 31" using handle_exception_inv [OF inv _ h] by simp
  have f: "pc ?c = b + 2020" "spr ?c = spr c - 272" "hw ?c = s'"
    by (simp_all add: dispatched_def aapcs_return_def entered_def)
  have fr: "frame_at (mem ?c) (spr ?c) = tf'"
    by (simp add: dispatched_def aapcs_return_def entered_def frame_above_junk [OF room] frame_put [OF x])
  obtain c' where c': "steps ?e 21 ?c = Left c'" "cpu_frame ELR_EL2 SPSR_EL2 c' = tf'" "spr c' = spr c"
      "mem c' = mem ?c" "hw c' = msr ELR_EL2 (mem ?c (spr ?c + 0xF8)) (msr SPSR_EL2 (mem ?c (spr ?c + 0x100)) (hw ?c))"
    using tail_restores [OF f(1), of p j ext] room fr f(2) by auto
  have "hw c' = msr ELR_EL2 (tf_elr_el2 tf') (msr SPSR_EL2 (tf_spsr_el2 tf') s')"
    unfolding c'(5) f(3) frame_at_sel [symmetric] fr ..
  moreover have "mem c' a = mem c a" if "spr c \<le> a" for a
  proof -
    have "\<not> a < spr c - 272"
      using that frame_bounds(2) [OF room, of 0] by simp
    then show ?thesis
      using that x by (simp add: c'(4) dispatched_def aapcs_return_def entered_def put_frame_above [OF room])
  qed
  moreover have "steps ?e 46 c = Left c'"
    using steps_seq [of ?e 25 c ?c 21] call c'(1) by simp
  ultimately show ?thesis using c'(2,3) by blast
qed

lemma eret_is_guest_run: "guest_runs s (msr ELR_EL2 a (msr SPSR_EL2 b s))"
  unfolding guest_runs_def
  by (intro exI [of _ "(sys s)(SPSR_EL2 := b, ELR_EL2 := a)"] exI [of _ "[Msr SPSR_EL2 b, Msr ELR_EL2 a]"]
      exI [of _ "guest_states s"]) (simp add: msr_def el2_regs_def)



end
