(* ===== verification/Whole.thy ===== *)
theory Whole
  imports Start Vectors
begin

text \<open>
  The image as a whole: from the first instruction of \<open>boot.S\<close> through \<open>kmain\<close> into a guest, and from
  there through \<open>vectors.S\<close> into the dispatcher and back, as often as guests trap. The states are
  those of the CPU; the theory shows that every one of them is a state of the transition system of
  theory \<open>System\<close>, so that what holds there holds of the machine.
\<close>


section \<open>Runs of the machine\<close>

text \<open>
  A CPU in a guest, between two exceptions, or parked for good. \<open>spr\<close> is the stack pointer of EL2,
  which is banked: a guest neither sees nor changes it.
\<close>

datatype machine = Guest cpu | Off cpu

text \<open>
  The state in which the \<open>eret\<close> of \<open>sched_start\<close> enters the first guest; \<open>sp\<close> is the depth of the
  stack there.
\<close>

definition first_entry :: "u64 \<Rightarrow> u64 list \<Rightarrow> hyp \<Rightarrow> cpu \<Rightarrow> bool" where
  "first_entry sp xs s c \<longleftrightarrow> hw c = s \<and> spr c = sp \<and> pc c = sys s ELR_EL2 \<and> map (xr c) [0..<4] = xs"

text \<open>
  The guest runs until an exception takes the CPU to vector \<open>k\<close> of the table \<open>VBAR_EL2\<close> points at. Its
  general registers and its memory are then whatever it made of them.
\<close>

definition takes_exception :: "nat \<Rightarrow> cpu \<Rightarrow> cpu \<Rightarrow> bool" where
  "takes_exception k c c' \<longleftrightarrow> k < 16 \<and> guest_runs (hw c) (hw c') \<and> spr c' = spr c
     \<and> pc c' = sys (hw c') VBAR_EL2 + 128 * of_nat k"

inductive machine_run :: "platform \<Rightarrow> u64 \<Rightarrow> (string \<Rightarrow> u64) \<Rightarrow> u64 \<Rightarrow> machine \<Rightarrow> bool" for p b ext sp where
  start: "pc c = b \<Longrightarrow> mrs MPIDR_EL1 (hw c) AND 0xff = 0 \<Longrightarrow> steps (boot_env p b ext) n c = Running c1 \<Longrightarrow>
    pc c1 = ext ''kmain'' \<Longrightarrow> kmain p (globals p ext (mem c1) (sys (hw c1))) = Some (Ret xs, s) \<Longrightarrow>
    first_entry sp xs s c2 \<Longrightarrow> machine_run p b ext sp (Guest c2)"
| resume: "machine_run p b ext sp (Guest c) \<Longrightarrow> takes_exception k c c1 \<Longrightarrow>
    steps (vec_env p j (sys (hw c1) VBAR_EL2) ext) n c1 = Left c2 \<Longrightarrow> machine_run p b ext sp (Guest c2)"
| stop: "machine_run p b ext sp (Guest c) \<Longrightarrow> takes_exception k c c1 \<Longrightarrow>
    steps (vec_env p j (sys (hw c1) VBAR_EL2) ext) n c1 = Parked c2 \<Longrightarrow> machine_run p b ext sp (Off c2)"

text \<open>
  What the linker and the stack must give: the BSS holds the C globals, the dispatcher lies past the
  vectors, \<open>kmain\<close> outside the entry stub, and a frame fits below \<open>sp\<close>.
\<close>

definition image_ok :: "platform \<Rightarrow> u64 \<Rightarrow> (string \<Rightarrow> u64) \<Rightarrow> u64 \<Rightarrow> bool" where
  "image_ok p b ext sp \<longleftrightarrow> bss_ok (ext ''__bss_start'') (ext ''__bss_end'')
     \<and> (\<forall>ob \<in> set (bss_objects p ext). in_bss (ext ''__bss_start'') (ext ''__bss_end'') ob)
     \<and> linked (ext ''vector_table_el2'') ext \<and> 68 \<le> unat (ext ''kmain'' - b) \<and> stack_room 272 sp"

lemma image_okD:
  assumes "image_ok p b ext sp"
  shows "bss_ok (ext ''__bss_start'') (ext ''__bss_end'')" "linked (ext ''vector_table_el2'') ext"
    "68 \<le> unat (ext ''kmain'' - b)" "stack_room 272 sp"
    "\<forall>ob \<in> set (bss_objects p ext). in_bss (ext ''__bss_start'') (ext ''__bss_end'') ob"
  using assms by (simp_all add: image_ok_def)


section \<open>Runs end in one way\<close>

fun running :: "status \<Rightarrow> bool" where
  "running (Running c) \<longleftrightarrow> True"
| "running _ \<longleftrightarrow> False"

lemma steps_stay: "steps e m c = r \<Longrightarrow> \<not> running r \<Longrightarrow> steps e (m + n) c = r"
  by (cases r) (simp_all add: steps_add)

lemma ends_once:
  assumes "steps e m c = r" "\<not> running r" and "steps e n c = r'" "\<not> running r'"
  shows "r' = r"
  using steps_stay [OF assms(1,2), of "n - m"] steps_stay [OF assms(3,4), of "m - n"] assms(1,3)
  by (cases "m \<le> n") auto

lemma ends_once_before:
  assumes "steps e m c = Running a" "\<not> running (step e a)" and "steps e n c = Running b" "\<not> running (step e b)"
  shows "b = a"
proof -
  have "m = n" if "steps e m c = Running a" "\<not> running (step e a)" "steps e n c = Running b" and le: "m \<le> n" for m n a b
  proof (rule ccontr)
    assume "m \<noteq> n"
    then obtain k where n: "n = m + Suc k" using le less_iff_Suc_add [of m n] by auto
    have "steps e n c = step e a" unfolding n steps_add using that(1,2) by (cases "step e a") simp_all
    then show False using that(2,3) by (metis running.simps(1))
  qed
  from this [of m a n b] this [of n b m a] assms have "m = n" by (cases "m \<le> n") auto
  then show ?thesis using assms(1,3) by simp
qed


section \<open>The machine implements the transition system\<close>

fun matches :: "platform \<Rightarrow> (string \<Rightarrow> u64) \<Rightarrow> u64 \<Rightarrow> machine \<Rightarrow> bool" where
  "matches p ext sp (Guest c) \<longleftrightarrow> spr c = sp \<and> sys (hw c) VBAR_EL2 = ext ''vector_table_el2''
     \<and> (\<exists>hist s. reachable p (In_guest hist s) \<and> guest_runs s (hw c))"
| "matches p ext sp (Off c) \<longleftrightarrow> (\<exists>hist. reachable p (Stopped hist (hw c)))"

lemma guest_runs_refl [simp]: "guest_runs s s"
  unfolding guest_runs_def by (intro exI [of _ "sys s"] exI [of _ "[]"] exI [of _ "guest_states s"]) simp

lemma guest_runs_trans:
  assumes "guest_runs s t" and "guest_runs t u"
  shows "guest_runs s u"
proof -
  obtain f es gs where t: "t = s\<lparr>sys := f, io := io s @ es, guest_states := gs\<rparr>" "\<forall>r \<in> set el2_regs. f r = sys s r"
    using assms(1) unfolding guest_runs_def by blast
  obtain f' es' gs' where u: "u = t\<lparr>sys := f', io := io t @ es', guest_states := gs'\<rparr>" "\<forall>r \<in> set el2_regs. f' r = sys t r"
    using assms(2) unfolding guest_runs_def by blast
  show ?thesis unfolding guest_runs_def
    by (rule exI [of _ f'], rule exI [of _ "es @ es'"], rule exI [of _ gs']) (use t u in simp)
qed

lemma guest_runs_vbar: "guest_runs s t \<Longrightarrow> sys t VBAR_EL2 = sys s VBAR_EL2"
  by (auto simp: guest_runs_def el2_regs_def)

text \<open>The first guest.\<close>

lemma start_matches:
  assumes ok: "image_ok p b ext sp" and n: "nvcpu p = 1 \<or> nvcpu p = 2" and at: "pc c = b"
    and first: "mrs MPIDR_EL1 (hw c) AND 0xff = 0"
    and run: "steps (boot_env p b ext) n c = Running c1" "pc c1 = ext ''kmain''"
    and k: "kmain p (globals p ext (mem c1) (sys (hw c1))) = Some (Ret xs, s)" and c2: "first_entry sp xs s c2"
  shows "matches p ext sp (Guest c2)"
proof -
  let ?e = "boot_env p b ext"
  note ok = image_okD [OF ok]
  obtain m c' where c': "steps ?e m c = Running c'" "pc c' = ext ''kmain''"
      "mem c' = cleared (ext ''__bss_start'') (ext ''__bss_end'') (mem c)"
      "hw c' = msr VBAR_EL2 (ext ''vector_table_el2'') (hw c)"
    using boot_primary [where p = p, OF at first ok(1)] by blast
  have "end_at 0 (source (img ?e)) = 68" by (simp add: boot_env_def boot_S_def)
  then have "fetch (img ?e) (ext ''kmain'') = None"
    using ok(3) by (intro fetch_outside) (simp_all add: boot_env_def)
  then have "\<not> running (step ?e a)" if "pc a = ext ''kmain''" for a
    using that by (simp add: step_def boot_env_def)
  then have c1: "c1 = c'" using ends_once_before [OF c'(1) _ run(1)] c'(2) run(2) by blast
  have g: "globals p ext (mem c1) (sys (hw c1)) = boot_state p (sys (hw c1))"
    unfolding c1 c'(3) by (rule cleared_globals [OF ok(5)])
  have "sys s VBAR_EL2 = ext ''vector_table_el2''"
    using kmain_effect(9) [OF k [unfolded g] n] by (simp add: c1 c'(4) msr_def)
  then show ?thesis
    using c2 reachable.boot [OF k [unfolded g]] guest_runs_refl [of s]
    by (auto simp: first_entry_def simp del: guest_runs_refl)
qed

text \<open>An exception: the dispatcher is called in a state the transition system can be in.\<close>

lemma exception_reachable:
  assumes m: "matches p ext sp (Guest c)" and x: "takes_exception k c c1" and n: "nvcpu p = 1 \<or> nvcpu p = 2"
  shows "\<exists>hist. reachable p (In_handler hist (cpu_frame ELR_EL2 SPSR_EL2 c1) (of_nat k) (hw c1))"
    and "hyp_inv p (hw c1)" and "pc c1 = ext ''vector_table_el2'' + 128 * of_nat k" "k < 16" "spr c1 = sp"
    and "sys (hw c1) VBAR_EL2 = ext ''vector_table_el2''"
proof -
  obtain hist s where s: "reachable p (In_guest hist s)" "guest_runs s (hw c)" using m by auto
  have g: "guest_runs (hw c) (hw c1)" using x by (simp add: takes_exception_def)
  then have r: "reachable p (In_handler hist (cpu_frame ELR_EL2 SPSR_EL2 c1) (of_nat k) (hw c1))"
    using reachable.step [OF s(1) hyp_step.trap [OF guest_runs_trans [OF s(2)]]] by simp
  then show "\<exists>hist. reachable p (In_handler hist (cpu_frame ELR_EL2 SPSR_EL2 c1) (of_nat k) (hw c1))" by blast
  show "hyp_inv p (hw c1)" using reachable_config_inv [OF r n] by simp
  show v: "sys (hw c1) VBAR_EL2 = ext ''vector_table_el2''" using m guest_runs_vbar [OF g] by simp
  show "pc c1 = ext ''vector_table_el2'' + 128 * of_nat k" "k < 16" "spr c1 = sp"
    using x m v by (simp_all add: takes_exception_def)
qed

text \<open>One exception of the machine, whatever the dispatcher does.\<close>

lemma exception_outcome:
  assumes ok: "image_ok p b ext sp" and n: "nvcpu p = 1 \<or> nvcpu p = 2"
    and m: "matches p ext sp (Guest c)" and x: "takes_exception k c c1"
  shows "(\<exists>c2. steps (vec_env p j (sys (hw c1) VBAR_EL2) ext) 46 c1 = Left c2 \<and> matches p ext sp (Guest c2))
    \<or> (\<exists>c2. steps (vec_env p j (sys (hw c1) VBAR_EL2) ext) 25 c1 = Parked c2 \<and> matches p ext sp (Off c2))
    \<or> steps (vec_env p j (sys (hw c1) VBAR_EL2) ext) 25 c1 = Hung
        \<and> handle_exception p (cpu_frame ELR_EL2 SPSR_EL2 c1) (of_nat k) (hw c1) = None"
proof -
  let ?f = "cpu_frame ELR_EL2 SPSR_EL2 c1" and ?h = "handle_exception p (cpu_frame ELR_EL2 SPSR_EL2 c1) (of_nat k) (hw c1)"
  note x = exception_reachable [OF m x n]
  obtain hist where r: "reachable p (In_handler hist ?f (of_nat k) (hw c1))" using x(1) by blast
  have room: "stack_room 272 (spr c1)" using image_okD(4) [OF ok] x(5) by simp
  note call = vector_dispatch [OF x(3,4) room image_okD(2) [OF ok], of p j]
  show ?thesis
  proof (cases ?h)
    case None
    then show ?thesis using call by (simp add: x(6))
  next
    case (Some os)
    then obtain o' s' where h: "?h = Some (o', s')" by (cases os) auto
    show ?thesis
    proof (cases o')
      case (Ret tf)
      obtain c2 where c2: "steps (vec_env p j (ext ''vector_table_el2'') ext) 46 c1 = Left c2" "spr c2 = spr c1"
          "hw c2 = msr ELR_EL2 (tf_elr_el2 tf) (msr SPSR_EL2 (tf_spsr_el2 tf) s')"
        using vector_exit [OF x(3,4) room image_okD(2) [OF ok] x(2) h [unfolded Ret], of j] by blast
      have "keeps (log_exit ?f (of_nat k) (hw c1)) s'" by (rule handle_exception_keeps [OF h])
      then have "sys (hw c2) VBAR_EL2 = ext ''vector_table_el2''"
        by (simp add: c2(3) keeps_def log_exit_def exit_ring_push_def msr_def x(6))
      moreover have "guest_runs s' (hw c2)" unfolding c2(3) by (rule eret_is_guest_run)
      ultimately have "matches p ext sp (Guest c2)"
        using reachable.step [OF r hyp_step.resume [OF h [unfolded Ret]]] c2(2) x(5) by auto
      then show ?thesis using c2(1) by (simp add: x(6))
    next
      case Halted
      then show ?thesis using call h reachable.step [OF r hyp_step.stop [OF h [unfolded Halted]]]
        by (auto simp: x(6))
    next
      case Eret
      then show ?thesis using h handle_exception_no_eret by blast
    qed
  qed
qed

lemma machine_run_matches:
  assumes ok: "image_ok p b ext sp" and n: "nvcpu p = 1 \<or> nvcpu p = 2" and "machine_run p b ext sp m"
  shows "matches p ext sp m"
  using assms(3)
proof induction
  case (start c n c1 xs s c2)
  then show ?case by (intro start_matches [OF ok assms(2)])
next
  case (resume c k c1 j n c2)
  then show ?case using exception_outcome [OF ok assms(2) resume.IH resume.hyps(2), of j] ends_once [of _ _ c1]
    by fastforce
next
  case (stop c k c1 j n c2)
  then show ?case using exception_outcome [OF ok assms(2) stop.IH stop.hyps(2), of j] ends_once [of _ _ c1]
    by fastforce
qed

text \<open>The machine gets into the first guest.\<close>

lemma machine_starts:
  fixes c :: cpu
  assumes ok: "image_ok p b ext sp" and con: "pl011_console p" and n: "nvcpu p = 1 \<or> nvcpu p = 2"
    and at: "pc c = b" "mrs MPIDR_EL1 (hw c) AND 0xff = 0"
  shows "\<exists>c2. machine_run p b ext sp (Guest c2) \<and> pc c2 = LINUX_ENTRY_IPA \<and> xr c2 0 = LINUX_DTB_IPA"
proof -
  note ok = image_okD [OF ok]
  obtain m c' where c': "steps (boot_env p b ext) m c = Running c'" "pc c' = ext ''kmain''"
      "mem c' = cleared (ext ''__bss_start'') (ext ''__bss_end'') (mem c)"
    using boot_primary [where p = p, OF at ok(1)] by blast
  have g: "globals p ext (mem c') (sys (hw c')) = boot_state p (sys (hw c'))"
    unfolding c'(3) by (rule cleared_globals [OF ok(5)])
  obtain s where s: "kmain p (boot_state p (sys (hw c'))) = Some (Ret [LINUX_DTB_IPA, 0, 0, 0], s)"
    using pl011_console.kmain_returns [OF con n] by blast
  let ?c = "c'\<lparr>xr := (\<lambda>_. 0)(0 := LINUX_DTB_IPA), spr := sp, pc := sys s ELR_EL2, hw := s\<rparr>"
  have "first_entry sp [LINUX_DTB_IPA, 0, 0, 0] s ?c" by (simp add: first_entry_def numeral_eq_Suc)
  then have "machine_run p b ext sp (Guest ?c)"
    by (rule machine_run.start [OF at c'(1,2) s [folded g]])
  then show ?thesis using kmain_effect(5) [OF s n] by (intro exI [of _ ?c]) simp
qed


section \<open>Properties\<close>

text \<open>
  C3. The machine, from its first instruction on, is the hypervisor of the other theories. Whenever the
  CPU runs a guest, however many exceptions it has taken through the vectors, it is in a state the
  transition system reaches; its EL2 stack is as deep as at the first entry, so that no exception leaks
  a frame; exceptions still go to the table \<open>boot.S\<close> installed; and the guest is confined to the memory
  map of its own VM with translation and traps on.
\<close>

theorem machine_refines_system:
  assumes "image_ok p b ext sp" and "nvcpu p = 1 \<or> nvcpu p = 2" and "layout_ok p"
    and "machine_run p b ext sp (Guest c)"
  shows "(\<exists>hist s. reachable p (In_guest hist s) \<and> guest_runs s (hw c)) \<and> spr c = sp
    \<and> sys (hw c) VBAR_EL2 = ext ''vector_table_el2''
    \<and> s2_walk p (hw c) (sys (hw c) VTTBR_EL2) ipa = s2_spec p (current (hw c)) ipa
    \<and> bit (sys (hw c) HCR_EL2) 0 \<and> bit (sys (hw c) HCR_EL2) 4 \<and> bit (sys (hw c) HCR_EL2) 13"
proof -
  note m = machine_run_matches [OF assms(1,2,4)]
  then obtain hist s where s: "reachable p (In_guest hist s)" "guest_runs s (hw c)" by auto
  have "hyp_inv p (hw c)" "vm_inv p (hw c)"
    using reachable_config_inv [OF s(1) assms(2)] guest_runs_inv [OF s(2)] by simp_all
  then show ?thesis using m inv_confined [OF _ _ assms(3)] by simp
qed

definition demo_reset :: cpu where
  "demo_reset = \<lparr>xr = (\<lambda>_. 3), spr = 0, pc = 0x40080000, flag_c = False, flag_z = False, daif = 0,
    mem = (\<lambda>_. 7), hw = boot_state (board 2 26) (\<lambda>_. 0)\<rparr>"

lemma demo_image: "image_ok (board 2 26) 0x40080000 demo_symbols 0x40113000"
  by (simp add: image_ok_def demo_symbols_def bss_ok_def bss_objects_def in_bss_def linked_def stack_room_def)

lemma demo_starts:
  "\<exists>c. machine_run (board 2 26) 0x40080000 demo_symbols 0x40113000 (Guest c) \<and> pc c = LINUX_ENTRY_IPA"
  using machine_starts [OF demo_image board_console.pl011_console_axioms, of demo_reset]
  by (auto simp: demo_reset_def mrs_def)

theorem machine_refines_system_witness:
  "\<exists>c. machine_run (board 2 26) 0x40080000 demo_symbols 0x40113000 (Guest c) \<and> spr c = 0x40113000
     \<and> sys (hw c) VBAR_EL2 = 0x40081000
     \<and> s2_walk (board 2 26) (hw c) (sys (hw c) VTTBR_EL2) 0x08000000 = xlate.Fault"
proof -
  obtain c where c: "machine_run (board 2 26) 0x40080000 demo_symbols 0x40113000 (Guest c)"
    using demo_starts by blast
  from machine_refines_system [OF demo_image _ _ c, of "0x08000000"] board_layout show ?thesis
    using c by (intro exI [of _ c]) (simp add: s2_spec_def demo_symbols_def)
qed



end
