(* ===== verification/GuestVectors.thy ===== *)
theory GuestVectors
  imports Vectors Guest
begin

text \<open>
  The bare-metal guest's EL1 vectors (\<open>src/src/guest_vectors.S\<close>). The interrupt entry, slot 5, saves
  every register, calls \<open>guest_irq_handler\<close> and returns to the interrupted code with all of them
  back. Its 42 instructions do not fit the 128 bytes of a slot, though, and \<open>.balign 128\<close> then pads to
  the next multiple: the slots that follow are all one slot late.
\<close>


section \<open>The table\<close>

definition GSAVE :: "target instr list" where
  "GSAVE = save_code ELR_EL1 SPSR_EL1"

definition GRESTORE :: "target instr list" where
  "GRESTORE = restore_code ELR_EL1 SPSR_EL1"

definition GPANIC :: "nat \<Rightarrow> line list" where
  "GPANIC n = [Num 1, I WFI, I (BAL (Bwd 1))]"

definition guest_irq_slot :: "target instr list" where
  "guest_irq_slot = GSAVE @ BL (Sym ''guest_irq_handler'') # GRESTORE @ [ERET]"

definition gpanic_slots :: "nat list \<Rightarrow> line list" where
  "gpanic_slots ids = concat (map (\<lambda>n. Balign 128 # GPANIC n) ids)"

definition guest_vectors_S :: "line list" where
  "guest_vectors_S = [Balign 2048, Lab ''guest_vector_table_el1'']
     @ gpanic_slots [0, 1, 2, 3]
     @ [Balign 128, I (BAL Here)]
     @ [Balign 128] @ map I guest_irq_slot
     @ gpanic_slots [6, 7]
     @ gpanic_slots [8, 9, 10, 11, 12, 13, 14, 15]"

text \<open>\<open>guest_irq_handler()\<close>, called; \<open>tf\<close> holds the registers at its hypercall.\<close>

definition call_guest_irq :: "platform \<Rightarrow> abi \<Rightarrow> trap_frame \<Rightarrow> cpu \<Rightarrow> status" where
  "call_guest_irq p j tf c = (case guest_irq_handler p tf (hw c) of
      None \<Rightarrow> Hung
    | Some (Ret _, s) \<Rightarrow> Running (aapcs_return j (c\<lparr>hw := s\<rparr>))
    | Some (_, s) \<Rightarrow> Parked (c\<lparr>hw := s\<rparr>))"

definition gvec_env :: "platform \<Rightarrow> abi \<Rightarrow> trap_frame \<Rightarrow> u64 \<Rightarrow> (string \<Rightarrow> u64) \<Rightarrow> env" where
  "gvec_env p j tf b ext = \<lparr>img = \<lparr>base = b, source = guest_vectors_S, extern = ext\<rparr>, plat = p,
     calls = (\<lambda>a. if a = ext ''guest_irq_handler'' then Some (call_guest_irq p j tf) else None)\<rparr>"

lemma gvec_env_simps [simp]:
  "source (img (gvec_env p j tf b ext)) = guest_vectors_S" "base (img (gvec_env p j tf b ext)) = b"
  "extern (img (gvec_env p j tf b ext)) = ext" "plat (gvec_env p j tf b ext) = p"
  "calls (gvec_env p j tf b ext) = (\<lambda>a. if a = ext ''guest_irq_handler'' then Some (call_guest_irq p j tf) else None)"
  by (simp_all add: gvec_env_def)

lemma guest_irq_slot_length [simp]: "length guest_irq_slot = 42"
  by (simp add: guest_irq_slot_def GSAVE_def GRESTORE_def)

lemma guest_vectors_size: "end_at 0 guest_vectors_S = 2056"
  by (simp add: guest_vectors_S_def gpanic_slots_def GPANIC_def)

lemma guest_irq_block:
  assumes "source im = guest_vectors_S"
  shows "block im (base im + 0x280) (map (link im) guest_irq_slot)"
proof -
  let ?pre = "[Balign 2048, Lab ''guest_vector_table_el1''] @ gpanic_slots [0, 1, 2, 3]
     @ [Balign 128, I (BAL Here)] @ [Balign 128]"
  have src: "source im = ?pre @ map I guest_irq_slot @ gpanic_slots [6, 7] @ gpanic_slots [8, 9, 10, 11, 12, 13, 14, 15]"
    by (simp add: assms guest_vectors_S_def)
  have e: "end_at 0 ?pre = 0x280" by (simp add: gpanic_slots_def GPANIC_def)
  have "\<forall>i \<in> set guest_irq_slot. \<forall>t \<in> set_instr i. is_sym t"
    by (simp add: guest_irq_slot_def GSAVE_def GRESTORE_def save_code_def restore_code_def)
  from blockI [OF src this] show ?thesis unfolding e by simp
qed

lemma guest_irq_symbol:
  assumes "source im = guest_vectors_S"
  shows "symbol im ''guest_irq_handler'' = extern im ''guest_irq_handler''"
  by (rule symbol_extern) (auto simp: assms guest_vectors_S_def gpanic_slots_def GPANIC_def)


section \<open>The interrupt entry\<close>

definition linked_guest :: "u64 \<Rightarrow> (string \<Rightarrow> u64) \<Rightarrow> bool" where
  "linked_guest b ext \<longleftrightarrow> 2056 \<le> unat (ext ''guest_irq_handler'' - b)"

lemma guest_irq_code:
  assumes im_def: "im = img (gvec_env p j tf b ext)"
  shows "block im (b + 0x280) (save_code ELR_EL1 SPSR_EL1)"
    and "fetch im (b + 0x2D0) = Some (BL (ext ''guest_irq_handler''))"
    and "block im (b + 0x2D4) (restore_code ELR_EL1 SPSR_EL1 @ [ERET])"
    and "linked_guest b ext \<Longrightarrow> fetch im (ext ''guest_irq_handler'') = None"
proof -
  have "block im (b + 0x280) (save_code ELR_EL1 SPSR_EL1 @ BL (ext ''guest_irq_handler'')
      # restore_code ELR_EL1 SPSR_EL1 @ [ERET])"
    using guest_irq_block [of im] guest_irq_symbol [of im]
    by (simp add: im_def guest_irq_slot_def GSAVE_def GRESTORE_def)
  then show "block im (b + 0x280) (save_code ELR_EL1 SPSR_EL1)"
    "fetch im (b + 0x2D0) = Some (BL (ext ''guest_irq_handler''))"
    "block im (b + 0x2D4) (restore_code ELR_EL1 SPSR_EL1 @ [ERET])"
    by (simp_all add: block_append [of _ _ "save_code _ _"] block_Cons [of _ _ "BL _"] add.commute [of _ b])
  show "linked_guest b ext \<Longrightarrow> fetch im (ext ''guest_irq_handler'') = None"
    by (rule fetch_outside) (simp add: im_def guest_vectors_size linked_guest_def)
qed

lemma guest_irq_entry:
  assumes at: "pc c = b + 0x280" and room: "stack_room 272 (spr c)" and ext: "linked_guest b ext"
    and h: "guest_irq_handler p tf (hw c) = Some (Ret tf', s')"
  shows "\<exists>c'. steps (gvec_env p j tf b ext) 43 c = Left c' \<and>
      cpu_frame ELR_EL1 SPSR_EL1 c' = cpu_frame ELR_EL1 SPSR_EL1 c \<and> spr c' = spr c \<and>
      (\<forall>a. spr c \<le> a \<longrightarrow> mem c' a = mem c a) \<and>
      hw c' = msr ELR_EL1 (mrs ELR_EL1 (hw c)) (msr SPSR_EL1 (mrs SPSR_EL1 (hw c)) s')"
proof -
  let ?e = "gvec_env p j tf b ext" and ?f = "cpu_frame ELR_EL1 SPSR_EL1 c"
  note code = guest_irq_code [OF refl, where p = p and j = j and tf = tf and b = b and ext = ext]
  obtain c1 where c1: "run_block p (save_code ELR_EL1 SPSR_EL1) c = Running c1" "pc c1 = b + 0x2D0"
      "spr c1 = spr c - 272" "hw c1 = hw c" "mem c1 = put_frame (spr c - 272) ?f (mem c)"
    using run_save [OF room, of ELR_EL1 SPSR_EL1 p] at by simp
  let ?c2 = "aapcs_return j (c1\<lparr>xr := (xr c1)(30 := b + 0x2D4), pc := ext ''guest_irq_handler'', hw := s'\<rparr>)"
  have "steps ?e 20 c = Running c1"
    using steps_block [of ?e c "save_code ELR_EL1 SPSR_EL1"] code(1) at c1(1) by simp
  moreover have "steps ?e 2 c1 = Running ?c2"
    using code(2) code(4) [OF ext] h
    by (simp add: numeral_2_eq_2 step_def c1(2,4) goto_def call_guest_irq_def add.commute [of _ b])
  ultimately have s22: "steps ?e 22 c = Running ?c2" using steps_seq [of ?e 20 c c1 2] by simp
  have f2: "pc ?c2 = b + 0x2D4" "spr ?c2 = spr c - 272" "hw ?c2 = s'"
    by (simp_all add: aapcs_return_def c1)
  have fr: "frame_at (mem ?c2) (spr ?c2) = ?f"
    by (simp add: aapcs_return_def c1 frame_above_junk [OF room] frame_put)
  obtain c' where c': "steps ?e 21 ?c2 = Left c'" "cpu_frame ELR_EL1 SPSR_EL1 c' = ?f" "spr c' = spr c"
      "mem c' = mem ?c2" "hw c' = msr ELR_EL1 (tf_elr_el2 ?f) (msr SPSR_EL1 (tf_spsr_el2 ?f) s')"
    using restore_exit [of ?e ?c2 ELR_EL1 SPSR_EL1] code(3) f2 room fr frame_at_sel [of "mem ?c2" "spr ?c2"]
    by auto
  have "mem c' a = mem c a" if "spr c \<le> a" for a
  proof -
    have "\<not> a < spr c - 272" using that frame_bounds(2) [OF room, of 0] by simp
    then show ?thesis using that by (simp add: c'(4) aapcs_return_def c1 put_frame_above [OF room])
  qed
  moreover have "steps ?e 43 c = Left c'" using steps_seq [OF s22 c'(1)] by simp
  ultimately show ?thesis using c'(2,3,5) by (auto simp: cpu_frame_def)
qed


section \<open>The fast interrupt vector\<close>

text \<open>What a fast interrupt meets: the last eight loads of \<open>GRESTORE\<close>, on a stack nobody pushed to.\<close>

definition fiq_code :: "u64 instr list" where
  "fiq_code = drop 11 (restore_code ELR_EL1 SPSR_EL1)"

lemma fiq_code_straight [simp]: "list_all straight fiq_code" "length fiq_code = 9"
  by (simp_all add: fiq_code_def restore_code_def)

lemma block_drop: "block im a is \<Longrightarrow> n \<le> length is \<Longrightarrow> block im (a + of_nat (4 * n)) (drop n is)"
  using block_append [of im a "take n is" "drop n is"] by simp

lemma fiq_block: "block (img (gvec_env p j tf b ext)) (b + 0x300) (fiq_code @ [ERET])"
  using block_drop [OF guest_irq_code(3) [OF refl], of 11 p j tf b ext]
  by (simp add: fiq_code_def add.commute [of _ b])

lemma run_fiq:
  assumes "stack_room 272 (spr c + 272)"
  shows "run_block p fiq_code c = Running (c\<lparr>
     xr := (\<lambda>i. if i < 16 then mem c (spr c + 8 * of_nat i) else xr c i), spr := spr c + 272, pc := pc c + 36\<rparr>)"
proof -
  define b where "b = spr c"
  have ok: "access_ok rb (b + off) c' \<longleftrightarrow> (rb = SP \<longrightarrow> take_bit 4 (spr c') = 0)"
    if "off < 272" "take_bit 3 off = 0" for rb off c'
    using frame_access [OF assms that] by (simp add: b_def)
  have ok0: "access_ok rb b c' \<longleftrightarrow> (rb = SP \<longrightarrow> take_bit 4 (spr c') = 0)" for rb c'
    using frame_access_0 [OF assms] by (simp add: b_def)
  have al: "take_bit 4 b = 0" using stack_room_aligned [OF assms] by (simp add: b_def)
  have gpr: "(\<lambda>i::nat. if i < 16 then f i else g i) = g(14 := f 14, 15 := f 15, 12 := f 12, 13 := f 13, 10 := f 10,
    11 := f 11, 8 := f 8, 9 := f 9, 6 := f 6, 7 := f 7, 4 := f 4, 5 := f 5, 2 := f 2, 3 := f 3, 0 := f 0, 1 := f 1)"
    for f g :: "nat \<Rightarrow> u64"
  proof
    fix i :: nat
    have "[0..<16] = [0, 1, 2, 3, 4, 5, 6, 7, 8, 9, 10, 11, 12, 13, 14, 15]" by code_simp
    moreover have "i < 16 \<longleftrightarrow> i \<in> set [0..<16]" by simp
    ultimately have "i < 16 \<longleftrightarrow> i \<in> set [0, 1, 2, 3, 4, 5, 6, 7, 8, 9, 10, 11, 12, 13, 14, 15]" by (simp only:)
    then show "(if i < 16 then f i else g i) = (g(14 := f 14, 15 := f 15, 12 := f 12, 13 := f 13, 10 := f 10,
      11 := f 11, 8 := f 8, 9 := f 9, 6 := f 6, 7 := f 7, 4 := f 4, 5 := f 5, 2 := f 2, 3 := f 3, 0 := f 0, 1 := f 1)) i"
      by auto
  qed
  show ?thesis
    by (simp add: fiq_code_def restore_code_def adv_def exec_pair ok ok0 al gpr add.assoc add.commute [of _ "pc c"]
        del: exec.simps(11,12) flip: b_def)
qed


section \<open>The late slots\<close>

lemma gpanic_fetch:
  assumes src: "source im = pre @ GPANIC n @ post" and fit: "end_at 0 pre < 2 ^ 32"
  shows "fetch im (base im + of_nat (end_at 0 pre)) = Some WFI"
    and "fetch im (base im + of_nat (end_at 0 pre) + 4) = Some (BAL (base im + of_nat (end_at 0 pre)))"
proof -
  let ?o = "end_at 0 pre"
  have u: "unat (of_nat ?o :: u64) = ?o" "unat (of_nat ?o + 4 :: u64) = ?o + 4"
    using fit unat_of_nat [of ?o, where 'a = 64] unat_of_nat [of "?o + 4", where 'a = 64] by simp_all
  have "base im + of_nat ?o + 4 - base im = of_nat ?o + 4" by simp
  then show "fetch im (base im + of_nat ?o) = Some WFI"
    "fetch im (base im + of_nat ?o + 4) = Some (BAL (base im + of_nat ?o))"
    using fetch_from_skip [of 0 pre ?o "[]" "GPANIC n @ post"]
      fetch_from_skip [of 0 pre "?o + 4" "[]" "GPANIC n @ post"]
    unfolding fetch_def fetch_off_def src by (simp_all add: u GPANIC_def)
qed

lemma gpanic_slots_Nil: "gpanic_slots [] = []"
  and gpanic_slots_Cons: "gpanic_slots (k # ks) = Balign 128 # GPANIC k @ gpanic_slots ks"
  and gpanic_slots_append: "gpanic_slots (ks @ ks') = gpanic_slots ks @ gpanic_slots ks'"
  by (simp_all add: gpanic_slots_def)

lemma end_at_gpanic_slots: "end_at 0x328 (gpanic_slots [6..<6 + m] @ [Balign 128]) = 128 * (7 + m)"
proof (induction m)
  case (Suc m)
  have "[6..<6 + Suc m] = [6..<6 + m] @ [6 + m]" by (simp only: add_Suc_right upt_Suc_append le_add1)
  then have "gpanic_slots [6..<6 + Suc m] = gpanic_slots [6..<6 + m] @ Balign 128 # GPANIC (6 + m)"
    by (simp only: gpanic_slots_append gpanic_slots_Cons gpanic_slots_Nil append_Nil2)
  moreover have "end_at (end_at 0x328 (gpanic_slots [6..<6 + m])) [Balign 128] = 128 * (7 + m)"
    using Suc.IH by simp
  ultimately show ?case by (simp add: GPANIC_def)
qed (simp add: gpanic_slots_def)

lemma gpanic_late:
  assumes "source im = guest_vectors_S" and "6 \<le> k" "k < 16"
  shows "fetch im (base im + 128 * (of_nat k + 1)) = Some WFI"
    and "fetch im (base im + 128 * (of_nat k + 1) + 4) = Some (BAL (base im + 128 * (of_nat k + 1)))"
proof -
  let ?front = "[Balign 2048, Lab ''guest_vector_table_el1''] @ gpanic_slots [0, 1, 2, 3]
     @ [Balign 128, I (BAL Here)] @ [Balign 128] @ map I guest_irq_slot"
  let ?pre = "?front @ gpanic_slots [6..<k] @ [Balign 128]"
  have "[6..<16] = [6, 7] @ [8, 9, 10, 11, 12, 13, 14, 15 :: nat]" by code_simp
  moreover have "[6..<16] = [6..<k] @ k # [Suc k..<16]"
    using assms upt_add_eq_append [of 6 k "16 - k"] upt_conv_Cons [of k 16] by simp
  ultimately have "gpanic_slots [6, 7] @ gpanic_slots [8, 9, 10, 11, 12, 13, 14, 15] =
      gpanic_slots [6..<k] @ Balign 128 # GPANIC k @ gpanic_slots [Suc k..<16]"
    by (metis gpanic_slots_append gpanic_slots_Cons)
  then have src: "source im = ?pre @ GPANIC k @ gpanic_slots [Suc k..<16]"
    by (simp only: assms(1) guest_vectors_S_def append_assoc append_Cons append_Nil)
  obtain m where m: "k = 6 + m" using assms(2) le_Suc_ex by blast
  have "end_at 0 ?front = 0x328" by (simp add: gpanic_slots_def GPANIC_def)
  moreover have "128 * (7 + m) = 128 * (k + 1)" by (simp add: m)
  ultimately have e: "end_at 0 ?pre = 128 * (k + 1)"
    using end_at_gpanic_slots [of m] unfolding m end_at_append [of 0 ?front] by (simp only:)
  show "fetch im (base im + 128 * (of_nat k + 1)) = Some WFI"
    "fetch im (base im + 128 * (of_nat k + 1) + 4) = Some (BAL (base im + 128 * (of_nat k + 1)))"
    using gpanic_fetch [OF src] assms(3) unfolding e by (simp_all add: algebra_simps)
qed


section \<open>Properties\<close>

text \<open>
  C27. A virtual timer interrupt in the bare-metal guest, from the vector to the return: with a console
  that drains, the entry at \<open>0x280\<close> saves the registers, the handler counts and prints the tick under
  the VM's own letter, rearms the timer one period ahead and ends the interrupt by hypercall, and the
  guest is back in the interrupted code with every general register, \<open>ELR_EL1\<close>, \<open>SPSR_EL1\<close>, the stack
  pointer and the stack above it as they were, no virtual interrupt pending and the invariants intact.
\<close>

theorem guest_irq_transparent:
  assumes "pl011_console p" and "hyp_inv p (hw c)" and "length (tf_x tf) = 31"
    and "gs p (hw c) < length (guest_states (hw c))"
    and at: "pc c = b + 0x280" and room: "stack_room 272 (spr c)" and ext: "linked_guest b ext"
  defines "g \<equiv> (guest_states (hw c) ! gs p (hw c))\<lparr>gs_ticks := gs_ticks (guest_states (hw c) ! gs p (hw c)) + 1\<rparr>"
  shows "\<exists>c'. steps (gvec_env p j tf b ext) 43 c = Left c' \<and>
      cpu_frame ELR_EL1 SPSR_EL1 c' = cpu_frame ELR_EL1 SPSR_EL1 c \<and> spr c' = spr c \<and>
      (\<forall>a. spr c \<le> a \<longrightarrow> mem c' a = mem c a) \<and> hyp_inv p (hw c') \<and>
      pending_set (current (hw c)) (hw c') = {} \<and> \<not> vi_of (sys (hw c') HCR_EL2) \<and>
      guest_states (hw c') = (guest_states (hw c))[gs p (hw c) := g] \<and> sys (hw c') CNTV_CTL_EL0 = 1 \<and>
      (\<exists>es. console es = tick_text g \<and>
        sys (hw c') CNTV_CVAL_EL0 = dev_mrs p (io (hw c) @ es) CNTVCT_EL0 + gs_tick_period g)"
proof -
  obtain s' tf' where h: "guest_irq_handler p tf (hw c) = Some (Ret tf', s')"
    and e: "hyp_inv p s'" "pending_set (current (hw c)) s' = {}" "\<not> vi_of (sys s' HCR_EL2)"
      "guest_states s' = (guest_states (hw c))[gs p (hw c) := g]" "sys s' CNTV_CTL_EL0 = 1"
      "\<exists>es. console es = tick_text g \<and>
        sys s' CNTV_CVAL_EL0 = dev_mrs p (io (hw c) @ es) CNTVCT_EL0 + gs_tick_period g"
    using guest_tick_end_to_end [OF assms(1-4)] unfolding g_def by blast
  obtain c' where c': "steps (gvec_env p j tf b ext) 43 c = Left c'"
      "cpu_frame ELR_EL1 SPSR_EL1 c' = cpu_frame ELR_EL1 SPSR_EL1 c" "spr c' = spr c"
      "\<forall>a. spr c \<le> a \<longrightarrow> mem c' a = mem c a"
      "hw c' = msr ELR_EL1 (mrs ELR_EL1 (hw c)) (msr SPSR_EL1 (mrs SPSR_EL1 (hw c)) s')"
    using guest_irq_entry [OF at room ext h, of j] by blast
  have "hyp_inv p (hw c')" using e(1) by (subst hyp_inv_cong [of _ s']) (simp_all add: c'(5) msr_def)
  moreover have "pending_set v (hw c') = pending_set v s'" "sys (hw c') HCR_EL2 = sys s' HCR_EL2"
    "guest_states (hw c') = guest_states s'" "sys (hw c') CNTV_CTL_EL0 = sys s' CNTV_CTL_EL0"
    "sys (hw c') CNTV_CVAL_EL0 = sys s' CNTV_CVAL_EL0" for v
    by (simp_all add: c'(5) msr_def pending_set_def vgic_of_def)
  ultimately show ?thesis using c'(1-4) e by (intro exI [of _ c']) simp
qed

theorem guest_irq_transparent_witness:
  "\<exists>c c' e. pc c = 0x400A0280 \<and> steps e 43 c = Left c' \<and> map (xr c') [0..<31] = replicate 31 7"
proof -
  let ?s = "boot_state (board 1 0) ((\<lambda>_. 0)(TPIDR_EL1 := 0x4010A000))"
  let ?c = "\<lparr>xr = (\<lambda>_. 7), spr = 0x40110000, pc = 0x400A0280, flag_c = False, flag_z = False, daif = 0,
    mem = (\<lambda>_. 0), hw = ?s\<rparr>"
  let ?j = "\<lparr>stack_lo = 0x4010C000, junk_x = (\<lambda>_. 5), junk_c = False, junk_z = False, junk_mem = (\<lambda>_. 9)\<rparr>"
  let ?ext = "\<lambda>_. 0x40082000 :: u64"
  have "hyp_inv (board 1 0) (hw ?c)"
    using boot_hyp_inv [of 0] by (subst hyp_inv_cong [of _ "boot_state (board 1 0) (\<lambda>_. 0)"]) simp_all
  moreover have "gs (board 1 0) (hw ?c) < length (guest_states (hw ?c))"
    by (simp add: gs_def mrs_def boot_state_def)
  ultimately obtain c' where "steps (gvec_env (board 1 0) ?j some_frame 0x400A0000 ?ext) 43 ?c = Left c'"
      and f: "cpu_frame ELR_EL1 SPSR_EL1 c' = cpu_frame ELR_EL1 SPSR_EL1 ?c"
    using guest_irq_transparent [OF board_console.pl011_console_axioms, of 1 0 ?c some_frame "0x400A0000" ?ext ?j]
    by (auto simp: some_frame_def stack_room_def linked_guest_def)
  moreover have "map (xr c') [0..<31] = replicate 31 7"
    using arg_cong [OF f, of tf_x] by (simp add: cpu_frame_def map_replicate_trivial)
  ultimately show ?thesis by (intro exI [of _ ?c] exI [of _ c']) auto
qed

text \<open>
  C40. The guest's table is one slot too long after its interrupt entry. The panic loops of vectors 6
  to 15 sit at \<open>0x380\<close> to \<open>0x800\<close>, each one vector late and the last past the 2 KiB the hardware
  uses; and the fast interrupt vector, at \<open>0x300\<close>, does not spin: it loads \<open>x0\<close> to \<open>x15\<close> from
  whatever the stack holds, drops 272 bytes of it and returns to the interrupted code.
\<close>

theorem guest_fiq_not_caught:
  assumes "pc c = b + 0x300" and room: "stack_room 272 (spr c + 272)"
  shows "(\<forall>k. 6 \<le> k \<and> k < 16 \<longrightarrow>
      fetch (img (gvec_env p j tf b ext)) (b + 128 * (of_nat k + 1)) = Some WFI \<and>
      fetch (img (gvec_env p j tf b ext)) (b + 128 * (of_nat k + 1) + 4) = Some (BAL (b + 128 * (of_nat k + 1)))) \<and>
    (\<exists>c'. steps (gvec_env p j tf b ext) 10 c = Left c' \<and> spr c' = spr c + 272 \<and> hw c' = hw c \<and>
      (\<forall>i < 16. xr c' i = mem c (spr c + 8 * of_nat i)))"
proof
  let ?e = "gvec_env p j tf b ext"
  show "\<forall>k. 6 \<le> k \<and> k < 16 \<longrightarrow> fetch (img ?e) (b + 128 * (of_nat k + 1)) = Some WFI \<and>
      fetch (img ?e) (b + 128 * (of_nat k + 1) + 4) = Some (BAL (b + 128 * (of_nat k + 1)))"
    using gpanic_late [of "img ?e"] by simp
  obtain c' where c': "run_block p fiq_code c = Running c'" "spr c' = spr c + 272" "hw c' = hw c" "pc c' = b + 0x324"
      "\<forall>i < 16. xr c' i = mem c (spr c + 8 * of_nat i)"
    using run_fiq [OF room, of p] assms(1) by simp
  note bl = fiq_block [of p j tf b ext, unfolded block_append block_Cons]
  have "steps ?e 9 c = Running c'"
    using steps_block [of ?e c fiq_code] bl assms(1) c'(1) by (simp del: steps.simps)
  moreover have "steps ?e 1 c' = Left c'"
    using bl by (simp add: step_def c'(4) add.commute [of _ b])
  ultimately have "steps ?e 10 c = Left c'" using steps_seq [of ?e 9 c c' 1] by simp
  then show "\<exists>c'. steps ?e 10 c = Left c' \<and> spr c' = spr c + 272 \<and> hw c' = hw c \<and>
      (\<forall>i < 16. xr c' i = mem c (spr c + 8 * of_nat i))"
    using c' by blast
qed

theorem guest_fiq_not_caught_witness:
  "\<exists>c c' e. pc c = 0x400A0300 \<and> steps e 10 c = Left c' \<and> spr c' = 0x40110110 \<and> xr c' 15 = 9"
proof -
  let ?c = "\<lparr>xr = (\<lambda>_. 7), spr = 0x40110000, pc = 0x400A0300, flag_c = False, flag_z = False, daif = 0,
    mem = (\<lambda>_. 9), hw = boot_state (board 1 0) (\<lambda>_. 0)\<rparr>"
  let ?j = "\<lparr>stack_lo = 0x4010C000, junk_x = (\<lambda>_. 5), junk_c = False, junk_z = False, junk_mem = (\<lambda>_. 9)\<rparr>"
  let ?e = "gvec_env (board 1 0) ?j some_frame 0x400A0000 (\<lambda>_. 0x40082000)"
  obtain c' where "steps ?e 10 ?c = Left c'" "spr c' = spr ?c + 272" "\<forall>i < 16. xr c' i = mem ?c (spr ?c + 8 * of_nat i)"
    using guest_fiq_not_caught [of ?c "0x400A0000" "board 1 0" ?j some_frame "\<lambda>_. 0x40082000"]
    by (auto simp: stack_room_def)
  then show ?thesis by (intro exI [of _ ?c] exI [of _ c'] exI [of _ ?e]) simp
qed

end
