(* ===== verification/GuestV3.thy ===== *)
theory GuestV3
  imports Asm Guest GicV3
begin

text \<open>
  The EL1 guest of the GICv3 build (\<open>src/src/guest_v3.S\<close>), as assembled: its start-up, its print
  routines, its interrupt entry and its vectors. The interrupt that \<open>stage4_eret_to_guest\<close> puts in the list
  register reaches it as the value of \<open>ICC_IAR1_EL1\<close>, an input here. Registers the source names by encoding
  are \<open>ICC_SRE_EL1\<close> (\<open>S3_0_C12_C12_5\<close>), \<open>ICC_PMR_EL1\<close> (\<open>S3_0_C4_C6_0\<close>), \<open>ICC_IGRPEN1_EL1\<close>
  (\<open>S3_0_C12_C12_7\<close>), \<open>ICC_IAR1_EL1\<close> (\<open>S3_0_C12_C12_0\<close>) and \<open>ICC_EOIR1_EL1\<close> (\<open>S3_0_C12_C12_1\<close>).
\<close>


section \<open>The program\<close>

definition v3_start :: "line list" where
  "v3_start =
    [Lab ''guest_v3_start'', I (ADR (X 0) (Sym ''guest_v3_stack_top'')), I (MOV SP (X 0)),
     I (ADR (X 0) (Sym ''guest_v3_vectors'')), I (MSR VBAR_EL1 (X 0)), I ISB, I (MOVI (X 0) 1),
     I (MSR ICC_SRE_EL1 (X 0)), I ISB, I (MOVI (X 0) 0xFF), I (MSR ICC_PMR_EL1 (X 0)),
     I (MOVI (X 0) 1), I (MSR ICC_IGRPEN1_EL1 (X 0)), I ISB, I (BL (Sym ''guest_v3_banner'')),
     I (DAIFCLR 0x2), Num 1, I WFE, I (BAL (Bwd 1))]"

definition v3_putc :: "line list" where
  "v3_putc =
    [Lab ''guest_v3_putc'', I (MOVI (X 1) 0x09000000), I (STRW (X 0) (X 1)), I RET]"

definition v3_puts :: "line list" where
  "v3_puts =
    [Lab ''guest_v3_puts'', I (MOV (X 2) (X 0)), I (MOV (X 3) (X 30)), I (MOVI (X 1) 0x09000000),
     Num 1, I (LDRB_POST (X 0) (X 2) 1), I (CBZW (X 0) (Fwd 2)), I (STRW (X 0) (X 1)), I (BAL (Bwd 1)),
     Num 2, I (MOV (X 30) (X 3)), I RET]"

definition v3_banner :: "line list" where
  "v3_banner =
    [Lab ''guest_v3_banner'', I (MOV (X 29) (X 30)), I (ADR (X 0) (Sym ''.Lguest_banner'')),
     I (BL (Sym ''guest_v3_puts'')), I (MOV (X 30) (X 29)), I RET, Lab ''.Lguest_banner'',
     Asciz (''[guest-el1] up, waiting for injected IRQ'' @ NL), Balign 4]"

definition v3_irq_entry :: "line list" where
  "v3_irq_entry =
    [Lab ''guest_v3_irq_entry'', I (SUB SP SP 64), I (STP (X 0) (X 1) SP 0), I (STP (X 2) (X 3) SP 16),
     I (STP (X 29) (X 30) SP 32), I (MRS (X 19) ICC_IAR1_EL1), I (ANDI (X 20) (X 19) 0xFFFFFF),
     I (MOVI (X 21) 1023), I (CMP (X 20) (X 21)), I (BEQ (Fwd 1)),
     I (ADR (X 0) (Sym ''.Lguest_got_irq'')), I (BL (Sym ''guest_v3_puts'')),
     I (ANDI (X 20) (X 19) 0xFF), I (LSR (X 0) (X 20) 4), I (BL (Sym ''guest_v3_hex_nibble'')),
     I (ANDI (X 0) (X 20) 0xF), I (BL (Sym ''guest_v3_hex_nibble'')), I (MOVI (X 0) 10),
     I (BL (Sym ''guest_v3_putc'')), I (MSR ICC_EOIR1_EL1 (X 19)), I ISB,
     I (ADR (X 0) (Sym ''.Lguest_done'')), I (BL (Sym ''guest_v3_puts'')), I (DAIFSET 0xF), Num 2,
     I WFE, I (BAL (Bwd 2)), Num 1, I (MSR ICC_EOIR1_EL1 (X 19)), I ISB, I (LDP (X 29) (X 30) SP 32),
     I (LDP (X 2) (X 3) SP 16), I (LDP (X 0) (X 1) SP 0), I (ADD SP SP 64), I ERET]"

definition v3_hex_nibble :: "line list" where
  "v3_hex_nibble =
    [Lab ''guest_v3_hex_nibble'', I (MOV (X 2) (X 30)), I (CMPI (X 0) 9), I (BHI (Fwd 1)),
     I (ADD (X 0) (X 0) 48), I (BAL (Fwd 2)), Num 1, I (ADD (X 0) (X 0) 87), Num 2,
     I (MOVI (X 1) 0x09000000), I (STRW (X 0) (X 1)), I (MOV (X 30) (X 2)), I RET,
     Lab ''.Lguest_got_irq'', Asciz ''[guest-el1] IAR=0x'', Balign 4, Lab ''.Lguest_done'',
     Asciz (''[guest-el1] IRQ handled, Stage 4 complete'' @ NL), Balign 4]"

definition BAD_SLOT :: "nat \<Rightarrow> line list" where
  "BAD_SLOT n = [I (MOVI (X 21) (of_nat n)), I (BAL (Sym ''guest_v3_bad''))]"

definition v3_bad_slots :: "nat list \<Rightarrow> line list" where
  "v3_bad_slots ns = concat (map (\<lambda>n. Balign 128 # BAD_SLOT n) ns)"

definition v3_vectors :: "line list" where
  "v3_vectors = [Balign 2048, Lab ''guest_v3_vectors''] @ v3_bad_slots [0, 1, 2, 3, 4]
     @ [Balign 128, I (BAL (Sym ''guest_v3_irq_entry''))]
     @ v3_bad_slots [6, 7, 8, 9, 10, 11, 12, 13, 14, 15]"

definition v3_bad :: "line list" where
  "v3_bad =
    [Lab ''guest_v3_bad'', I (ADR (X 0) (Sym ''.Lguest_bad_msg'')), I (BL (Sym ''guest_v3_puts'')),
     I (MOV (X 0) (X 21)), I (LSR (X 0) (X 0) 4), I (ANDI (X 0) (X 0) 0xF),
     I (BL (Sym ''guest_v3_hex_nibble'')), I (MOV (X 0) (X 21)), I (ANDI (X 0) (X 0) 0xF),
     I (BL (Sym ''guest_v3_hex_nibble'')), I (ADR (X 0) (Sym ''.Lguest_bad_esr'')),
     I (BL (Sym ''guest_v3_puts'')), I (MRS (X 22) ESR_EL1), I (LSR (X 0) (X 22) 28),
     I (ANDI (X 0) (X 0) 0xF), I (BL (Sym ''guest_v3_hex_nibble'')), I (LSR (X 0) (X 22) 24),
     I (ANDI (X 0) (X 0) 0xF), I (BL (Sym ''guest_v3_hex_nibble'')), I (LSR (X 0) (X 22) 20),
     I (ANDI (X 0) (X 0) 0xF), I (BL (Sym ''guest_v3_hex_nibble'')), I (LSR (X 0) (X 22) 16),
     I (ANDI (X 0) (X 0) 0xF), I (BL (Sym ''guest_v3_hex_nibble'')), I (LSR (X 0) (X 22) 12),
     I (ANDI (X 0) (X 0) 0xF), I (BL (Sym ''guest_v3_hex_nibble'')), I (LSR (X 0) (X 22) 8),
     I (ANDI (X 0) (X 0) 0xF), I (BL (Sym ''guest_v3_hex_nibble'')), I (LSR (X 0) (X 22) 4),
     I (ANDI (X 0) (X 0) 0xF), I (BL (Sym ''guest_v3_hex_nibble'')), I (ANDI (X 0) (X 22) 0xF),
     I (BL (Sym ''guest_v3_hex_nibble'')), I (MOVI (X 0) 10), I (BL (Sym ''guest_v3_putc'')), Num 1,
     I WFE, I (BAL (Bwd 1)), Lab ''.Lguest_bad_msg'', Asciz ''[guest-el1] bad-slot 0x'', Balign 4,
     Lab ''.Lguest_bad_esr'', Asciz '' ESR_EL1=0x'', Balign 4]"

definition v3_stack :: "line list" where
  "v3_stack =
    [Balign 16, Lab ''guest_v3_stack_bottom'', Skip 4096, Lab ''guest_v3_stack_top'']"

definition guest_v3_S :: "line list" where
  "guest_v3_S = v3_start @ v3_putc @ v3_puts @ v3_banner @ v3_irq_entry @ v3_hex_nibble @ v3_vectors
     @ v3_bad @ v3_stack"

definition v3_image :: "u64 \<Rightarrow> image" where
  "v3_image b = \<lparr>base = b, source = guest_v3_S, extern = (\<lambda>_. 0)\<rparr>"

definition v3_env :: "platform \<Rightarrow> u64 \<Rightarrow> env" where
  "v3_env p b = \<lparr>img = v3_image b, plat = p, calls = (\<lambda>_. None)\<rparr>"

lemmas v3_code_defs = guest_v3_S_def v3_start_def v3_putc_def v3_puts_def v3_banner_def v3_irq_entry_def
  v3_hex_nibble_def v3_vectors_def v3_bad_slots_def BAD_SLOT_def v3_bad_def v3_stack_def


lemma v3_image_simps [simp]: "base (v3_image b) = b" "source (v3_image b) = guest_v3_S" "extern (v3_image b) = (\<lambda>_. 0)"
  by (simp_all add: v3_image_def)

lemma v3_env_simps [simp]: "img (v3_env p b) = v3_image b" "plat (v3_env p b) = p" "calls (v3_env p b) = (\<lambda>_. None)"
  by (simp_all add: v3_env_def)

lemma v3_ends:
  "end_at 0 v3_start = 0x44" "end_at 0x44 v3_putc = 0x50" "end_at 0x50 v3_puts = 0x74" "end_at 0x74 v3_banner = 0xB4"
  "end_at 0xB4 v3_irq_entry = 0x134" "end_at 0x134 v3_hex_nibble = 0x19C" "end_at 0x19C v3_vectors = 0xF88"
  "end_at 0xF88 v3_bad = 0x1048" "end_at 0x1048 v3_stack = 0x2050"
  by (simp_all add: v3_code_defs)

lemma v3_label_table: "filter is_label (layout 0 guest_v3_S) =
    [(0x0, Lab ''guest_v3_start''), (0x44, Lab ''guest_v3_putc''), (0x50, Lab ''guest_v3_puts''),
     (0x74, Lab ''guest_v3_banner''), (0x88, Lab ''.Lguest_banner''),
     (0xB4, Lab ''guest_v3_irq_entry''), (0x134, Lab ''guest_v3_hex_nibble''),
     (0x15C, Lab ''.Lguest_got_irq''), (0x170, Lab ''.Lguest_done''),
     (0x800, Lab ''guest_v3_vectors''), (0xF88, Lab ''guest_v3_bad''),
     (0x1024, Lab ''.Lguest_bad_msg''), (0x103C, Lab ''.Lguest_bad_esr''),
     (0x1050, Lab ''guest_v3_stack_bottom''), (0x2050, Lab ''guest_v3_stack_top'')]"
  by (simp add: v3_code_defs)

lemma v3_symbols:
  "symbol (v3_image b) ''guest_v3_start'' = b"
  "symbol (v3_image b) ''guest_v3_putc'' = b + 0x44"
  "symbol (v3_image b) ''guest_v3_puts'' = b + 0x50"
  "symbol (v3_image b) ''guest_v3_banner'' = b + 0x74"
  "symbol (v3_image b) ''.Lguest_banner'' = b + 0x88"
  "symbol (v3_image b) ''guest_v3_irq_entry'' = b + 0xB4"
  "symbol (v3_image b) ''guest_v3_hex_nibble'' = b + 0x134"
  "symbol (v3_image b) ''.Lguest_got_irq'' = b + 0x15C"
  "symbol (v3_image b) ''.Lguest_done'' = b + 0x170"
  "symbol (v3_image b) ''guest_v3_vectors'' = b + 0x800"
  "symbol (v3_image b) ''guest_v3_bad'' = b + 0xF88"
  "symbol (v3_image b) ''.Lguest_bad_msg'' = b + 0x1024"
  "symbol (v3_image b) ''.Lguest_bad_esr'' = b + 0x103C"
  "symbol (v3_image b) ''guest_v3_stack_bottom'' = b + 0x1050"
  "symbol (v3_image b) ''guest_v3_stack_top'' = b + 0x2050"
  by (simp_all add: symbol_def where_is_label [of _ "layout _ _"] v3_label_table)

lemma v3_splits:
  "guest_v3_S = [] @ v3_start @ v3_putc @ v3_puts @ v3_banner @ v3_irq_entry @ v3_hex_nibble @ v3_vectors @ v3_bad @ v3_stack"
  "guest_v3_S = (v3_start) @ v3_putc @ v3_puts @ v3_banner @ v3_irq_entry @ v3_hex_nibble @ v3_vectors @ v3_bad @ v3_stack"
  "guest_v3_S = (v3_start @ v3_putc) @ v3_puts @ v3_banner @ v3_irq_entry @ v3_hex_nibble @ v3_vectors @ v3_bad @ v3_stack"
  "guest_v3_S = (v3_start @ v3_putc @ v3_puts) @ v3_banner @ v3_irq_entry @ v3_hex_nibble @ v3_vectors @ v3_bad @ v3_stack"
  "guest_v3_S = (v3_start @ v3_putc @ v3_puts @ v3_banner) @ v3_irq_entry @ v3_hex_nibble @ v3_vectors @ v3_bad @ v3_stack"
  "guest_v3_S = (v3_start @ v3_putc @ v3_puts @ v3_banner @ v3_irq_entry) @ v3_hex_nibble @ v3_vectors @ v3_bad @ v3_stack"
  "guest_v3_S = (v3_start @ v3_putc @ v3_puts @ v3_banner @ v3_irq_entry @ v3_hex_nibble) @ v3_vectors @ v3_bad @ v3_stack"
  "guest_v3_S = (v3_start @ v3_putc @ v3_puts @ v3_banner @ v3_irq_entry @ v3_hex_nibble @ v3_vectors) @ v3_bad @ v3_stack"
  "guest_v3_S = (v3_start @ v3_putc @ v3_puts @ v3_banner @ v3_irq_entry @ v3_hex_nibble @ v3_vectors @ v3_bad) @ v3_stack"
  by (simp_all only: guest_v3_S_def append_assoc append_Nil)

lemma v3_block:
  assumes "guest_v3_S = pre @ ls" and "a = b + of_nat n" and "end_at 0 pre = off" and "off \<le> n"
    and "block_in (v3_image b) off (rev (layout 0 pre)) ls n is" and "n + 4 * length is < 2 ^ 64"
  shows "block (v3_image b) a is"
  using block_inD [of "v3_image b" pre ls off n "is"] assms by simp

lemma v3_start_code: "block (v3_image b) b
    [ADR (X 0) (b + 0x2050), MOV SP (X 0), ADR (X 0) (b + 0x800), MSR VBAR_EL1 (X 0), ISB,
     MOVI (X 0) 1, MSR ICC_SRE_EL1 (X 0), ISB, MOVI (X 0) 0xFF, MSR ICC_PMR_EL1 (X 0), MOVI (X 0) 1,
     MSR ICC_IGRPEN1_EL1 (X 0), ISB, BL (b + 0x74), DAIFCLR 0x2, WFE, BAL (b + 0x3C)]"
  by (rule v3_block [OF v3_splits(1), where n = "0x0" and off = "0x0"]) (simp_all add: v3_ends v3_start_def v3_symbols)

lemma v3_putc_code: "block (v3_image b) (b + 0x44)
    [MOVI (X 1) 0x09000000, STRW (X 0) (X 1), RET]"
  by (rule v3_block [OF v3_splits(2), where n = "0x44" and off = "0x44"]) (simp_all add: v3_ends v3_putc_def v3_symbols)

lemma v3_puts_code: "block (v3_image b) (b + 0x50)
    [MOV (X 2) (X 0), MOV (X 3) (X 30), MOVI (X 1) 0x09000000, LDRB_POST (X 0) (X 2) 1,
     CBZW (X 0) (b + 0x6C), STRW (X 0) (X 1), BAL (b + 0x5C), MOV (X 30) (X 3), RET]"
  by (rule v3_block [OF v3_splits(3), where n = "0x50" and off = "0x50"]) (simp_all add: v3_ends v3_puts_def v3_symbols)

lemma v3_banner_code: "block (v3_image b) (b + 0x74)
    [MOV (X 29) (X 30), ADR (X 0) (b + 0x88), BL (b + 0x50), MOV (X 30) (X 29), RET]"
  by (rule v3_block [OF v3_splits(4), where n = "0x74" and off = "0x74"]) (simp_all add: v3_ends v3_banner_def v3_symbols)

lemma v3_irq_entry_code: "block (v3_image b) (b + 0xB4)
    [SUB SP SP 64, STP (X 0) (X 1) SP 0, STP (X 2) (X 3) SP 16, STP (X 29) (X 30) SP 32,
     MRS (X 19) ICC_IAR1_EL1, ANDI (X 20) (X 19) 0xFFFFFF, MOVI (X 21) 1023, CMP (X 20) (X 21),
     BEQ (b + 0x118), ADR (X 0) (b + 0x15C), BL (b + 0x50), ANDI (X 20) (X 19) 0xFF,
     LSR (X 0) (X 20) 4, BL (b + 0x134), ANDI (X 0) (X 20) 0xF, BL (b + 0x134), MOVI (X 0) 10,
     BL (b + 0x44), MSR ICC_EOIR1_EL1 (X 19), ISB, ADR (X 0) (b + 0x170), BL (b + 0x50), DAIFSET 0xF,
     WFE, BAL (b + 0x110), MSR ICC_EOIR1_EL1 (X 19), ISB, LDP (X 29) (X 30) SP 32,
     LDP (X 2) (X 3) SP 16, LDP (X 0) (X 1) SP 0, ADD SP SP 64, ERET]"
  by (rule v3_block [OF v3_splits(5), where n = "0xB4" and off = "0xB4"]) (simp_all add: v3_ends v3_irq_entry_def v3_symbols)

lemma v3_hex_nibble_code: "block (v3_image b) (b + 0x134)
    [MOV (X 2) (X 30), CMPI (X 0) 9, BHI (b + 0x148), ADD (X 0) (X 0) 48, BAL (b + 0x14C),
     ADD (X 0) (X 0) 87, MOVI (X 1) 0x09000000, STRW (X 0) (X 1), MOV (X 30) (X 2), RET]"
  by (rule v3_block [OF v3_splits(6), where n = "0x134" and off = "0x134"]) (simp_all add: v3_ends v3_hex_nibble_def v3_symbols)

lemma v3_bad_code: "block (v3_image b) (b + 0xF88)
    [ADR (X 0) (b + 0x1024), BL (b + 0x50), MOV (X 0) (X 21), LSR (X 0) (X 0) 4, ANDI (X 0) (X 0) 0xF,
     BL (b + 0x134), MOV (X 0) (X 21), ANDI (X 0) (X 0) 0xF, BL (b + 0x134), ADR (X 0) (b + 0x103C),
     BL (b + 0x50), MRS (X 22) ESR_EL1, LSR (X 0) (X 22) 28, ANDI (X 0) (X 0) 0xF, BL (b + 0x134),
     LSR (X 0) (X 22) 24, ANDI (X 0) (X 0) 0xF, BL (b + 0x134), LSR (X 0) (X 22) 20,
     ANDI (X 0) (X 0) 0xF, BL (b + 0x134), LSR (X 0) (X 22) 16, ANDI (X 0) (X 0) 0xF, BL (b + 0x134),
     LSR (X 0) (X 22) 12, ANDI (X 0) (X 0) 0xF, BL (b + 0x134), LSR (X 0) (X 22) 8,
     ANDI (X 0) (X 0) 0xF, BL (b + 0x134), LSR (X 0) (X 22) 4, ANDI (X 0) (X 0) 0xF, BL (b + 0x134),
     ANDI (X 0) (X 22) 0xF, BL (b + 0x134), MOVI (X 0) 10, BL (b + 0x44), WFE, BAL (b + 0x101C)]"
  by (rule v3_block [OF v3_splits(8), where n = "0xF88" and off = "0xF88"]) (simp_all add: v3_ends v3_bad_def v3_symbols)

end
