(* ===== verification/GuestV3Run.thy ===== *)
theory GuestV3Run
  imports GuestV3 Vectors
begin

text \<open>
  What the EL1 guest of the GICv3 build does when it runs: its print routines as contracts on the
  registers and on the console, its start-up, its interrupt entry on a real and on a spurious
  interrupt, its report of an unexpected exception, and the whole path from \<open>kmain\<close> of that build
  to the guest's last line. The strings are assumed to be in memory where the assembler put
  them (\<open>data_loaded\<close>); \<open>v3_memory\<close> is such a memory.
\<close>


section \<open>Printing\<close>

text \<open>Bytes sent to the PL011 data register.\<close>

definition uart_out :: "u8 list \<Rightarrow> hyp \<Rightarrow> hyp" where
  "uart_out cs s = s\<lparr>io := io s @ map (\<lambda>ch. Store W32 0x09000000 (ucast ch)) cs\<rparr>"

lemma uart_out_simps [simp]:
  "uart_out [] s = s" "uart_out cs' (uart_out cs s) = uart_out (cs @ cs') s" "sys (uart_out cs s) = sys s"
  by (simp_all add: uart_out_def)

lemma uart_out_store: "store W32 0x09000000 (ucast ch) (uart_out cs s) = uart_out (cs @ [ch]) s"
  by (simp add: uart_out_def store_def)

lemma ucast_byte_word [simp]: "(ucast (ucast (ch :: u8) :: u64) :: u32) = ucast ch"
  by (rule bit_word_eqI) (auto simp: bit_unsigned_iff dest: bit_imp_le_length)

lemma ucast_byte_back [simp]: "(ucast (ucast (ch :: u8) :: u32) :: u8) = ch"
  by (rule bit_word_eqI) (auto simp: bit_unsigned_iff dest: bit_imp_le_length)

lemma ucast_byte_0 [simp]: "(ucast (ch :: u8) :: u32) = 0 \<longleftrightarrow> ch = 0"
  using ucast_byte_back [of ch] by (metis unsigned_0)

lemma io_uart_out:
  "console (io (uart_out cs s)) = console (io s) @ cs" "icc_eois (io (uart_out cs s)) = icc_eois (io s)"
proof -
  have "console (map (\<lambda>ch. Store W32 0x09000000 (ucast ch)) cs) = cs" by (induction cs) (simp_all add: hyp_consts)
  moreover have "icc_eois (map (\<lambda>ch. Store W32 0x09000000 (ucast ch)) cs) = []" by (induction cs) simp_all
  ultimately show "console (io (uart_out cs s)) = console (io s) @ cs"
    "icc_eois (io (uart_out cs s)) = icc_eois (io s)"
    by (simp_all add: uart_out_def)
qed

text \<open>A zero-terminated string in memory.\<close>

fun cstring :: "(u64 \<Rightarrow> u64) \<Rightarrow> u64 \<Rightarrow> u8 list \<Rightarrow> bool" where
  "cstring m a [] \<longleftrightarrow> ram_addr a \<and> byte_of m a = 0"
| "cstring m a (ch # cs) \<longleftrightarrow> ram_addr a \<and> byte_of m a = ch \<and> ch \<noteq> 0 \<and> cstring m (a + 1) cs"

text \<open>A routine that comes back to \<open>a\<close> having printed \<open>cs\<close>, with the registers from \<open>k\<close> up kept.\<close>

definition printed :: "nat \<Rightarrow> u64 \<Rightarrow> u8 list \<Rightarrow> cpu \<Rightarrow> cpu \<Rightarrow> bool" where
  "printed k a cs c c' \<longleftrightarrow> pc c' = a \<and> hw c' = uart_out cs (hw c) \<and> spr c' = spr c \<and> mem c' = mem c \<and>
     daif c' = daif c \<and> (\<forall>i \<ge> k. xr c' i = xr c i)"

lemma puts_loop:
  assumes "pc c = b + 0x5C" and "xr c 1 = 0x09000000" and "cstring (mem c) (xr c 2) cs"
  shows "\<exists>c'. runs (v3_env p b) c c' \<and> printed 3 (b + 0x6C) cs c c'"
  using assms
proof (induction cs arbitrary: c)
  note code = v3_puts_code [of b, unfolded block_Cons]
  {
    case Nil
    let ?c' = "goto (b + 0x6C) (put_reg (X 0) 0 (put_reg (X 2) (xr c 2 + 1) c))"
    have "steps (v3_env p b) 2 c = Running ?c'"
      using code Nil by (simp add: steps_numeral step_def adv_def goto_def add.commute [of _ b])
    then show ?case using runsI by (intro exI [of _ ?c']) (auto simp: printed_def goto_def)
  next
    case (Cons ch cs)
    let ?c' = "goto (b + 0x5C) (put_reg (X 0) (ucast ch) (put_reg (X 2) (xr c 2 + 1) (c\<lparr>hw := uart_out [ch] (hw c)\<rparr>)))"
    have "\<not> ram_addr 0x09000000" by (simp add: ram_addr_def)
    then have "steps (v3_env p b) 4 c = Running ?c'"
      using code Cons.prems uart_out_store [of ch "[]" "hw c"]
      by (simp add: steps_numeral step_def adv_def goto_def Let_def add.commute [of _ b])
    moreover obtain c'' where "runs (v3_env p b) ?c' c''" "printed 3 (b + 0x6C) cs ?c' c''"
      using Cons.IH [of ?c'] Cons.prems by (auto simp: goto_def)
    ultimately show ?case
      using runs_trans [OF runsI] by (intro exI [of _ c'']) (auto simp: printed_def goto_def)
  }
qed

lemma puts_runs:
  assumes "pc c = b + 0x50" and "cstring (mem c) (xr c 0) cs"
  shows "\<exists>c'. runs (v3_env p b) c c' \<and> printed 4 (xr c 30) cs c c'"
proof -
  note code = v3_puts_code [of b, unfolded block_Cons]
  let ?c1 = "c\<lparr>xr := (xr c)(2 := xr c 0, 3 := xr c 30, 1 := 0x09000000), pc := b + 0x5C\<rparr>"
  have "steps (v3_env p b) 3 c = Running ?c1"
    using code assms(1) by (simp add: steps_numeral step_def adv_def add.commute [of _ b])
  moreover obtain c2 where c2: "runs (v3_env p b) ?c1 c2" "printed 3 (b + 0x6C) cs ?c1 c2"
    using puts_loop [of ?c1 b cs p] assms(2) by auto
  moreover have x3: "xr c2 3 = xr c 30" using c2(2) by (simp add: printed_def)
  have "steps (v3_env p b) 2 c2 = Running (goto (xr c 30) (put_reg (X 30) (xr c 30) c2))"
    using code c2(2) x3 by (simp add: printed_def steps_numeral step_def adv_def goto_def add.commute [of _ b])
  ultimately have "runs (v3_env p b) c (goto (xr c 30) (put_reg (X 30) (xr c 30) c2))"
    using runs_trans runsI by meson
  then show ?thesis using c2(2) by (intro exI conjI) (auto simp: printed_def goto_def)
qed

lemma putc_runs:
  assumes "pc c = b + 0x44" and "ucast (xr c 0) = (ucast ch :: u32)"
  shows "\<exists>c'. runs (v3_env p b) c c' \<and> printed 4 (xr c 30) [ch] c c'"
proof -
  let ?c' = "c\<lparr>xr := (xr c)(1 := 0x09000000), hw := uart_out [ch] (hw c), pc := xr c 30\<rparr>"
  have "steps (v3_env p b) 3 c = Running ?c'"
    using v3_putc_code [of b, unfolded block_Cons] assms uart_out_store [of ch "[]" "hw c"]
    by (simp add: steps_numeral step_def adv_def goto_def ram_addr_def Let_def add.commute [of _ b])
  then show ?thesis using runsI by (intro exI [of _ ?c']) (auto simp: printed_def)
qed

lemma nibble_char:
  assumes "n < 16"
  shows "(ucast (n + (if n \<le> 9 then 48 else 87)) :: u32) = ucast (hex_digit n)"
proof -
  have "unat n \<in> set [0..<16]" using assms by (simp add: word_less_nat_alt)
  moreover have "[0..<16] = [0, 1, 2, 3, 4, 5, 6, 7, 8, 9, 10, 11, 12, 13, 14, 15]" by code_simp
  moreover have "n = of_nat (unat n)" by simp
  ultimately have "n \<in> set (map of_nat [0, 1, 2, 3, 4, 5, 6, 7, 8, 9, 10, 11, 12, 13, 14, 15])"
    unfolding list.set_map by (metis image_eqI)
  then show ?thesis by (auto simp: hex_digit_def)
qed

lemma hex_nibble_runs:
  assumes "pc c = b + 0x134" and n: "xr c 0 < 16"
  shows "\<exists>c'. runs (v3_env p b) c c' \<and> printed 4 (xr c 30) [hex_digit (xr c 0)] c c'"
proof -
  note code = v3_hex_nibble_code [of b, unfolded block_Cons]
  let ?x = "xr c 0 + (if xr c 0 \<le> 9 then 48 else 87)"
  let ?c1 = "(compare (xr c 0) 9 c)\<lparr>xr := (xr c)(2 := xr c 30, 0 := ?x), pc := b + 0x14C\<rparr>"
  have le: "xr c 0 \<le> 9 \<longleftrightarrow> \<not> (9 \<le> xr c 0 \<and> xr c 0 \<noteq> 9)" by auto
  have "runs (v3_env p b) c ?c1"
  proof (cases "xr c 0 \<le> 9")
    case True
    then have "steps (v3_env p b) 5 c = Running ?c1"
      using code assms(1) le
      by (simp add: steps_numeral step_def adv_def goto_def compare_def add.commute [of _ b])
    then show ?thesis by (rule runsI)
  next
    case False
    then have "steps (v3_env p b) 4 c = Running ?c1"
      using code assms(1) le
      by (auto simp: steps_numeral step_def adv_def goto_def compare_def add.commute [of _ b])
    then show ?thesis by (rule runsI)
  qed
  moreover let ?c' = "?c1\<lparr>xr := (xr ?c1)(1 := 0x09000000, 30 := xr c 30), hw := uart_out [hex_digit (xr c 0)] (hw c),
    pc := xr c 30\<rparr>"
  have "steps (v3_env p b) 4 ?c1 = Running ?c'"
    using code nibble_char [OF n] uart_out_store [of "hex_digit (xr c 0)" "[]" "hw c"]
    by (simp add: steps_numeral step_def adv_def goto_def ram_addr_def Let_def compare_def add.commute [of _ b])
  ultimately have "runs (v3_env p b) c ?c'" using runs_trans runsI by blast
  then show ?thesis by (intro exI [of _ ?c'] conjI) (auto simp: printed_def compare_def)
qed


section \<open>Sequences of prints\<close>

text \<open>
  A point of the program: the offset reached, what was printed since the state \<open>c0\<close>, and what is
  still as it was there. \<open>x19\<close> to \<open>x28\<close> are the registers no print routine touches.
\<close>

definition at_point :: "u64 \<Rightarrow> nat \<Rightarrow> u8 list \<Rightarrow> cpu \<Rightarrow> cpu \<Rightarrow> bool" where
  "at_point b off cs c0 c \<longleftrightarrow> pc c = b + of_nat off \<and> hw c = uart_out cs (hw c0) \<and> spr c = spr c0 \<and>
     mem c = mem c0 \<and> daif c = daif c0 \<and> (\<forall>i. 19 \<le> i \<and> i < 29 \<longrightarrow> xr c i = xr c0 i)"

text \<open>The routines: where they are, what they need in \<open>x0\<close>, what they print.\<close>

definition routine :: "u64 \<Rightarrow> (u64 \<Rightarrow> u64) \<Rightarrow> u64 \<Rightarrow> u64 \<Rightarrow> u8 list \<Rightarrow> bool" where
  "routine b m f v tx \<longleftrightarrow> (f = b + 0x50 \<and> cstring m v tx) \<or> (f = b + 0x134 \<and> v < 16 \<and> tx = [hex_digit v])
     \<or> (f = b + 0x44 \<and> (\<exists>ch. tx = [ch] \<and> ucast v = (ucast ch :: u32)))"

lemma routine_runs:
  assumes "routine b (mem c) (pc c) (xr c 0) tx"
  shows "\<exists>c'. runs (v3_env p b) c c' \<and> printed 4 (xr c 30) tx c c'"
  using assms puts_runs [of c b tx p] hex_nibble_runs [of c b p] putc_runs [of c b _ p]
  unfolding routine_def by blast

lemma say:
  assumes at: "at_point b off cs c0 c" and bl: "block (v3_image b) (b + of_nat off) (ins @ [BL f])"
    and st: "list_all straight ins"
    and run: "run_block p ins c = Running (c\<lparr>xr := (xr c)(0 := v), pc := b + of_nat (off + 4 * length ins)\<rparr>)"
    and rt: "routine b (mem c0) f v tx"
  shows "\<exists>c'. runs (v3_env p b) c c' \<and> at_point b (off + 4 * length ins + 4) (cs @ tx) c0 c'"
proof -
  let ?c1 = "c\<lparr>xr := (xr c)(0 := v), pc := b + of_nat (off + 4 * length ins)\<rparr>"
  let ?c2 = "?c1\<lparr>xr := (xr ?c1)(30 := pc ?c1 + 4), pc := f\<rparr>"
  have "block (v3_image b) (pc c) ins" "fetch (v3_image b) (pc ?c1) = Some (BL f)"
    using bl at by (simp_all add: block_append block_Cons at_point_def add.assoc)
  then have "runs (v3_env p b) c ?c1" "runs (v3_env p b) ?c1 ?c2"
    using runs_block [of "v3_env p b" c ins ?c1] runs_step [of "v3_env p b" ?c1 ?c2] st run
    by (simp_all add: step_def goto_def)
  moreover obtain c3 where c3: "runs (v3_env p b) ?c2 c3" "printed 4 (xr ?c2 30) tx ?c2 c3"
    using routine_runs [of b ?c2 tx p] rt at by (auto simp: at_point_def)
  ultimately have "runs (v3_env p b) c c3" using runs_trans by blast
  moreover have "at_point b (off + 4 * length ins + 4) (cs @ tx) c0 c3"
    using c3(2) at by (simp add: printed_def at_point_def add.assoc)
  ultimately show ?thesis by blast
qed

text \<open>The forms in which the program calls them.\<close>

lemma routines:
  "cstring m v tx \<Longrightarrow> routine b m (b + 0x50) v tx" "v < 16 \<Longrightarrow> routine b m (b + 0x134) v [hex_digit v]"
  "routine b m (b + 0x44) 10 [10]"
  by (auto simp: routine_def intro!: exI [of _ 10])

lemma say_string:
  assumes "at_point b off cs c0 c" and "block (v3_image b) (b + of_nat off) [ADR (X 0) a, BL (b + 0x50)]"
    and "cstring (mem c0) a tx"
  shows "\<exists>c'. runs (v3_env p b) c c' \<and> at_point b (off + 8) (cs @ tx) c0 c'"
  using say [OF assms(1), where p = p and ins = "[ADR (X 0) a]", OF _ _ _ routines(1) [OF assms(3)]] assms(1,2)
  by (simp add: adv_def at_point_def [of _ _ _ _ c] ac_simps)

lemma say_newline:
  assumes "at_point b off cs c0 c" and "block (v3_image b) (b + of_nat off) [MOVI (X 0) 10, BL (b + 0x44)]"
  shows "\<exists>c'. runs (v3_env p b) c c' \<and> at_point b (off + 8) (cs @ [10]) c0 c'"
  using say [OF assms(1), where p = p and ins = "[MOVI (X 0) 10]", OF _ _ _ routines(3)] assms(1,2)
  by (simp add: adv_def at_point_def [of _ _ _ _ c] ac_simps)

lemma say_high:
  assumes "at_point b off cs c0 c" and "block (v3_image b) (b + of_nat off) [LSR (X 0) (X 20) 4, BL (b + 0x134)]"
    and "drop_bit 4 (xr c0 20) < 16"
  shows "\<exists>c'. runs (v3_env p b) c c' \<and> at_point b (off + 8) (cs @ [hex_digit (drop_bit 4 (xr c0 20))]) c0 c'"
  using say [OF assms(1), where p = p and ins = "[LSR (X 0) (X 20) 4]", OF _ _ _ routines(2) [OF assms(3)]] assms(1,2)
  by (simp add: adv_def at_point_def [of _ _ _ _ c] ac_simps)

lemma nibble_less: "(v :: u64) AND 0xF < 16"
proof -
  have "v AND 0xF \<le> 0xF" by (rule word_and_le1)
  then show ?thesis by (simp add: word_le_nat_alt word_less_nat_alt)
qed

lemma say_low:
  assumes "at_point b off cs c0 c" and "19 \<le> r" "r < 29"
    and "block (v3_image b) (b + of_nat off) [ANDI (X 0) (X r) 0xF, BL (b + 0x134)]"
  shows "\<exists>c'. runs (v3_env p b) c c' \<and> at_point b (off + 8) (cs @ [hex_digit (xr c0 r AND 0xF)]) c0 c'"
  using say [OF assms(1), where p = p and ins = "[ANDI (X 0) (X r) 0xF]", OF _ _ _ routines(2) [OF nibble_less]] assms
  by (simp add: adv_def at_point_def [of _ _ _ _ c] ac_simps)

lemma say_shifted:
  assumes "at_point b off cs c0 c" and "19 \<le> r" "r < 29"
    and "block (v3_image b) (b + of_nat off) [LSR (X 0) (X r) n, ANDI (X 0) (X 0) 0xF, BL (b + 0x134)]"
  shows "\<exists>c'. runs (v3_env p b) c c' \<and> at_point b (off + 12) (cs @ [hex_digit (drop_bit n (xr c0 r) AND 0xF)]) c0 c'"
  using say [OF assms(1), where p = p and ins = "[LSR (X 0) (X r) n, ANDI (X 0) (X 0) 0xF]",
      OF _ _ _ routines(2) [OF nibble_less]] assms
  by (simp add: adv_def at_point_def [of _ _ _ _ c] ac_simps)


section \<open>The image in memory\<close>

text \<open>Every \<open>.asciz\<close> line of an image stands in memory where the assembler put it.\<close>

definition data_loaded :: "image \<Rightarrow> (u64 \<Rightarrow> u64) \<Rightarrow> bool" where
  "data_loaded im m = list_all (\<lambda>(off, l). case l of Asciz s \<Rightarrow> cstring m (base im + of_nat off) (map of_char s) | _ \<Rightarrow> True)
     (layout 0 (source im))"

definition placed :: "u64 \<Rightarrow> bool" where
  "placed b \<longleftrightarrow> take_bit 11 b = 0 \<and> 0x40000000 \<le> b \<and> b \<le> 0x5FFFC000"

definition banner_text :: "u8 list" where
  "banner_text = map of_char (''[guest-el1] up, waiting for injected IRQ'' @ NL)"

definition got_irq_text :: "u8 list" where
  "got_irq_text = map of_char ''[guest-el1] IAR=0x''"

definition done_text :: "u8 list" where
  "done_text = map of_char (''[guest-el1] IRQ handled, Stage 4 complete'' @ NL)"

definition bad_text :: "u8 list" where
  "bad_text = map of_char ''[guest-el1] bad-slot 0x''"

definition esr_text :: "u8 list" where
  "esr_text = map of_char '' ESR_EL1=0x''"

lemma v3_strings:
  assumes "data_loaded (v3_image b) m"
  shows "cstring m (b + 0x88) banner_text" "cstring m (b + 0x15C) got_irq_text" "cstring m (b + 0x170) done_text"
    "cstring m (b + 0x1024) bad_text" "cstring m (b + 0x103C) esr_text"
proof -
  have at: "cstring m (b + of_nat n) (map of_char s)" if "(n, Asciz s) \<in> set (layout 0 guest_v3_S)" for n s
    using assms that by (auto simp: data_loaded_def list_all_iff)
  have "(0x88, Asciz (''[guest-el1] up, waiting for injected IRQ'' @ NL)) \<in> set (layout 0x74 v3_banner)"
    "(0x15C, Asciz ''[guest-el1] IAR=0x'') \<in> set (layout 0x134 v3_hex_nibble)"
    "(0x170, Asciz (''[guest-el1] IRQ handled, Stage 4 complete'' @ NL)) \<in> set (layout 0x134 v3_hex_nibble)"
    "(0x1024, Asciz ''[guest-el1] bad-slot 0x'') \<in> set (layout 0xF88 v3_bad)"
    "(0x103C, Asciz '' ESR_EL1=0x'') \<in> set (layout 0xF88 v3_bad)"
    by (simp_all add: v3_banner_def v3_hex_nibble_def v3_bad_def)
  moreover have "set (layout 0x74 v3_banner) \<subseteq> set (layout 0 guest_v3_S)"
    "set (layout 0x134 v3_hex_nibble) \<subseteq> set (layout 0 guest_v3_S)" "set (layout 0xF88 v3_bad) \<subseteq> set (layout 0 guest_v3_S)"
    unfolding guest_v3_S_def layout_append set_append v3_ends by blast+
  ultimately have "(0x88, Asciz (''[guest-el1] up, waiting for injected IRQ'' @ NL)) \<in> set (layout 0 guest_v3_S)"
    "(0x15C, Asciz ''[guest-el1] IAR=0x'') \<in> set (layout 0 guest_v3_S)"
    "(0x170, Asciz (''[guest-el1] IRQ handled, Stage 4 complete'' @ NL)) \<in> set (layout 0 guest_v3_S)"
    "(0x1024, Asciz ''[guest-el1] bad-slot 0x'') \<in> set (layout 0 guest_v3_S)"
    "(0x103C, Asciz '' ESR_EL1=0x'') \<in> set (layout 0 guest_v3_S)"
    by (simp_all only: subset_iff)
  note this [THEN at, unfolded of_nat_numeral, folded banner_text_def got_irq_text_def done_text_def
      bad_text_def esr_text_def]
  then show "cstring m (b + 0x88) banner_text" "cstring m (b + 0x15C) got_irq_text"
    "cstring m (b + 0x170) done_text" "cstring m (b + 0x1024) bad_text" "cstring m (b + 0x103C) esr_text"
    by (simp_all only:)
qed

text \<open>A store above a string leaves it alone.\<close>

lemma word_start_le: "unat (a - take_bit 3 (a :: u64)) \<le> unat a"
proof -
  have "take_bit 3 a \<le> a" by (simp add: word_le_nat_alt unat_take_bit)
  then show ?thesis by (simp add: unat_sub)
qed

lemma cstring_upd:
  "unat a + length cs < unat x \<Longrightarrow> cstring (m(x := v)) a cs = cstring m a cs"
proof (induction cs arbitrary: a)
  case Nil
  have "a - take_bit 3 a \<noteq> x" using Nil word_start_le [of a] by auto
  then show ?case by (simp add: byte_of_def)
next
  case (Cons ch cs)
  have "a - take_bit 3 a \<noteq> x" using Cons.prems word_start_le [of a] by auto
  moreover have x: "unat x < 2 ^ 64" using unsigned_less [of x] by simp
  have "unat (a + 1) = unat a + 1"
    using Cons.prems x unat_add_lem [of a 1] by simp
  then have "cstring (m(x := v)) (a + 1) cs = cstring m (a + 1) cs"
    by (intro Cons.IH) (use Cons.prems in simp)
  moreover have "byte_of (m(x := v)) a = byte_of m a" using calculation(1) by (simp add: byte_of_def)
  ultimately show ?case by (simp only: cstring.simps)
qed


section \<open>The interrupt entry\<close>

text \<open>
  The interrupt entry up to the test for a spurious interrupt, on the guest's own stack: six words
  are pushed and the interrupt is acknowledged.
\<close>

definition irq_frame :: "cpu \<Rightarrow> u64 \<Rightarrow> u64" where
  "irq_frame c = (let s = spr c - 64 in (mem c)(s := xr c 0, s + 8 := xr c 1, s + 16 := xr c 2, s + 24 := xr c 3,
     s + 32 := xr c 29, s + 40 := xr c 30))"

definition irq_acked :: "platform \<Rightarrow> u64 \<Rightarrow> cpu \<Rightarrow> cpu" where
  "irq_acked p b c = (let (iar, s) = mrs_dev p ICC_IAR1_EL1 (hw c) in
     c\<lparr>spr := spr c - 64, xr := (xr c)(19 := iar, 20 := iar AND 0xFFFFFF, 21 := 1023), mem := irq_frame c, hw := s,
       flag_c := (1023 \<le> iar AND 0xFFFFFF), flag_z := (iar AND 0xFFFFFF = 1023), pc := b + 0xD4\<rparr>)"

lemma push_ok:
  assumes "stack_room 64 sp" and "off < 64" and "take_bit 3 off = 0"
  shows "access_ok rb (sp - 64 + off) c \<longleftrightarrow> (rb = SP \<longrightarrow> take_bit 4 (spr c) = 0)"
proof -
  have "take_bit 3 (sp - 64) = 0"
    using assms(1) by (simp add: stack_room_def aligned_16_8)
  then show ?thesis
    using assms stack_room_ram [of 64 sp off] by (simp add: access_ok_def)
qed

lemma irq_entry_acks:
  assumes "pc c = b + 0xB4" and room: "stack_room 64 (spr c)"
  shows "runs (v3_env p b) c (irq_acked p b c)"
proof -
  define s where "s = spr c - 64"
  have ok: "access_ok rb (s + off) c' \<longleftrightarrow> (rb = SP \<longrightarrow> take_bit 4 (spr c') = 0)"
    if "off < 64" "take_bit 3 off = 0" for rb off c'
    using push_ok [OF room that] by (simp add: s_def)
  have ok0: "access_ok rb s c' \<longleftrightarrow> (rb = SP \<longrightarrow> take_bit 4 (spr c') = 0)" for rb c'
    using ok [of 0] by simp
  have al: "take_bit 4 s = 0" using room by (simp add: s_def stack_room_def)
  let ?ins = "[SUB SP SP 64, STP (X 0) (X 1) SP 0, STP (X 2) (X 3) SP 16, STP (X 29) (X 30) SP 32,
     MRS (X 19) ICC_IAR1_EL1, ANDI (X 20) (X 19) 0xFFFFFF, MOVI (X 21) 1023, CMP (X 20) (X 21)] :: u64 instr list"
  have "block (v3_image b) (pc c) ?ins"
    using v3_irq_entry_code [of b] by (simp add: block_Cons assms(1) block_def [of _ _ "[]"])
  moreover have "run_block p ?ins c = run_block p (tl ?ins) (c\<lparr>spr := s, pc := pc c + 4\<rparr>)"
    by (simp add: adv_def s_def)
  then have "run_block p ?ins c = Running (irq_acked p b c)"
    by (simp add: adv_def exec_pair ok ok0 al irq_acked_def irq_frame_def Let_def mrs_dev_def volatile_def compare_def
        assms(1) add.assoc add.commute [of _ b] del: exec.simps(11,12) flip: s_def)
  ultimately show ?thesis using runs_block [of "v3_env p b" c ?ins] by simp
qed

text \<open>The strings survive the push: the stack lies above them.\<close>

lemma placed_unat: "placed b \<Longrightarrow> k \<le> 0x4000 \<Longrightarrow> unat (b + k) = unat b + unat k"
  using unat_add_lem [of b k] by (simp add: placed_def word_le_nat_alt)

lemma irq_frame_strings:
  assumes b: "placed b" and sp: "spr c = b + 0x2050" and d: "data_loaded (v3_image b) (mem c)"
  shows "cstring (irq_frame c) (b + 0x15C) got_irq_text" "cstring (irq_frame c) (b + 0x170) done_text"
proof -
  have up: "cstring (m(b + k := v)) (b + n) cs = cstring m (b + n) cs"
    if "unat n + length cs < unat k" "k \<le> 0x4000" "n \<le> 0x4000" for m k v n cs
    using that by (intro cstring_upd) (simp add: placed_unat [OF b])
  have len: "length got_irq_text = 18" "length done_text = 42"
    by (simp_all add: got_irq_text_def done_text_def)
  have fr: "irq_frame c = (mem c)(b + 0x2010 := xr c 0, b + 0x2018 := xr c 1, b + 0x2020 := xr c 2,
      b + 0x2028 := xr c 3, b + 0x2030 := xr c 29, b + 0x2038 := xr c 30)"
    by (simp add: irq_frame_def sp Let_def add.commute [of _ b])
  show "cstring (irq_frame c) (b + 0x15C) got_irq_text" "cstring (irq_frame c) (b + 0x170) done_text"
    unfolding fr using v3_strings(2,3) [OF d] by (simp_all add: up len)
qed

lemma byte_nibbles: "drop_bit 4 ((v :: u64) AND 0xFF) < 16"
  using nibble_less [of "drop_bit 4 v"] by simp

lemmas block_simps = block_Cons block_def [of _ _ "[]"]

text \<open>An interrupt that is not spurious is reported, ended once and then the guest parks.\<close>

lemma irq_reports:
  assumes at: "pc c = b + 0xD4" and z: "\<not> flag_z c" and str: "cstring (mem c) (b + 0x15C) got_irq_text"
  defines "w \<equiv> xr c 19 AND 0xFF"
  shows "\<exists>c'. runs (v3_env p b) c c' \<and> pc c' = b + 0xFC \<and> daif c' = daif c \<and> mem c' = mem c \<and> xr c' 19 = xr c 19 \<and>
    hw c' = uart_out (got_irq_text @ [hex_digit (drop_bit 4 w), hex_digit (w AND 0xF), 10]) (hw c)"
proof -
  let ?e = "v3_env p b" and ?c0 = "c\<lparr>pc := b + 0xD8\<rparr>"
  note code = v3_irq_entry_code [of b, unfolded block_Cons]
  have r0: "runs ?e c ?c0"
    using code at z by (intro runs_step) (simp add: step_def adv_def add.commute [of _ b])
  have "at_point b 0xD8 [] ?c0 ?c0" by (simp add: at_point_def)
  then obtain c1 where r1: "runs ?e ?c0 c1" and p1: "at_point b 0xE0 got_irq_text ?c0 c1"
    using say_string [of b "0xD8" "[]" ?c0 ?c0 "b + 0x15C" got_irq_text p] code str
    by (auto simp: block_simps add.commute [of _ b])
  let ?c2 = "c1\<lparr>xr := (xr c1)(20 := w), pc := b + 0xE4\<rparr>"
  have r2: "runs ?e c1 ?c2"
    using code p1 by (intro runs_step) (simp add: step_def adv_def at_point_def w_def add.commute [of _ b])
  have "at_point b 0xE4 [] ?c2 ?c2" by (simp add: at_point_def)
  then obtain c3 where r3: "runs ?e ?c2 c3" and p3: "at_point b 0xEC [hex_digit (drop_bit 4 w)] ?c2 c3"
    using say_high [of b "0xE4" "[]" ?c2 ?c2 p] code byte_nibbles [of "xr c 19", folded w_def]
    by (auto simp: block_simps add.commute [of _ b])
  obtain c4 where r4: "runs ?e c3 c4" and p4: "at_point b 0xF4 [hex_digit (drop_bit 4 w), hex_digit (w AND 0xF)] ?c2 c4"
    using say_low [OF p3, of 20 p] code by (auto simp: block_simps add.commute [of _ b])
  obtain c5 where r5: "runs ?e c4 c5"
      and p5: "at_point b 0xFC [hex_digit (drop_bit 4 w), hex_digit (w AND 0xF), 10] ?c2 c5"
    using say_newline [OF p4, of p] code by (auto simp: block_simps add.commute [of _ b])
  have "runs ?e c c5"
    by (rule runs_trans [OF r0 runs_trans [OF r1 runs_trans [OF r2 runs_trans [OF r3 runs_trans [OF r4 r5]]]]])
  then show ?thesis using p1 p5 by (intro exI [of _ c5]) (simp add: at_point_def)
qed

lemma irq_ends:
  assumes at: "pc c = b + 0xFC" and str: "cstring (mem c) (b + 0x170) done_text"
  shows "\<exists>c'. runs (v3_env p b) c c' \<and> pc c' = b + 0x110 \<and> daif c' = daif c OR 0xF \<and>
    hw c' = uart_out done_text (msr ICC_EOIR1_EL1 (xr c 19) (hw c))"
proof -
  let ?e = "v3_env p b" and ?c1 = "c\<lparr>hw := msr ICC_EOIR1_EL1 (xr c 19) (hw c), pc := b + 0x104\<rparr>"
  note code = v3_irq_entry_code [of b, unfolded block_Cons]
  have "steps ?e 2 c = Running ?c1"
    using code at by (simp add: steps_numeral step_def adv_def add.commute [of _ b])
  note r1 = runsI [OF this]
  have "at_point b 0x104 [] ?c1 ?c1" by (simp add: at_point_def)
  then obtain c2 where r2: "runs ?e ?c1 c2" and p2: "at_point b 0x10C done_text ?c1 c2"
    using say_string [of b "0x104" "[]" ?c1 ?c1 "b + 0x170" done_text p] code str
    by (auto simp: block_simps add.commute [of _ b])
  let ?c3 = "c2\<lparr>daif := daif c2 OR 0xF, pc := b + 0x110\<rparr>"
  have r3: "runs ?e c2 ?c3"
    using code p2 by (intro runs_step) (simp add: step_def adv_def at_point_def add.commute [of _ b])
  show ?thesis
    using runs_trans [OF r1 runs_trans [OF r2 r3]] p2 by (intro exI [of _ ?c3]) (simp add: at_point_def)
qed

text \<open>The parking loop.\<close>

lemma irq_parks:
  assumes "pc c = b + 0x110 \<or> pc c = b + 0x114"
  shows "\<exists>c'. steps (v3_env p b) n c = Running c' \<and> (pc c' = b + 0x110 \<or> pc c' = b + 0x114) \<and> c'\<lparr>pc := pc c\<rparr> = c"
  using assms
proof (induction n arbitrary: c)
  case (Suc n)
  let ?c = "c\<lparr>pc := (if pc c = b + 0x110 then b + 0x114 else b + 0x110)\<rparr>"
  have st: "step (v3_env p b) c = Running ?c"
    using Suc.prems v3_irq_entry_code [of b, unfolded block_Cons]
    by (auto simp: step_def adv_def goto_def add.commute [of _ b])
  have pre: "pc ?c = b + 0x110 \<or> pc ?c = b + 0x114" by simp
  obtain c' where "steps (v3_env p b) n ?c = Running c'" "pc c' = b + 0x110 \<or> pc c' = b + 0x114"
      "c'\<lparr>pc := pc ?c\<rparr> = ?c"
    using Suc.IH [of ?c, OF pre] by blast
  moreover have "c'\<lparr>pc := pc c\<rparr> = c" using arg_cong [OF calculation(3), of "\<lambda>d. d\<lparr>pc := pc c\<rparr>"] by simp
  ultimately show ?case using st by simp
qed simp

text \<open>A spurious interrupt is ended too, and the interrupted code goes on.\<close>

lemma irq_spurious:
  assumes at: "pc c = b + 0xD4" and z: "flag_z c" and room: "stack_room 64 (spr c + 64)"
  shows "\<exists>n. steps (v3_env p b) n c = Left (c\<lparr>
    xr := (xr c)(29 := mem c (spr c + 32), 30 := mem c (spr c + 40), 2 := mem c (spr c + 16), 3 := mem c (spr c + 24),
      0 := mem c (spr c), 1 := mem c (spr c + 8)),
    hw := msr ICC_EOIR1_EL1 (xr c 19) (hw c), spr := spr c + 64, pc := b + 0x130\<rparr>)"
proof -
  define s where "s = spr c"
  have ok: "access_ok rb (s + off) c' \<longleftrightarrow> (rb = SP \<longrightarrow> take_bit 4 (spr c') = 0)"
    if "off < 64" "take_bit 3 off = 0" for rb off c'
    using push_ok [OF room that] by (simp add: s_def)
  have ok0: "access_ok rb s c' \<longleftrightarrow> (rb = SP \<longrightarrow> take_bit 4 (spr c') = 0)" for rb c'
    using ok [of 0] by simp
  have "take_bit 4 (s + 64 - 64) = 0" using room by (intro aligned_diff) (simp_all add: s_def stack_room_def)
  then have al: "take_bit 4 s = 0" by simp
  show ?thesis
    using v3_irq_entry_code [of b, unfolded block_Cons] at z
    by (intro exI [of _ 8]) (simp add: steps_numeral step_def adv_def goto_def exec_pair ok ok0 al add.assoc
        add.commute [of _ b] del: exec.simps(11,12) flip: s_def)
qed


section \<open>Start-up\<close>

lemma start_runs:
  assumes at: "pc c = b" and d: "data_loaded (v3_image b) (mem c)"
  shows "\<exists>c'. runs (v3_env p b) c c' \<and> pc c' = b + 0x3C \<and> spr c' = b + 0x2050 \<and> mem c' = mem c \<and>
    daif c' = daif c AND NOT 2 \<and>
    hw c' = uart_out banner_text (msr ICC_IGRPEN1_EL1 1 (msr ICC_PMR_EL1 0xFF (msr ICC_SRE_EL1 1
      (msr VBAR_EL1 (b + 0x800) (hw c)))))"
proof -
  let ?e = "v3_env p b"
  note code = v3_start_code [of b, unfolded block_Cons] and ban = v3_banner_code [of b, unfolded block_Cons]
  let ?ins = "[ADR (X 0) (b + 0x2050), MOV SP (X 0), ADR (X 0) (b + 0x800), MSR VBAR_EL1 (X 0), ISB,
     MOVI (X 0) 1, MSR ICC_SRE_EL1 (X 0), ISB, MOVI (X 0) 0xFF, MSR ICC_PMR_EL1 (X 0), MOVI (X 0) 1,
     MSR ICC_IGRPEN1_EL1 (X 0), ISB] :: u64 instr list"
  let ?s = "msr ICC_IGRPEN1_EL1 1 (msr ICC_PMR_EL1 0xFF (msr ICC_SRE_EL1 1 (msr VBAR_EL1 (b + 0x800) (hw c))))"
  let ?c1 = "c\<lparr>xr := (xr c)(0 := 1), spr := b + 0x2050, hw := ?s, pc := b + 0x34\<rparr>"
  have "block (v3_image b) (pc c) ?ins" using code at by (simp add: block_simps)
  moreover have "run_block p ?ins c = Running ?c1" by (simp add: at adv_def add.commute [of _ b])
  ultimately have r1: "runs ?e c ?c1" using runs_block [of ?e c ?ins ?c1] by simp
  let ?c2 = "c\<lparr>xr := (xr c)(0 := 1, 30 := b + 0x38, 29 := b + 0x38), spr := b + 0x2050, hw := ?s, pc := b + 0x78\<rparr>"
  have "steps ?e 2 ?c1 = Running ?c2"
    using code ban by (simp add: steps_numeral step_def adv_def goto_def add.commute [of _ b])
  note r2 = runsI [OF this]
  let ?c3 = "?c2\<lparr>xr := (xr ?c2)(0 := b + 0x88, 30 := b + 0x80), pc := b + 0x50\<rparr>"
  have "steps ?e 2 ?c2 = Running ?c3"
    using ban by (simp add: steps_numeral step_def adv_def goto_def add.commute [of _ b])
  note r3 = runsI [OF this]
  obtain c4 where r4: "runs ?e ?c3 c4" and p4: "printed 4 (b + 0x80) banner_text ?c3 c4"
    using puts_runs [of ?c3 b banner_text p] v3_strings(1) [OF d] by auto
  let ?c5 = "c4\<lparr>xr := (xr c4)(30 := b + 0x38), daif := daif c AND NOT 2, pc := b + 0x3C\<rparr>"
  have "xr c4 29 = b + 0x38" using p4 by (simp add: printed_def)
  then have "steps ?e 3 c4 = Running ?c5"
    using code ban p4 by (simp add: printed_def steps_numeral step_def adv_def goto_def add.commute [of _ b])
  note r5 = runsI [OF this]
  have "runs ?e c ?c5"
    by (rule runs_trans [OF r1 runs_trans [OF r2 runs_trans [OF r3 runs_trans [OF r4 r5]]]])
  then show ?thesis using p4 by (intro exI [of _ ?c5]) (simp add: printed_def)
qed

lemma v3_irq_slot: "fetch (v3_image b) (b + 0xA80) = Some (BAL (b + 0xB4))"
proof -
  have "block (v3_image b) (b + 0xA80) [BAL (b + 0xB4)]"
    by (rule v3_block [OF v3_splits(7), where n = "0xA80" and off = "0x19C"])
      (simp_all add: v3_ends v3_vectors_def v3_bad_slots_def BAD_SLOT_def v3_symbols)
  then show ?thesis by (simp add: block_Cons)
qed

text \<open>The CPU takes an interrupt at EL1; \<open>spsr\<close> is the saved processor state.\<close>

definition take_irq :: "u64 \<Rightarrow> cpu \<Rightarrow> cpu" where
  "take_irq spsr c = c\<lparr>pc := sys (hw c) VBAR_EL1 + 0x280, daif := 0xF,
     hw := (hw c)\<lparr>sys := (sys (hw c))(ELR_EL1 := pc c, SPSR_EL1 := spsr)\<rparr>\<rparr>"

lemma placed_stack: "placed b \<Longrightarrow> stack_room 64 (b + 0x2050)"
proof -
  assume b: "placed b"
  have "take_bit 4 (take_bit 11 b) = 0" using b by (simp only: placed_def take_bit_of_0)
  then have "take_bit 4 b = 0" by simp
  then show ?thesis
    using b placed_unat [OF b, of "0x2050"] by (simp add: stack_room_def placed_def word_le_nat_alt)
qed

lemma v3_irq_handled:
  assumes b: "placed b" and i: "pc i = b + 0xA80" "spr i = b + 0x2050" and d: "data_loaded (v3_image b) (mem i)"
    and iar: "\<forall>tr. dev_mrs p tr ICC_IAR1_EL1 = iar" and real: "iar AND 0xFFFFFF \<noteq> 1023"
  shows "\<exists>c'. runs (v3_env p b) i c' \<and> pc c' = b + 0x110 \<and> daif c' = daif i OR 0xF \<and>
    hw c' = uart_out done_text (msr ICC_EOIR1_EL1 iar (uart_out (got_irq_text @
      [hex_digit (drop_bit 4 (iar AND 0xFF)), hex_digit ((iar AND 0xFF) AND 0xF), 10])
      ((hw i)\<lparr>io := io (hw i) @ [Mrs ICC_IAR1_EL1 iar]\<rparr>)))"
proof -
  let ?e = "v3_env p b" and ?j = "goto (b + 0xB4) i"
  have rj: "runs ?e i ?j" using v3_irq_slot [of b] i(1) by (intro runs_step) (simp add: step_def)
  have ra: "runs ?e ?j (irq_acked p b ?j)"
    using placed_stack [OF b] i(2) by (intro irq_entry_acks) (simp_all add: goto_def)
  define a where "a = irq_acked p b ?j"
  have a: "pc a = b + 0xD4" "\<not> flag_z a" "xr a 19 = iar" "daif a = daif i" "mem a = irq_frame ?j"
      "hw a = (hw i)\<lparr>io := io (hw i) @ [Mrs ICC_IAR1_EL1 iar]\<rparr>"
    using iar real i by (simp_all add: a_def irq_acked_def mrs_dev_def Let_def goto_def)
  have str: "cstring (mem a) (b + 0x15C) got_irq_text" "cstring (mem a) (b + 0x170) done_text"
    unfolding a(5) using b i d by (intro irq_frame_strings; simp add: goto_def)+
  obtain r where rr: "runs ?e a r" and r: "pc r = b + 0xFC" "daif r = daif a" "mem r = mem a" "xr r 19 = xr a 19"
      "hw r = uart_out (got_irq_text @ [hex_digit (drop_bit 4 (xr a 19 AND 0xFF)), hex_digit ((xr a 19 AND 0xFF) AND 0xF), 10]) (hw a)"
    using irq_reports [OF a(1,2) str(1), of p] by (elim exE conjE) (rule that; assumption)
  have str': "cstring (mem r) (b + 0x170) done_text" using str(2) r(3) by simp
  obtain c2 where r2: "runs ?e r c2" and c2: "pc c2 = b + 0x110" "daif c2 = daif r OR 0xF"
      "hw c2 = uart_out done_text (msr ICC_EOIR1_EL1 (xr r 19) (hw r))"
    using irq_ends [OF r(1) str', of p] by (elim exE conjE) (rule that; assumption)
  have "runs ?e i c2"
    by (rule runs_trans [OF rj runs_trans [OF ra [folded a_def] runs_trans [OF rr r2]]])
  then show ?thesis using c2 by (intro exI [of _ c2]) (simp only: r a)
qed

lemma v3_guest_reports:
  assumes b: "placed b" and d: "data_loaded (v3_image b) (mem c)" and at: "pc c = b"
    and iar: "\<forall>tr. dev_mrs p tr ICC_IAR1_EL1 = iar" and real: "iar AND 0xFFFFFF \<noteq> 1023"
  shows "\<exists>c1 c2. runs (v3_env p b) c c1 \<and> pc c1 = b + 0x3C \<and> daif c1 = daif c AND NOT 2 \<and>
    runs (v3_env p b) (take_irq spsr c1) c2 \<and>
    console (io (hw c2)) = console (io (hw c)) @ banner_text @ got_irq_text @
      [hex_digit (drop_bit 4 (iar AND 0xFF)), hex_digit ((iar AND 0xFF) AND 0xF), 10] @ done_text \<and>
    icc_eois (io (hw c2)) = icc_eois (io (hw c)) @ [iar] \<and>
    (\<forall>n. \<exists>c3. steps (v3_env p b) n c2 = Running c3 \<and> hw c3 = hw c2 \<and> daif c3 = 0xF)"
proof -
  let ?e = "v3_env p b"
  obtain c1 where r1: "runs ?e c c1" and c1: "pc c1 = b + 0x3C" "spr c1 = b + 0x2050" "mem c1 = mem c"
      "daif c1 = daif c AND NOT 2" "hw c1 = uart_out banner_text (msr ICC_IGRPEN1_EL1 1 (msr ICC_PMR_EL1 0xFF
        (msr ICC_SRE_EL1 1 (msr VBAR_EL1 (b + 0x800) (hw c)))))"
    using start_runs [OF at d, of p] by (elim exE conjE) (rule that; assumption)
  define i where "i = take_irq spsr c1"
  have i: "pc i = b + 0xA80" "spr i = b + 0x2050" "mem i = mem c" "daif i = 0xF" "io (hw i) = io (hw c1)"
    by (simp_all add: i_def take_irq_def c1 msr_def)
  have di: "data_loaded (v3_image b) (mem i)" using d i(3) by simp
  obtain c2 where r2: "runs ?e i c2" and c2: "pc c2 = b + 0x110" "daif c2 = daif i OR 0xF"
      "hw c2 = uart_out done_text (msr ICC_EOIR1_EL1 iar (uart_out (got_irq_text @
        [hex_digit (drop_bit 4 (iar AND 0xFF)), hex_digit ((iar AND 0xFF) AND 0xF), 10])
        ((hw i)\<lparr>io := io (hw i) @ [Mrs ICC_IAR1_EL1 iar]\<rparr>)))"
    using v3_irq_handled [OF b i(1,2) di iar real] by (elim exE conjE) (rule that; assumption)
  have "\<exists>c3. steps ?e n c2 = Running c3 \<and> hw c3 = hw c2 \<and> daif c3 = 0xF" for n
  proof -
    obtain c3 where s: "steps ?e n c2 = Running c3" and e: "c3\<lparr>pc := pc c2\<rparr> = c2"
      using irq_parks [of c2 b p n] c2(1) by blast
    have "hw c3 = hw c2" "daif c3 = daif c2" using arg_cong [OF e, of hw] arg_cong [OF e, of daif] by simp_all
    then show ?thesis using s c2(2) i(4) by simp
  qed
  moreover have "console (io (hw c2)) = console (io (hw c)) @ banner_text @ got_irq_text @
      [hex_digit (drop_bit 4 (iar AND 0xFF)), hex_digit ((iar AND 0xFF) AND 0xF), 10] @ done_text"
    "icc_eois (io (hw c2)) = icc_eois (io (hw c)) @ [iar]"
    unfolding c2(3) io_uart_out by (simp_all add: msr_def io_uart_out i(5) c1(5))
  ultimately show ?thesis
    using r1 c1(1,4) r2 unfolding i_def by (intro exI [of _ c1] exI [of _ c2]) simp
qed


section \<open>Unexpected exceptions\<close>

lemma say_copied_high:
  assumes "at_point b off cs c0 c"
    and "block (v3_image b) (b + of_nat off) [MOV (X 0) (X 21), LSR (X 0) (X 0) 4, ANDI (X 0) (X 0) 0xF, BL (b + 0x134)]"
  shows "\<exists>c'. runs (v3_env p b) c c' \<and> at_point b (off + 16) (cs @ [hex_digit (drop_bit 4 (xr c0 21) AND 0xF)]) c0 c'"
  using say [OF assms(1), where p = p and ins = "[MOV (X 0) (X 21), LSR (X 0) (X 0) 4, ANDI (X 0) (X 0) 0xF]",
      OF _ _ _ routines(2) [OF nibble_less [of "drop_bit 4 (xr c0 21)"]]] assms
  by (simp add: adv_def at_point_def [of _ _ _ _ c] ac_simps)

lemma say_copied_low:
  assumes "at_point b off cs c0 c"
    and "block (v3_image b) (b + of_nat off) [MOV (X 0) (X 21), ANDI (X 0) (X 0) 0xF, BL (b + 0x134)]"
  shows "\<exists>c'. runs (v3_env p b) c c' \<and> at_point b (off + 12) (cs @ [hex_digit (xr c0 21 AND 0xF)]) c0 c'"
  using say [OF assms(1), where p = p and ins = "[MOV (X 0) (X 21), ANDI (X 0) (X 0) 0xF]",
      OF _ _ _ routines(2) [OF nibble_less [of "xr c0 21"]]] assms
  by (simp add: adv_def at_point_def [of _ _ _ _ c] ac_simps)

text \<open>A run of hexadecimal digits of one register, one per three instructions.\<close>

definition digits_code :: "nat \<Rightarrow> nat list \<Rightarrow> u64 \<Rightarrow> u64 instr list" where
  "digits_code r ns f = concat (map (\<lambda>n. [LSR (X 0) (X r) n, ANDI (X 0) (X 0) 0xF, BL f]) ns)"

lemma say_digits:
  assumes "19 \<le> r" "r < 29"
  shows "at_point b off cs c0 c \<Longrightarrow> block (v3_image b) (b + of_nat off) (digits_code r ns (b + 0x134)) \<Longrightarrow>
    \<exists>c'. runs (v3_env p b) c c' \<and> at_point b (off + 12 * length ns) (cs @ map (\<lambda>n. hex_digit (drop_bit n (xr c0 r) AND 0xF)) ns) c0 c'"
proof (induction ns arbitrary: off cs c)
  case Nil
  then show ?case by (intro exI [of _ c]) simp
next
  case (Cons n ns)
  have bl: "block (v3_image b) (b + of_nat off) [LSR (X 0) (X r) n, ANDI (X 0) (X 0) 0xF, BL (b + 0x134)]"
    "block (v3_image b) (b + of_nat (off + 12)) (digits_code r ns (b + 0x134))"
    using Cons.prems(2) by (simp_all add: digits_code_def block_simps add.assoc)
  obtain c1 where c1: "runs (v3_env p b) c c1"
      "at_point b (off + 12) (cs @ [hex_digit (drop_bit n (xr c0 r) AND 0xF)]) c0 c1"
    using say_shifted [OF Cons.prems(1) assms bl(1)] by blast
  from Cons.IH [OF c1(2) bl(2)] obtain c2 where "runs (v3_env p b) c1 c2"
      "at_point b (off + 12 * length (n # ns)) (cs @ map (\<lambda>n. hex_digit (drop_bit n (xr c0 r) AND 0xF)) (n # ns)) c0 c2"
    by (auto simp: ac_simps)
  then show ?case using runs_trans [OF c1(1)] by blast
qed

lemma bad_reports_slot:
  assumes at: "pc c = b + 0xF88" and d: "data_loaded (v3_image b) (mem c)"
  shows "\<exists>c'. runs (v3_env p b) c c' \<and>
    at_point b 0xFB4 (bad_text @ [hex_digit (drop_bit 4 (xr c 21) AND 0xF), hex_digit (xr c 21 AND 0xF)] @ esr_text) c c'"
proof -
  let ?e = "v3_env p b"
  note code = v3_bad_code [of b, unfolded block_Cons]
  have "at_point b 0xF88 [] c c" using at by (simp add: at_point_def)
  then obtain c1 where r1: "runs ?e c c1" and p1: "at_point b 0xF90 bad_text c c1"
    using say_string [of b "0xF88" "[]" c c "b + 0x1024" bad_text p] code v3_strings(4) [OF d]
    by (auto simp: block_simps add.commute [of _ b])
  obtain c2 where r2: "runs ?e c1 c2" and p2: "at_point b 0xFA0 (bad_text @ [hex_digit (drop_bit 4 (xr c 21) AND 0xF)]) c c2"
    using say_copied_high [OF p1, of p] code by (auto simp: block_simps add.commute [of _ b])
  obtain c3 where r3: "runs ?e c2 c3"
      and p3: "at_point b 0xFAC (bad_text @ [hex_digit (drop_bit 4 (xr c 21) AND 0xF), hex_digit (xr c 21 AND 0xF)]) c c3"
    using say_copied_low [OF p2, of p] code by (auto simp: block_simps add.commute [of _ b])
  obtain c4 where r4: "runs ?e c3 c4"
      and p4: "at_point b 0xFB4 (bad_text @ [hex_digit (drop_bit 4 (xr c 21) AND 0xF), hex_digit (xr c 21 AND 0xF)] @ esr_text) c c4"
    using say_string [OF p3, of "b + 0x103C" esr_text p] code v3_strings(5) [OF d]
    by (auto simp: block_simps add.commute [of _ b])
  show ?thesis using runs_trans [OF r1 runs_trans [OF r2 runs_trans [OF r3 r4]]] p4 by blast
qed

lemma bad_reports_esr:
  assumes at: "pc c = b + 0xFB4"
  shows "\<exists>c'. runs (v3_env p b) c c' \<and> pc c' = b + 0x101C \<and>
    hw c' = uart_out (map (\<lambda>k. hex_digit (drop_bit k (mrs ESR_EL1 (hw c)) AND 0xF)) [28, 24, 20, 16, 12, 8, 4, 0] @ [10]) (hw c)"
proof -
  let ?e = "v3_env p b" and ?esr = "mrs ESR_EL1 (hw c)"
  note code = v3_bad_code [of b, unfolded block_Cons]
  let ?c0 = "c\<lparr>xr := (xr c)(22 := ?esr), pc := b + 0xFB8\<rparr>"
  have r0: "runs ?e c ?c0"
    using code at by (intro runs_step) (simp add: step_def adv_def volatile_def add.commute [of _ b])
  have p0: "at_point b 0xFB8 [] ?c0 ?c0" by (simp add: at_point_def)
  have "block (v3_image b) (b + of_nat 0xFB8) (digits_code 22 [28, 24, 20, 16, 12, 8, 4] (b + 0x134))"
    using code by (simp add: digits_code_def block_simps add.commute [of _ b])
  from say_digits [OF _ _ p0 this, of p] obtain c1 where r1: "runs ?e ?c0 c1"
      and p1: "at_point b 0x100C (map (\<lambda>n. hex_digit (drop_bit n ?esr AND 0xF)) [28, 24, 20, 16, 12, 8, 4]) ?c0 c1"
    by auto
  obtain c2 where r2: "runs ?e c1 c2" and p2: "at_point b 0x1014
      (map (\<lambda>n. hex_digit (drop_bit n ?esr AND 0xF)) [28, 24, 20, 16, 12, 8, 4] @ [hex_digit (?esr AND 0xF)]) ?c0 c2"
    using say_low [OF p1, of 22 p] code by (auto simp: block_simps add.commute [of _ b])
  obtain c3 where r3: "runs ?e c2 c3" and p3: "at_point b 0x101C
      (map (\<lambda>n. hex_digit (drop_bit n ?esr AND 0xF)) [28, 24, 20, 16, 12, 8, 4] @ [hex_digit (?esr AND 0xF), 10]) ?c0 c3"
    using say_newline [OF p2, of p] code by (auto simp: block_simps add.commute [of _ b])
  show ?thesis
    using runs_trans [OF r0 runs_trans [OF r1 runs_trans [OF r2 r3]]] p3
    by (intro exI [of _ c3]) (simp add: at_point_def)
qed

lemma v3_bad_slot_code:
  assumes "k < 16" and "k \<noteq> 5"
  shows "block (v3_image b) (b + of_nat (0x800 + 128 * k)) [MOVI (X 21) (of_nat k), BAL (b + 0xF88)]"
proof -
  have "[0..<16] = [0, 1, 2, 3, 4, 5, 6, 7, 8, 9, 10, 11, 12, 13, 14, 15]" by code_simp
  moreover have "k \<in> set [0..<16]" using assms(1) by simp
  ultimately have "k \<in> set [0, 1, 2, 3, 4, 6, 7, 8, 9, 10, 11, 12, 13, 14, 15]" using assms(2) by auto
  then have "block_in (v3_image b) 0x19C (rev (layout 0 (v3_start @ v3_putc @ v3_puts @ v3_banner @ v3_irq_entry @ v3_hex_nibble)))
      (v3_vectors @ v3_bad @ v3_stack) (0x800 + 128 * k) [MOVI (X 21) (of_nat k), BAL (b + 0xF88)]"
    by (auto simp: v3_vectors_def v3_bad_slots_def BAD_SLOT_def v3_symbols)
  then show ?thesis
    using assms(1) by (intro v3_block [OF v3_splits(7) refl]) (simp_all add: v3_ends)
qed


section \<open>A memory that holds the image\<close>

text \<open>Doublewords packed from bytes, to exhibit a memory in examples.\<close>

definition pack :: "(u64 \<Rightarrow> u8) \<Rightarrow> u64 \<Rightarrow> u64" where
  "pack f a = horner_sum of_bool 2 (map (\<lambda>n. bit (f (a + of_nat (n div 8))) (n mod 8)) [0..<64])"

lemma byte_of_pack: "byte_of (pack f) a = f a"
proof (rule bit_word_eqI)
  fix n
  assume n: "n < LENGTH(8)"
  define k where "k = unat (take_bit 3 a)"
  have k: "k < 8" by (simp add: k_def unat_take_bit)
  have "of_nat k = take_bit 3 a" by (simp add: k_def)
  then have a: "a - take_bit 3 a + of_nat k = a" by simp
  have "(8 * k + n) div 8 = k" "(8 * k + n) mod 8 = n" "8 * k + n < 64" using n k by simp_all
  then show "bit (byte_of (pack f) a) n = bit (f a) n"
    using n by (simp add: byte_of_def pack_def bit_unsigned_iff bit_drop_bit_eq bit_horner_sum_bit_word_iff a
        flip: k_def)
qed

lemma cstring_pack:
  assumes "\<forall>i < length cs. ram_addr (a + of_nat i) \<and> f (a + of_nat i) = cs ! i \<and> cs ! i \<noteq> 0"
    and "ram_addr (a + of_nat (length cs))" and "f (a + of_nat (length cs)) = 0"
  shows "cstring (pack f) a cs"
  using assms
proof (induction cs arbitrary: a)
  case (Cons ch cs)
  have "\<forall>i < length cs. ram_addr (a + 1 + of_nat i) \<and> f (a + 1 + of_nat i) = cs ! i \<and> cs ! i \<noteq> 0"
    using Cons.prems(1) by (auto dest: spec [of _ "Suc _"] simp: add.assoc)
  then have "cstring (pack f) (a + 1) cs" using Cons.prems(2,3) by (intro Cons.IH) (simp_all add: add.assoc)
  moreover have "ram_addr a" "f a = ch" "ch \<noteq> 0" using spec [OF Cons.prems(1), of 0] by simp_all
  ultimately show ?case by (simp add: byte_of_pack)
qed (simp add: byte_of_pack)

fun data_byte :: "(nat \<times> u8 list) list \<Rightarrow> nat \<Rightarrow> u8" where
  "data_byte [] n = 0"
| "data_byte ((off, cs) # ds) n = (if off \<le> n \<and> n < off + length cs then cs ! (n - off) else data_byte ds n)"

definition v3_data :: "(nat \<times> u8 list) list" where
  "v3_data = [(0x88, banner_text), (0x15C, got_irq_text), (0x170, done_text), (0x1024, bad_text), (0x103C, esr_text)]"

definition v3_memory :: "u64 \<Rightarrow> u64 \<Rightarrow> u64" where
  "v3_memory b = pack (\<lambda>a. data_byte v3_data (unat (a - b)))"

fun is_asciz :: "nat \<times> line \<Rightarrow> bool" where
  "is_asciz (off, Asciz s) = True"
| "is_asciz (off, l) = False"

lemma v3_asciz: "filter is_asciz (layout 0 guest_v3_S) =
    [(0x88, Asciz (''[guest-el1] up, waiting for injected IRQ'' @ NL)), (0x15C, Asciz ''[guest-el1] IAR=0x''),
     (0x170, Asciz (''[guest-el1] IRQ handled, Stage 4 complete'' @ NL)), (0x1024, Asciz ''[guest-el1] bad-slot 0x''),
     (0x103C, Asciz '' ESR_EL1=0x'')]"
  by (simp add: v3_code_defs)

lemma data_loaded_asciz:
  "data_loaded im m = list_all (\<lambda>(off, l). case l of Asciz s \<Rightarrow> cstring m (base im + of_nat off) (map of_char s) | _ \<Rightarrow> True)
     (filter is_asciz (layout 0 (source im)))"
proof -
  have "list_all Q L = list_all Q (filter is_asciz L)" if "\<And>x. \<not> is_asciz x \<Longrightarrow> Q x" for Q L
    using that by (induction L) auto
  moreover have "(\<lambda>(off, l). case l of Asciz s \<Rightarrow> cstring m (base im + of_nat off) (map of_char s) | _ \<Rightarrow> True) x"
    if "\<not> is_asciz x" for x
    using that by (cases x rule: is_asciz.cases) auto
  ultimately show ?thesis unfolding data_loaded_def by blast
qed

lemma v3_lengths: "length banner_text = 41" "length got_irq_text = 18" "length done_text = 42"
  "length bad_text = 23" "length esr_text = 11"
  by (simp_all add: banner_text_def got_irq_text_def done_text_def bad_text_def esr_text_def)

lemma v3_no_nul: "0 \<notin> set banner_text" "0 \<notin> set got_irq_text" "0 \<notin> set done_text" "0 \<notin> set bad_text" "0 \<notin> set esr_text"
  by (simp_all add: banner_text_def got_irq_text_def done_text_def bad_text_def esr_text_def)

lemma v3_memory_string:
  assumes b: "placed b" and n: "off + length cs < 0x4000" and z: "0 \<notin> set cs"
    and at: "\<forall>i < length cs. data_byte v3_data (off + i) = cs ! i" and e: "data_byte v3_data (off + length cs) = 0"
  shows "cstring (v3_memory b) (b + of_nat off) cs"
proof -
  have u: "unat (b + of_nat off + of_nat i - b) = off + i" "ram_addr (b + of_nat off + of_nat i)"
    if "i \<le> length cs" for i
  proof -
    have k: "unat (of_nat (off + i) :: u64) = off + i"
      using unat_of_nat [of "off + i", where 'a = 64] n that by simp
    then show "unat (b + of_nat off + of_nat i - b) = off + i" by simp
    have "(of_nat (off + i) :: u64) \<le> 0x4000" using k n that by (simp only: word_le_nat_alt) simp
    from placed_unat [OF b this] have "unat (b + of_nat off + of_nat i) = unat b + (off + i)"
      using k by (simp add: add.assoc)
    then show "ram_addr (b + of_nat off + of_nat i)"
      using b n that unfolding ram_addr_def placed_def word_le_nat_alt word_less_nat_alt by simp
  qed
  have "cs ! i \<noteq> 0" if "i < length cs" for i using z that by (metis nth_mem)
  then show ?thesis unfolding v3_memory_def using u at e by (intro cstring_pack) auto
qed

lemma v3_memory_loaded: "placed b \<Longrightarrow> data_loaded (v3_image b) (v3_memory b)"
proof -
  assume b: "placed b"
  have "cstring (v3_memory b) (b + of_nat 0x88) banner_text" "cstring (v3_memory b) (b + of_nat 0x15C) got_irq_text"
    "cstring (v3_memory b) (b + of_nat 0x170) done_text" "cstring (v3_memory b) (b + of_nat 0x1024) bad_text"
    "cstring (v3_memory b) (b + of_nat 0x103C) esr_text"
    by (rule v3_memory_string [OF b]; simp add: v3_lengths v3_no_nul v3_data_def)+
  then show ?thesis
    unfolding data_loaded_asciz v3_image_simps v3_asciz
    by (simp only: list.pred_inject case_prod_conv line.simps banner_text_def got_irq_text_def done_text_def bad_text_def esr_text_def)
qed

lemma small_nibbles:
  assumes "k < 16"
  shows "drop_bit 4 (of_nat k :: u64) AND 0xF = 0" "(of_nat k :: u64) AND 0xF = of_nat k"
proof -
  have u: "unat (of_nat k :: u64) = k" using unat_of_nat [of k, where 'a = 64] assms by simp
  have "drop_bit 4 (of_nat k :: u64) = 0"
    unfolding word_unat_eq_iff unat_drop_bit u using assms by simp
  then show "drop_bit 4 (of_nat k :: u64) AND 0xF = 0" by simp
  show "(of_nat k :: u64) AND 0xF = of_nat k"
    unfolding and_mask_take_bit word_unat_eq_iff unat_take_bit u using assms by simp
qed

lemma eight_digits: "map (\<lambda>n. hex_digit (drop_bit (4 * n) v AND 0xF)) (rev [0..<8]) =
    map (\<lambda>k. hex_digit (drop_bit k v AND 0xF)) [28, 24, 20, 16, 12, 8, 4, 0]"
proof -
  have "rev [0..<8] = [7, 6, 5, 4, 3, 2, 1, 0]" by code_simp
  then show ?thesis by simp
qed


section \<open>Properties\<close>

text \<open>
  C35. The GICv3 build, from \<open>kmain\<close> to the guest's last line. Boot leaves EL2 for the guest with one
  interrupt in list register 0; if what the virtual CPU interface hands out is the interrupt in that
  register, the guest announces itself, unmasks interrupts and waits, and taking the interrupt makes
  it print \<open>IAR=0x2a\<close> and its closing line, end that interrupt exactly once, and park for good
  with all interrupts masked. What the UART the launcher emulates then has put on its standard output is
  the boot messages followed by these lines.
\<close>

theorem stage4_end_to_end:
  assumes b: "placed (addr_guest_v3_start p)"
  shows "\<exists>s. kmain_v3 (hvf_platform p) s0 = Some (Eret, s) \<and>
    (\<forall>c. hw c = s \<and> pc c = sys s ELR_EL2 \<and> data_loaded (v3_image (pc c)) (mem c) \<and>
       (\<forall>tr. dev_mrs p tr ICC_IAR1_EL1 = take_bit 32 (sys s ICH_LR0_EL2)) \<longrightarrow>
     (\<exists>c1 c2. runs (v3_env p (pc c)) c c1 \<and> pc c1 = pc c + 0x3C \<and> daif c1 = daif c AND NOT 2 \<and>
       runs (v3_env p (pc c)) (take_irq spsr c1) c2 \<and>
       fst (replay (io (hw c2)) pl011_reset) = console (io s) @ map of_char (''[guest-el1] up, waiting for injected IRQ'' @ NL @
         ''[guest-el1] IAR=0x2a'' @ NL @ ''[guest-el1] IRQ handled, Stage 4 complete'' @ NL) \<and>
       icc_eois (io (hw c2)) = icc_eois (io s) @ [42] \<and>
       (\<forall>n. \<exists>c3. steps (v3_env p (pc c)) n c2 = Running c3 \<and> hw c3 = hw c2 \<and> daif c3 = 0xF)))"
proof -
  obtain s where k: "kmain_v3 (hvf_platform p) s0 = Some (Eret, s)" using kmain_v3_returns by blast
  have lr: "take_bit 32 (sys s ICH_LR0_EL2) = 42"
    using kmain_v3_effect(4) [OF k] make_lr_fields [of 42 "0xA0" True] by (simp add: Let_def)
  have elr: "sys s ELR_EL2 = addr_guest_v3_start p"
    using kmain_v3_effect(2) [OF k] by (simp add: hvf_platform_def)
  have hex: "hex_digit (drop_bit 4 (42 AND 0xFF)) = 50" "hex_digit ((42 AND 0xFF) AND 0xF) = 97"
    by (simp_all add: hex_digit_def)
  have "map of_char (''[guest-el1] up, waiting for injected IRQ'' @ NL @ ''[guest-el1] IAR=0x2a'' @ NL @
      ''[guest-el1] IRQ handled, Stage 4 complete'' @ NL) = banner_text @ got_irq_text @ [50, 97, 10 :: u8] @ done_text"
    by (simp add: banner_text_def got_irq_text_def done_text_def)
  note tx = this [unfolded hex [symmetric]]
  show ?thesis
  proof (intro exI [of _ s] conjI k allI impI, elim conjE)
    fix c :: cpu
    assume c: "hw c = s" "pc c = sys s ELR_EL2" "data_loaded (v3_image (pc c)) (mem c)"
      "\<forall>tr. dev_mrs p tr ICC_IAR1_EL1 = take_bit 32 (sys s ICH_LR0_EL2)"
    show "\<exists>c1 c2. runs (v3_env p (pc c)) c c1 \<and> pc c1 = pc c + 0x3C \<and> daif c1 = daif c AND NOT 2 \<and>
       runs (v3_env p (pc c)) (take_irq spsr c1) c2 \<and>
       fst (replay (io (hw c2)) pl011_reset) = console (io s) @ map of_char (''[guest-el1] up, waiting for injected IRQ'' @ NL @
         ''[guest-el1] IAR=0x2a'' @ NL @ ''[guest-el1] IRQ handled, Stage 4 complete'' @ NL) \<and>
       icc_eois (io (hw c2)) = icc_eois (io s) @ [42] \<and>
       (\<forall>n. \<exists>c3. steps (v3_env p (pc c)) n c2 = Running c3 \<and> hw c3 = hw c2 \<and> daif c3 = 0xF)"
      unfolding tx replay_console c(1) [symmetric]
      by (rule v3_guest_reports [OF _ c(3) refl c(4) [unfolded lr]]) (use b c(2) elr in simp_all)
  qed
qed

theorem stage4_end_to_end_witness:
  "\<exists>p s c c1 c2. kmain_v3 (hvf_platform p) (boot_state p (\<lambda>_. 0)) = Some (Eret, s) \<and> hw c = s \<and>
     runs (v3_env p 0x40098000) c c1 \<and> runs (v3_env p 0x40098000) (take_irq 5 c1) c2 \<and>
     icc_eois (io (hw c2)) = icc_eois (io s) @ [42]"
proof -
  let ?p = "(board 1 0)\<lparr>dev_mrs := \<lambda>_ _. 42\<rparr>"
  have b: "placed (addr_guest_v3_start ?p)" by (simp add: placed_def)
  obtain s where s: "kmain_v3 (hvf_platform ?p) (boot_state ?p (\<lambda>_. 0)) = Some (Eret, s)"
    and ok: "\<forall>c. hw c = s \<and> pc c = sys s ELR_EL2 \<and> data_loaded (v3_image (pc c)) (mem c) \<and>
       (\<forall>tr. dev_mrs ?p tr ICC_IAR1_EL1 = take_bit 32 (sys s ICH_LR0_EL2)) \<longrightarrow>
     (\<exists>c1 c2. runs (v3_env ?p (pc c)) c c1 \<and> runs (v3_env ?p (pc c)) (take_irq 5 c1) c2 \<and>
       icc_eois (io (hw c2)) = icc_eois (io s) @ [42])"
    using stage4_end_to_end [OF b, of "boot_state ?p (\<lambda>_. 0)" 5] by blast
  have lr: "take_bit 32 (sys s ICH_LR0_EL2) = 42"
    using kmain_v3_effect(4) [OF s] make_lr_fields [of 42 "0xA0" True] by (simp add: Let_def)
  have elr: "sys s ELR_EL2 = 0x40098000"
    using kmain_v3_effect(2) [OF s] by (simp add: hvf_platform_def)
  let ?c = "\<lparr>xr = (\<lambda>_. 0), spr = 0, pc = 0x40098000, flag_c = False, flag_z = False, daif = 0xF,
    mem = v3_memory 0x40098000, hw = s\<rparr>"
  have "data_loaded (v3_image (pc ?c)) (mem ?c)" using v3_memory_loaded [of "0x40098000"] b by simp
  then show ?thesis using spec [OF ok, of ?c] s lr elr
    by - (rule exI [of _ ?p], rule exI [of _ s], rule exI [of _ ?c], simp)
qed

text \<open>
  A spurious interrupt in the same guest: it is ended, nothing is printed, and the guest returns
  to the interrupted code with the stack pointer and every general register as before, except that
  \<open>x19\<close>, \<open>x20\<close> and \<open>x21\<close>, which the entry uses and never saved, hold its own values.
\<close>

theorem v3_spurious_clobbers:
  assumes at: "pc c = b + 0xA80" and room: "stack_room 64 (spr c)"
    and iar: "dev_mrs p (io (hw c)) ICC_IAR1_EL1 = iar" and sp: "iar AND 0xFFFFFF = 1023"
  shows "\<exists>n c'. steps (v3_env p b) n c = Left c' \<and> spr c' = spr c \<and>
    (\<forall>i. i \<notin> {19, 20, 21} \<longrightarrow> xr c' i = xr c i) \<and> xr c' 19 = iar \<and> xr c' 20 = 1023 \<and> xr c' 21 = 1023 \<and>
    console (io (hw c')) = console (io (hw c)) \<and> icc_eois (io (hw c')) = icc_eois (io (hw c)) @ [iar]"
proof -
  let ?e = "v3_env p b" and ?j = "goto (b + 0xB4) c"
  define a where "a = irq_acked p b ?j"
  have "runs ?e c ?j" using v3_irq_slot [of b] at by (intro runs_step) (simp add: step_def)
  moreover have "runs ?e ?j a"
    unfolding a_def using room by (intro irq_entry_acks) (simp_all add: goto_def)
  ultimately obtain m where m: "steps ?e m c = Running a" using runs_trans unfolding runs_def by blast
  have f: "pc a = b + 0xD4" "flag_z a" "spr a = spr c - 64" "mem a = irq_frame c"
      "hw a = (hw c)\<lparr>io := io (hw c) @ [Mrs ICC_IAR1_EL1 iar]\<rparr>" "xr a = (xr c)(19 := iar, 20 := 1023, 21 := 1023)"
    using iar sp by (simp_all add: a_def irq_acked_def irq_frame_def mrs_dev_def Let_def goto_def)
  have fr: "irq_frame c (spr c - 64) = xr c 0" "irq_frame c (spr c - 64 + 8) = xr c 1"
    "irq_frame c (spr c - 64 + 16) = xr c 2" "irq_frame c (spr c - 64 + 24) = xr c 3"
    "irq_frame c (spr c - 64 + 32) = xr c 29" "irq_frame c (spr c - 64 + 40) = xr c 30"
    by (simp_all add: irq_frame_def Let_def)
  obtain n where "steps ?e n a = Left (a\<lparr>
      xr := (xr a)(29 := xr c 29, 30 := xr c 30, 2 := xr c 2, 3 := xr c 3, 0 := xr c 0, 1 := xr c 1),
      hw := msr ICC_EOIR1_EL1 iar (hw a), spr := spr c, pc := b + 0x130\<rparr>)"
    using irq_spurious [OF f(1,2), of p] room f(3,6) unfolding f(3,4) fr by auto
  from steps_seq [OF m this] show ?thesis
    by (intro exI) (auto simp: f msr_def)
qed

theorem v3_spurious_clobbers_witness:
  "\<exists>c n c'. xr c 19 = 7 \<and> steps (v3_env ((board 1 0)\<lparr>dev_mrs := \<lambda>_ _. 1023\<rparr>) 0x40098000) n c = Left c' \<and>
     xr c' 0 = 7 \<and> xr c' 19 = 1023"
proof -
  let ?p = "(board 1 0)\<lparr>dev_mrs := \<lambda>_ _. 1023\<rparr>"
  let ?c = "\<lparr>xr = (\<lambda>_. 7), spr = 0x4009A050, pc = 0x40098A80, flag_c = False, flag_z = False, daif = 0xF,
    mem = (\<lambda>_. 0), hw = boot_state ?p (\<lambda>_. 0)\<rparr>"
  obtain n c' where "steps (v3_env ?p 0x40098000) n ?c = Left c'" "xr c' 0 = 7" "xr c' 19 = 1023"
    using v3_spurious_clobbers [of ?c "0x40098000" ?p 1023] by (auto simp: stack_room_def)
  then show ?thesis by - (rule exI [of _ ?c], auto)
qed



end
