(* ===== verification/Spec2Isabelle.thy ===== *)
theory Spec2Isabelle
  imports Isolation Guest GicV3 Launcher Kicker Whole GuestVectors GuestV3Run
begin

text \<open>
  A verification of the AArch64 hypervisor under \<open>src/\<close>: a type-1 hypervisor that runs at EL2 on
  QEMU's \<open>virt\<close> board, boots Linux and a bare-metal guest as virtual machines, and can also be
  started as an EL2 guest on a Mac by a launcher.

  \<^bold>\<open>The program.\<close> \<open>boot.S\<close> sets the stack and the vectors, clears memory and calls \<open>kmain\<close> (\<open>src/src/kmain.c\<close>), which brings up the
  UART (\<open>src/src/uart.c\<close>) and the physical interrupt controller (\<open>src/src/gic.c\<close>), builds one set of
  stage-2 tables per VM (\<open>src/src/stage2.c\<close>), initialises the vCPUs and enters the first one with
  \<open>eret\<close> (\<open>src/src/sched.c\<close>). From then on the vectors (\<open>src/src/vectors.S\<close>) save the guest's registers
  in a trap frame and call \<open>handle_exception\<close> (\<open>src/src/exceptions.c\<close>), which logs the exit and dispatches: physical
  interrupts to \<open>gic.c\<close> (timer ticks switch vCPUs, the virtual timer and the UART are passed on to
  the guest), hypercalls and PSCI, trapped WFI, trapped system registers, and stage-2 aborts, of
  which those on the interrupt controller go to the emulated CPU interface (\<open>src/src/vgic.c\<close>).
  Built for the launcher, \<open>gic_v3.c\<close> and \<open>vgic_v3.c\<close> replace \<open>gic.c\<close> and \<open>vgic.c\<close>, and
  \<open>src/host/hvf_main.c\<close> loads the image and runs it on Apple's Hypervisor framework with an emulated
  UART, while a second thread interrupts the run at regular times. The bare-metal guest is \<open>guest.c\<close>
  with \<open>guest_vectors.S\<close>; the guest of the GICv3 build is \<open>guest_v3.S\<close>.

  \<^bold>\<open>The theories\<close>, each naming its definitions after the code:

  \<^item> \<open>Prelude\<close>: C integer types as words, collections of rewrite rules, facts on words, lists, options.
  \<^item> \<open>Machine\<close>: the hardware interface and the data. The record \<open>hyp\<close> has one field per global
    variable of the C files, plus the system registers and the trace \<open>io\<close> of every device access,
    \<open>msr\<close> and TLB operation in program order. What a device register or a counter reads is a
    parameter, a function of that trace in the record \<open>platform\<close>, so every theorem holds for every
    behaviour of the devices unless it says otherwise. \<open>board\<close> is a concrete platform for examples.
  \<^item> \<open>Uart\<close>: \<open>uart.c\<close>. The locale \<open>pl011_console\<close> is the contract the rest relies on: the transmit
    FIFO drains after finitely many polls. It is interpreted on the concrete board and, in \<open>Hvf\<close>, on
    the launcher's emulated UART.
  \<^item> \<open>Vgic\<close>: \<open>vgic.c\<close>. The abstract interface \<open>agic\<close> (a set of pending interrupts, the active one, a
    deferred physical completion) is refined by the code's bitmap and registers; the locale
    \<open>cpu_interface\<close> derives from its laws that a guest draining its interrupts gets each pending one
    once, lowest first, and is interpreted on the model of \<open>read_reg\<close>.
  \<^item> \<open>Stage2\<close>: \<open>stage2.c\<close>, with the architecture's table walk \<open>s2_walk\<close> over the arrays the code
    builds and the memory map \<open>s2_spec\<close> it realises.
  \<^item> \<open>Sched\<close>: \<open>sched.c\<close>: context switch, timer, round robin; \<open>hyp_inv\<close> is the invariant that ties each
    vCPU's interrupt line to its pending interrupts.
  \<^item> \<open>Gic\<close>: \<open>gic.c\<close>; \<open>Exceptions\<close>: \<open>exceptions.c\<close>; \<open>Boot\<close>: \<open>kmain.c\<close> and the invariant \<open>vm_inv\<close> of
    tables, bases and trap controls, kept by every handler.
  \<^item> \<open>System\<close>: guest execution and traps as the step relation \<open>hyp_step\<close>, reachability from boot, and
    the invariants by induction on it; the frame \<open>own\<close> of what an exit may change. \<open>Isolation\<close>: what
    an exit may depend on, as the relation \<open>same_view\<close> between states that look the same to one VM.
  \<^item> \<open>Guest\<close>: \<open>guest.c\<close>, running against the hypervisor: its hypercall is \<open>handle_exception\<close>, its loads
    go through \<open>s2_walk\<close>.
  \<^item> \<open>GicV3\<close>: \<open>gic_v3.c\<close>, \<open>vgic_v3.c\<close>, and \<open>kmain.c\<close> and \<open>exceptions.c\<close> in that build.
  \<^item> \<open>Hvf\<close>, \<open>Launcher\<close>: \<open>hvf_main.c\<close>: emulated UART, instruction decoding, exit loop; ELF loader and
    \<open>main\<close>. The framework is a parameter (\<open>hv_api\<close>), its documented register behaviour the
    hypothesis \<open>reg_file\<close>. \<open>Kicker\<close>: the second thread, interleaved with the first at every call of the
    framework by an arbitrary schedule; what the framework promises of a request to leave the guest is
    the hypothesis \<open>vcpus_exit_law\<close>.
  \<^item> \<open>Asm\<close>: the subset of AArch64 the assembly files use. A file is a list of source lines, labels,
    alignment and data included; \<open>layout\<close> gives each its offset as the assembler does, \<open>fetch\<close> reads
    the instruction at an address with its labels resolved, and \<open>exec\<close> and \<open>step\<close> run it on a CPU
    with the same \<open>hyp\<close> underneath. A call of a C function is a step of the environment \<open>env\<close>.
  \<^item> \<open>Start\<close>: \<open>boot.S\<close>, and the C globals as the layout of the structs reads them from memory;
    \<open>Vectors\<close>: \<open>vectors.S\<close> around \<open>handle_exception\<close>; \<open>GuestVectors\<close>: \<open>guest_vectors.S\<close> around
    \<open>guest_irq_handler\<close>; \<open>Whole\<close>: the image from the first instruction on, with \<open>boot.S\<close>, \<open>kmain\<close> and
    the vectors composed into the runs \<open>machine_run\<close> of one CPU, each state of which matches one of
    \<open>hyp_step\<close>; \<open>GuestV3\<close>, \<open>GuestV3Run\<close>: the code of \<open>guest_v3.S\<close>, and what it does.

  \<^bold>\<open>What is shown.\<close> Isolation and control: in every reachable configuration the guest runs under its
  own VM's memory map with the traps on, handling an exit touches no other VM, and what the guest gets
  back does not depend on the state of another VM. The same holds of the machine: every state of the CPU
  between two exceptions, from the reset on, is one the transition system reaches, the EL2 stack never
  grows, and no exception faults or hangs while the console drains. Interrupts: each physical interrupt is completed exactly
  once, at once or when the guest completes it; injected interrupts are delivered in order. Context
  switching is transparent to each vCPU. Every handler finishes, and the CPU stops only when the
  guest asks for it or on an exception the code does not handle. Texts printed are the ones meant,
  and numbers read back. The launcher's decoder inverts the instruction encodings, its abort handler
  performs the access of the instruction, its loader places the image, and its second thread changes
  nothing but the number of rounds. The assembly fits the model of the C code: the entry stub ends and leaves the state
  \<open>kmain\<close> starts from, an exception through any of the sixteen vectors is one step of \<open>hyp_step\<close> with
  the guest's registers passed and restored exactly, a timer interrupt of the bare-metal guest comes
  back with its registers intact, and the GICv3 build runs from \<open>kmain\<close> to the last line its guest
  prints. Two faults of the guests' assembly are proved as such.

  \<^bold>\<open>Loops.\<close> Polling loops that end only if the device cooperates are \<open>partial_function (option)\<close>,
  \<open>None\<close> meaning that they never end; the theorems on termination show \<open>Some\<close> under the console
  contract, with no bound on the number of polls. The launcher's exit loop is of the same kind. The
  redistributor wait carries the code's own limit of 1000000 as its counter. Machine code runs for a
  number of steps that each theorem gives or shows to exist; the loop over the BSS has its exact count. All other loops are
  structural or have a measure. \<open>for (;;) wfe\<close> is the outcome \<open>Halted\<close>.

  \<^bold>\<open>Assumptions.\<close> Guests do not write the hypervisor's own memory (\<open>guest_runs\<close>): the stage-2 tables
  would let them, as \<open>ram_shared_between_vms\<close> shows. RAM that \<open>HVC_PUTS\<close> reads is fixed. The five
  stage-2 arrays lie apart in RAM (\<open>layout_ok\<close>), which the linker script gives. There are one or two
  vCPUs, as the code supports. In the launcher, \<open>fstat\<close> and mapping a file that is not empty succeed.
  EL2 and the GICv3 guest run with the MMU off, so data accesses of the machine code are doublewords of
  physical RAM at aligned addresses, or a byte of one, or a device register; an access elsewhere faults.
  A C function called from assembly returns with the stack pointer, the callee-saved registers and the
  stack above as the procedure call standard says and arbitrary values in the other registers.
  \<open>wfe\<close> and \<open>wfi\<close> may return at any time, so they are steps without effect.

  \<^bold>\<open>Not modelled.\<close> Barriers, caches and TLB contents beyond the order of operations in the trace.
  Instructions the C compiler generates: C functions are modelled from their source. Floating-point
  registers, which neither the hypervisor (built with general registers only) nor its context switch
  touches. The tracing prints under \<open>HYP_DEBUG_TRAPS\<close>, which the source sets to 0. A request of the
  launcher's second thread that arrives while the guest runs is an exit \<open>Canceled\<close> of the framework's
  own, after whatever the guest did until then. \<open>sched.c\<close> in the GICv3 build, which enters its guest
  before it reaches the scheduler. Exact formats of the launcher's messages on standard error: each is
  a constructor with its arguments. Prototypes, unused constants and the stub \<open>guest_entry\<close>, which has
  no caller; the build files, device trees and the plans under \<open>src/\<close>.
\<close>


section \<open>Properties\<close>



text \<open>
  C2. In every configuration the system can reach, whatever the guests do with the registers and
  devices they control and whatever exceptions they raise, the invariants hold: each
  vCPU's interrupt line matches its pending interrupts, the translation tables, bases and trap
  controls are those boot installed, saved frames have their 31 registers, and the exit ring
  holds the last 32 exits.
\<close>

theorem reachable_invariant:
  assumes "reachable p c" and "nvcpu p = 1 \<or> nvcpu p = 2"
  shows "config_inv p c"
  using reachable_config_inv [OF assms] .

theorem reachable_invariant_witness: "\<exists>s. reachable (board 2 0) (In_guest [] s) \<and> hyp_inv (board 2 0) s"
proof -
  obtain s where "reachable (board 2 0) (In_guest [] s)"
    using board_boots [of 2 0] reachable.boot by blast
  with reachable_invariant [OF this] show ?thesis by auto
qed

text \<open>
  C1. Whenever a guest runs, it runs confined: the hardware translates each of its addresses by
  the memory map of its own VM, stage-2 translation is on, physical interrupts are routed to
  EL2, WFI is trapped and the guest is in AArch64 state.
\<close>

theorem guest_always_confined:
  assumes "reachable p (In_guest hist s)" and "nvcpu p = 1 \<or> nvcpu p = 2" and "layout_ok p"
  shows "s2_walk p s (sys s VTTBR_EL2) ipa = s2_spec p (current s) ipa \<and> sys s VTCR_EL2 = vtcr_value
    \<and> bit (sys s HCR_EL2) 0 \<and> bit (sys s HCR_EL2) 4 \<and> bit (sys s HCR_EL2) 13 \<and> bit (sys s HCR_EL2) 31"
  using reachable_config_inv [OF assms(1,2)] inv_confined [OF _ _ assms(3)] by simp

theorem guest_always_confined_witness:
  "\<exists>s. reachable (board 2 0) (In_guest [] s)
     \<and> s2_walk (board 2 0) s (sys s VTTBR_EL2) 0x08000000 = xlate.Fault"
proof -
  obtain s where r: "reachable (board 2 0) (In_guest [] s)"
    using board_boots [of 2 0] reachable.boot by blast
  from guest_always_confined [OF r, of "0x08000000"] board_layout show ?thesis
    using r by (auto simp: s2_spec_def)
qed

text \<open>
  The system does not get stuck: with a console that drains, a handler started in any
  configuration finishes, resuming the guest or stopping the CPU, as long as a guest that asks
  for a string to be printed points at one that ends; and a running guest can always trap.
\<close>

theorem system_progress:
  assumes "pl011_console p" and "tf_x tf ! 0 = HVC_PUTS \<Longrightarrow> terminated p (tf_x tf ! 1)"
    and "length (tf_x tf) = 31"
  shows "(\<exists>c'. hyp_step p (In_handler hist tf kind s) c') \<and> hyp_step p (In_guest hist s) (In_handler hist tf kind s)"
proof
  show "\<exists>c'. hyp_step p (In_handler hist tf kind s) c'"
    using assms(1,2) by (rule pl011_console.handler_steps)
  have "guest_runs s s"
    unfolding guest_runs_def by (intro exI [of _ "sys s"] exI [of _ "[]"] exI [of _ "guest_states s"]) simp
  then show "hyp_step p (In_guest hist s) (In_handler hist tf kind s)" using assms(3) by (rule hyp_step.trap)
qed

theorem system_progress_witness:
  "\<exists>c'. hyp_step (board 1 33) (In_handler [] some_frame VEC_L64_IRQ (boot_state (board 1 33) (\<lambda>_. 0))) c'"
  using system_progress [OF board_console.pl011_console_axioms [of 1 33], of some_frame "[]" VEC_L64_IRQ]
  by (simp add: some_frame_def HVC_PUTS_def)

text \<open>
  C4. Handling an exit of one VM, whatever it is, touches no other: the interrupt interface and the
  parked context of every vCPU other than the one that was running, all translation tables and
  all private pages are as they were, and the hypervisor-wide invariant is kept.
\<close>

theorem exit_touches_only_own_vm:
  assumes "handle_exception p tf kind s = Some (r, s')" and "hyp_inv p s" and "length (tf_x tf) = 31"
  shows "(\<forall>i < length (vcpus s). i \<noteq> unat (current s) \<longrightarrow>
        vgics s' ! i = vgics s ! i \<and> vcpus s' ! i = vcpus s ! i)
    \<and> s2_l1 s' = s2_l1 s \<and> s2_l2_low s' = s2_l2_low s \<and> s2_l3_gic s' = s2_l3_gic s
    \<and> s2_l3_priv s' = s2_l3_priv s \<and> vm_priv_page s' = vm_priv_page s \<and> hyp_inv p s'"
  using handle_exception_own [OF assms(1,2)] handle_exception_keeps [OF assms(1)]
    handle_exception_inv [OF assms(2,3,1)]
  by (simp add: own_def keeps_def log_exit_def exit_ring_push_def)

theorem exit_touches_only_own_vm_witness:
  "\<exists>s r s'. handle_exception (board 2 26) some_frame VEC_L64_IRQ s = Some (r, s')
     \<and> length (vcpus s) = 2 \<and> vcpus s' ! (1 - unat (current s)) = vcpus s ! (1 - unat (current s))
     \<and> hyp_inv (board 2 26) s'"
proof -
  obtain s where b: "kmain (board 2 26) (boot_state (board 2 26) (\<lambda>_. 0)) = Some (Ret [LINUX_DTB_IPA, 0, 0, 0], s)"
    using board_boots [of 2 26] by blast
  have inv: "hyp_inv (board 2 26) s" using kmain_effect(2) [OF b] by simp
  then have len: "length (vcpus s) = 2" by (simp add: hyp_inv_def sched_ok_def)
  obtain r s' where h: "handle_exception (board 2 26) some_frame VEC_L64_IRQ s = Some (r, s')"
    using pl011_console.handle_exception_returns [OF board_console.pl011_console_axioms [of 2 26], of some_frame VEC_L64_IRQ s]
    by (auto simp: some_frame_def HVC_PUTS_def)
  have "unat (current s) < 2" using inv by (simp add: hyp_inv_def sched_ok_def word_less_nat_alt)
  then have c: "1 - unat (current s) < 2 \<and> 1 - unat (current s) \<noteq> unat (current s)" by arith
  from exit_touches_only_own_vm [OF h inv] len c h show ?thesis
    by (intro exI [of _ s] exI [of _ r] exI [of _ s']) (auto simp: some_frame_def)
qed


end
